theory Spec2Isabelle
  imports Main "HOL-Library.Word"
begin

unbundle bit_operations_syntax

section \<open>Bytes and padding\<close>

text \<open>
  A Node.js \<open>Buffer\<close> is a list of bytes; \<open>buf.byteLength\<close> is its length.
\<close>

type_synonym byte = "8 word"
type_synonym buffer = "byte list"

text \<open>
  The JavaScript exceptions that the two pipelines raise themselves or tell apart
  (\<open>new Error(msg)\<close>, \<open>TypeError\<close>, \<open>ReferenceError\<close>, \<open>RangeError\<close>).
\<close>

datatype js_error =
    Error string
  | TypeError string
  | ReferenceError string
  | RangeError string

text \<open>
  \<open>OutgoingMessage.getPaddedMessageLength(messageLength)\<close>: part count by
  \<open>Math.floor\<close> of the division by 160, one more part when there is a remainder.
\<close>

definition getPaddedMessageLength :: "nat \<Rightarrow> nat" where
  "getPaddedMessageLength messageLength =
     (let messageLengthWithTerminator = messageLength + 1;
          messagePartCount = messageLengthWithTerminator div 160;
          messagePartCount =
            (if messageLengthWithTerminator mod 160 \<noteq> 0
             then messagePartCount + 1 else messagePartCount)
      in messagePartCount * 160)"

text \<open>
  \<open>new Buffer(size)\<close> on Node 8 and later (the version the README asks for) is
  zero-filled. \<open>buf.set(src)\<close> copies \<open>src\<close> to offset 0 and raises a
  \<open>RangeError\<close> when \<open>src\<close> does not fit. An indexed store \<open>buf[i] = v\<close> outside
  the buffer is ignored, as is \<open>xs[i := v]\<close>.
\<close>

definition newBuffer :: "nat \<Rightarrow> buffer" where
  "newBuffer n = replicate n 0"

definition buffer_set :: "buffer \<Rightarrow> buffer \<Rightarrow> js_error + buffer" where
  "buffer_set buf src =
     (if length buf < length src then Inl (RangeError ''offset is out of bounds'')
      else Inr (src @ drop (length src) buf))"

text \<open>
  The first five lines of \<open>OutgoingMessage.doSendMessage\<close>, which build
  \<open>paddedBuf\<close> from \<open>this.messageBuffer\<close>:
  \<^verbatim>\<open>
    const minLen = this.getPaddedMessageLength(mBuf.byteLength + 1) - 1;
    const paddedBuf = new Buffer(minLen);
    paddedBuf.set(mBuf);
    paddedBuf[mBuf.byteLength] = 0x80;
  \<close>
\<close>

definition padMessage :: "buffer \<Rightarrow> js_error + buffer" where
  "padMessage mBuf =
     (let minLen = getPaddedMessageLength (length mBuf + 1) - 1;
          paddedBuf = newBuffer minLen
      in case buffer_set paddedBuf mBuf of
           Inl e \<Rightarrow> Inl e
         | Inr paddedBuf \<Rightarrow> Inr (paddedBuf[length mBuf := 0x80]))"

text \<open>
  \<open>MessageReceiver.unpad(buf)\<close>. The loop variable \<open>i\<close> runs from
  \<open>buf.byteLength - 1\<close> down to 0; \<open>unpad_loop buf (Suc i)\<close> is the loop at
  index \<open>i\<close> and \<open>unpad_loop buf 0\<close> is the loop after its last round.
  \<open>buf.slice(0, i)\<close> is \<open>take i buf\<close>.
\<close>

fun unpad_loop :: "buffer \<Rightarrow> nat \<Rightarrow> js_error + buffer" where
  "unpad_loop buf 0 = Inl (Error ''Invalid buffer'')"
| "unpad_loop buf (Suc i) =
     (if buf ! i = 0x80 then Inr (take i buf)
      else if buf ! i \<noteq> 0x00 then Inl (Error ''Invalid padding'')
      else unpad_loop buf i)"

definition unpad :: "buffer \<Rightarrow> js_error + buffer" where
  "unpad buf = unpad_loop buf (length buf)"

section \<open>Shared vocabulary of the two pipelines\<close>

type_synonym addr = string
type_synonym identity_key = buffer
type_synonym keys = buffer

text \<open>
  The body of a 409 or 410 response. A field that the body does not carry is
  \<open>undefined\<close> in JavaScript, here \<open>None\<close>.
\<close>

record response =
  extraDevices :: "nat list option"
  missingDevices :: "nat list option"
  staleDevices :: "nat list option"

text \<open>The per-device ciphertext built by \<open>OutgoingMessage.toJSON\<close>.\<close>

record device_message =
  msg_type :: nat
  destinationDeviceId :: nat
  destinationRegistrationId :: nat
  msg_content :: string

text \<open>
  Exceptions. The classes of \<open>libsignal\<close> (\<open>MessageCounterError\<close>,
  \<open>UntrustedIdentityKeyError\<close>, \<open>SessionError\<close>, \<open>PreKeyError\<close>) and of
  \<open>errors.js\<close> (\<open>ProtocolError\<close> with its \<open>code\<close> and \<open>response\<close>, and the
  four errors the sender constructs) are one constructor each; every thrown value is an
  object. \<open>MessageCounterError\<close> and \<open>PreKeyError\<close> are subclasses of
  \<open>SessionError\<close>.
\<close>

datatype exn =
    JsError js_error
  | MessageCounterError string
  | UntrustedIdentityKeyError addr identity_key
  | SessionError string
  | PreKeyError string
  | ProtocolError nat response
  | UnregisteredUserError addr exn
  | SendMessageError addr "device_message list" exn nat
  | OutgoingIdentityKeyError addr buffer nat identity_key
  | OutgoingMessageError addr buffer nat "exn option"

fun is_MessageCounterError :: "exn \<Rightarrow> bool" where
  "is_MessageCounterError (MessageCounterError _) = True"
| "is_MessageCounterError _ = False"

fun is_UntrustedIdentityKeyError :: "exn \<Rightarrow> bool" where
  "is_UntrustedIdentityKeyError (UntrustedIdentityKeyError _ _) = True"
| "is_UntrustedIdentityKeyError _ = False"

fun is_PreKeyError :: "exn \<Rightarrow> bool" where
  "is_PreKeyError (PreKeyError _) = True"
| "is_PreKeyError _ = False"

fun is_SessionError :: "exn \<Rightarrow> bool" where
  "is_SessionError (SessionError _) = True"
| "is_SessionError (PreKeyError _) = True"
| "is_SessionError (MessageCounterError _) = True"
| "is_SessionError _ = False"

fun is_ProtocolError :: "exn \<Rightarrow> bool" where
  "is_ProtocolError (ProtocolError _ _) = True"
| "is_ProtocolError _ = False"

text \<open>\<open>e.code\<close> and \<open>e.response\<close>, read only after \<open>instanceof ProtocolError\<close>.\<close>

fun code :: "exn \<Rightarrow> nat" where
  "code (ProtocolError c _) = c"
| "code _ = 0"

fun response_of :: "exn \<Rightarrow> response" where
  "response_of (ProtocolError _ r) = r"
| "response_of _ = \<lparr>extraDevices = None, missingDevices = None, staleDevices = None\<rparr>"

text \<open>
  \<open>e.message\<close>. The messages of the \<open>errors.js\<close> classes are set outside the
  modelled files; they are taken to be empty.
\<close>

fun message_of :: "exn \<Rightarrow> string" where
  "message_of (JsError (Error m)) = m"
| "message_of (JsError (TypeError m)) = m"
| "message_of (JsError (ReferenceError m)) = m"
| "message_of (JsError (RangeError m)) = m"
| "message_of (MessageCounterError m) = m"
| "message_of (SessionError m) = m"
| "message_of (PreKeyError m) = m"
| "message_of _ = []"

subsection \<open>Envelopes, decoded messages and events\<close>

datatype envelope_type = CIPHERTEXT | PREKEY_BUNDLE | RECEIPT | OTHER_TYPE

text \<open>
  An envelope. \<open>content\<close> and \<open>legacyMessage\<close> are \<open>None\<close> when the field is
  falsy; \<open>keyChange\<close> is \<open>None\<close> until \<open>handleEnvelope\<close> sets it to \<open>true\<close>.
\<close>

record envelope =
  etype :: envelope_type
  source :: addr
  sourceDevice :: nat
  timestamp :: nat
  content :: "buffer option"
  legacyMessage :: "buffer option"
  keyChange :: "bool option"

record data_message =
  flags :: "32 word"
  dm_body :: buffer

record sent_message =
  destination :: "string option"
  sent_timestamp :: nat
  message :: data_message
  expirationStartTimestamp :: "nat option"

record read_entry =
  read_timestamp :: nat
  sender :: addr

text \<open>
  A decoded \<open>SyncMessage\<close>: \<open>sync_sent\<close> is \<open>message.sent\<close>, \<open>sync_read\<close> is
  \<open>message.read\<close> (empty when absent); the other four fields say whether the
  member is present.
\<close>

record sync_message =
  sync_sent :: "sent_message option"
  sync_read :: "read_entry list"
  contacts :: bool
  groups :: bool
  blocked :: bool
  request :: bool

record content_message =
  syncMessage :: "sync_message option"
  dataMessage :: "data_message option"

text \<open>The Exchange view after \<open>setSource\<close>, \<open>setSourceDevice\<close> and \<open>setTimestamp\<close>.\<close>

record exchange =
  ex_source :: addr
  ex_sourceDevice :: nat
  ex_timestamp :: nat

record message_data =
  md_timestamp :: nat
  md_source :: addr
  md_sourceDevice :: nat
  md_message :: data_message
  md_exchange :: exchange
  md_keyChange :: "bool option"

record sent_data =
  sd_source :: addr
  sd_sourceDevice :: nat
  sd_timestamp :: nat
  sd_destination :: "string option"
  sd_message :: data_message
  sd_exchange :: exchange
  sd_expirationStartTimestamp :: "nat option"

record read_data =
  rd_event_timestamp :: nat
  rd_timestamp :: nat
  rd_sender :: addr
  rd_source :: addr
  rd_sourceDevice :: nat

text \<open>
  The events of \<open>MessageReceiver\<close>: \<open>receipt\<close> (with \<open>ev.proto\<close>), \<open>message\<close>,
  \<open>sent\<close> and \<open>read\<close> (with their data), \<open>error\<close> (with \<open>ev.error\<close> and
  \<open>ev.proto\<close>) and the \<open>KeyChangeEvent\<close> (with the key error and the envelope).
\<close>

datatype event =
    ReceiptEvent envelope
  | MessageEvent message_data
  | SentEvent sent_data
  | ReadEvent read_data
  | ErrorEvent exn envelope
  | KeyChangeEvent exn envelope

text \<open>The journal entries and events of \<open>OutgoingMessage\<close>.\<close>

record sent_entry =
  sent_timestamp_of :: nat
  sent_addr :: addr

text \<open>
  An entry of the \<open>errors\<close> journal: \<open>entry.timestamp\<close>, \<open>entry.error\<close>, and the
  two properties \<open>emitError\<close> writes onto the error, \<open>error.addr\<close> and
  \<open>error.reason\<close>.
\<close>

record error_entry =
  error_timestamp :: nat
  error :: exn
  error_addr :: addr
  error_reason :: string

datatype out_event =
    SentEmitted sent_entry
  | ErrorEmitted error_entry
  | KeyChangeEmitted addr identity_key

text \<open>A device entry and the response of a prekey fetch.\<close>

record device =
  deviceId :: nat
  registrationId :: nat

record keys_response =
  identityKey :: identity_key
  devices :: "device list"

text \<open>What \<open>sessionCipher.encrypt\<close> returns.\<close>

record encrypted =
  enc_type :: nat
  enc_registrationId :: nat
  enc_body :: buffer

subsection \<open>External calls, the trace and the program monad\<close>

text \<open>
  Every call that leaves the two modelled classes (storage, libsignal, the service
  client, the message sender, event listeners) is recorded in a trace with its
  arguments, and with the exception it raised, if any. A session is named by the pair
  of address and device id that the source encodes as \<open>addr.deviceId\<close>.
\<close>

datatype action =
    IsBlocked addr
  | DecryptWhisperMessage addr nat buffer
  | DecryptPreKeyWhisperMessage addr nat buffer
  | ExchangeDecode data_message
  | DispatchEvent event
  | AcceptKeyChange exn envelope
  | GenerateKeys
  | RegisterKeys keys
  | CloseSession addr nat nat
  | GetDeviceIds addr
  | CloseOpenSession addr nat
  | GetStateAddr
  | HasOpenSession addr nat
  | GetKeysForAddr addr "nat option"
  | ProcessPreKey addr device identity_key
  | Encrypt addr nat buffer
  | SendMessages addr "device_message list" nat
  | RemoveSession addr nat
  | CloseOpenSessionForDevice addr nat
  | Emit out_event
  | DateNow

type_synonym trace = "(action \<times> exn option) list"

record 'w state =
  world :: 'w
  trace :: trace

text \<open>
  A program takes the state and returns a value or a raised exception, with the new
  state.
\<close>

type_synonym ('a, 's) prog = "'s \<Rightarrow> (exn + 'a) \<times> 's"

definition ret :: "'a \<Rightarrow> ('a, 's) prog" where
  "ret x = (\<lambda>s. (Inr x, s))"

definition throw :: "exn \<Rightarrow> ('a, 's) prog" where
  "throw e = (\<lambda>s. (Inl e, s))"

definition bnd :: "('a, 's) prog \<Rightarrow> ('a \<Rightarrow> ('b, 's) prog) \<Rightarrow> ('b, 's) prog" where
  "bnd m f = (\<lambda>s. case m s of (Inl e, s') \<Rightarrow> (Inl e, s') | (Inr x, s') \<Rightarrow> f x s')"

definition try_catch :: "('a, 's) prog \<Rightarrow> (exn \<Rightarrow> ('a, 's) prog) \<Rightarrow> ('a, 's) prog" where
  "try_catch m h = (\<lambda>s. case m s of (Inl e, s') \<Rightarrow> h e s' | (Inr x, s') \<Rightarrow> (Inr x, s'))"

definition raised :: "exn + 'a \<Rightarrow> exn option" where
  "raised r = (case r of Inl e \<Rightarrow> Some e | Inr _ \<Rightarrow> None)"

text \<open>
  \<open>call a f\<close> awaits the external call \<open>a\<close>, whose behaviour \<open>f\<close> acts on the world,
  and appends it to the trace.
\<close>

definition call :: "action \<Rightarrow> ('w \<Rightarrow> (exn + 'a) \<times> 'w) \<Rightarrow> ('a, ('w, 'z) state_scheme) prog" where
  "call a f = (\<lambda>s. case f (world s) of
     (r, w) \<Rightarrow> (r, s\<lparr>world := w, trace := trace s @ [(a, raised r)]\<rparr>))"

text \<open>\<open>for (const x of xs) { await body(x); }\<close>\<close>

fun for_each :: "'a list \<Rightarrow> ('a \<Rightarrow> (unit, 's) prog) \<Rightarrow> (unit, 's) prog" where
  "for_each [] body = ret ()"
| "for_each (x # xs) body = bnd (body x) (\<lambda>_. for_each xs body)"

text \<open>
  \<open>await Promise.all(xs.map(job))\<close>. The map starts every job, so every job runs,
  also after one of them has been rejected; here they run one after the other in list
  order, each to its end. The result is the list of the results, or the rejection of
  the first job in the list that was rejected.
\<close>

fun map_all :: "'a list \<Rightarrow> ('a \<Rightarrow> ('b, 's) prog) \<Rightarrow> ('b list, 's) prog" where
  "map_all [] job = ret []"
| "map_all (x # xs) job =
     (\<lambda>s. case job x s of
        (r, s1) \<Rightarrow>
          (case map_all xs job s1 of
             (rs, s2) \<Rightarrow>
               ((case r of
                   Inl e \<Rightarrow> Inl e
                 | Inr y \<Rightarrow> (case rs of Inl e \<Rightarrow> Inl e | Inr ys \<Rightarrow> Inr (y # ys))),
                s2)))"

text \<open>
  \<open>new C(...)\<close> for a constructor that checks its arguments: \<open>r\<close> is the exception it
  throws, if any.
\<close>

definition construct :: "exn option \<Rightarrow> (unit, 's) prog" where
  "construct r = (case r of Some e \<Rightarrow> throw e | None \<Rightarrow> ret ())"

text \<open>
  \<open>await Promise.all(xs.map(x => { ...; return job(x) }))\<close> where the callback of the
  map first runs synchronous code that may throw (\<open>chk x\<close> is what it throws for \<open>x\<close>,
  if anything). The map stops at the first element whose callback throws, and the
  exception leaves the map: \<open>Promise.all\<close> is not reached, so the jobs started for
  the elements before are never awaited; they still run. \<open>started chk xs\<close> is
  the elements whose job has been started, and the exception that stopped the map.
\<close>

fun started :: "('a \<Rightarrow> exn option) \<Rightarrow> 'a list \<Rightarrow> 'a list \<times> exn option" where
  "started chk [] = ([], None)"
| "started chk (x # xs) =
     (case chk x of
        Some e \<Rightarrow> ([], Some e)
      | None \<Rightarrow> (case started chk xs of (ys, r) \<Rightarrow> (x # ys, r)))"

definition map_all_sync :: "'a list \<Rightarrow> ('a \<Rightarrow> exn option) \<Rightarrow> ('a \<Rightarrow> ('b, 's) prog) \<Rightarrow> ('b list, 's) prog" where
  "map_all_sync xs chk job =
     (case started chk xs of
        (ys, None) \<Rightarrow> map_all ys job
      | (ys, Some e) \<Rightarrow> (\<lambda>s. case map_all ys job s of (_, s') \<Rightarrow> (Inl e, s')))"

subsection \<open>The collaborators\<close>

text \<open>
  The storage backend, the libsignal session primitives, the service client, the
  message sender, the codecs and the event listeners are not part of the two modelled
  classes. They are parameters: each call is a function of the world that returns a
  value or raises, and may change the world. Listener callbacks cannot raise into the
  pipelines (both event emitters swallow callback errors).
  \<open>new_ProtocolAddress\<close> and \<open>new_SignalProtocolAddress\<close> are the constructions
  \<open>new libsignal.ProtocolAddress(id, deviceId)\<close> of the receiver and
  \<open>new libsignal.SignalProtocolAddress(id, deviceId)\<close> of the sender, each with the
  \<open>SessionCipher\<close> or \<open>SessionBuilder\<close> built on the address in the next line: the
  exception thrown for the arguments, if any.
\<close>

record 'w env =
  storage_isBlocked :: "addr \<Rightarrow> 'w \<Rightarrow> (exn + bool) \<times> 'w"
  storage_getDeviceIds :: "addr \<Rightarrow> 'w \<Rightarrow> (exn + nat list) \<times> 'w"
  storage_getState_addr :: "'w \<Rightarrow> (exn + addr) \<times> 'w"
  storage_removeSession :: "addr \<Rightarrow> nat \<Rightarrow> 'w \<Rightarrow> (exn + unit) \<times> 'w"
  new_ProtocolAddress :: "addr \<Rightarrow> nat \<Rightarrow> exn option"
  new_SignalProtocolAddress :: "addr \<Rightarrow> nat \<Rightarrow> exn option"
  cipher_decryptWhisperMessage :: "addr \<Rightarrow> nat \<Rightarrow> buffer \<Rightarrow> 'w \<Rightarrow> (exn + buffer) \<times> 'w"
  cipher_decryptPreKeyWhisperMessage :: "addr \<Rightarrow> nat \<Rightarrow> buffer \<Rightarrow> 'w \<Rightarrow> (exn + buffer) \<times> 'w"
  cipher_closeOpenSession :: "addr \<Rightarrow> nat \<Rightarrow> 'w \<Rightarrow> (exn + unit) \<times> 'w"
  cipher_hasOpenSession :: "addr \<Rightarrow> nat \<Rightarrow> 'w \<Rightarrow> (exn + bool) \<times> 'w"
  cipher_encrypt :: "addr \<Rightarrow> nat \<Rightarrow> buffer \<Rightarrow> 'w \<Rightarrow> (exn + encrypted) \<times> 'w"
  cipher_closeOpenSessionForDevice :: "addr \<Rightarrow> nat \<Rightarrow> 'w \<Rightarrow> (exn + unit) \<times> 'w"
  builder_processPreKey :: "addr \<Rightarrow> device \<Rightarrow> identity_key \<Rightarrow> 'w \<Rightarrow> (exn + unit) \<times> 'w"
  signal_generateKeys :: "'w \<Rightarrow> (exn + keys) \<times> 'w"
  signal_registerKeys :: "keys \<Rightarrow> 'w \<Rightarrow> (exn + unit) \<times> 'w"
  server_getKeysForAddr :: "addr \<Rightarrow> nat option \<Rightarrow> 'w \<Rightarrow> (exn + keys_response) \<times> 'w"
  server_sendMessages :: "addr \<Rightarrow> device_message list \<Rightarrow> nat \<Rightarrow> 'w \<Rightarrow> (exn + unit) \<times> 'w"
  sender_closeSession :: "addr \<Rightarrow> nat \<Rightarrow> nat \<Rightarrow> 'w \<Rightarrow> (exn + unit) \<times> 'w"
  decode_Content :: "buffer \<Rightarrow> exn + content_message"
  decode_DataMessage :: "buffer \<Rightarrow> exn + data_message"
  exchange_decode :: "data_message \<Rightarrow> 'w \<Rightarrow> (exn + unit) \<times> 'w"
  base64 :: "buffer \<Rightarrow> string"
  listeners :: "event \<Rightarrow> 'w \<Rightarrow> 'w"
  keychange_listeners :: "exn \<Rightarrow> envelope \<Rightarrow> 'w \<Rightarrow> bool \<times> 'w"
  keychange_accept :: "exn \<Rightarrow> envelope \<Rightarrow> 'w \<Rightarrow> (exn + bool) \<times> 'w"
  out_listeners :: "out_event \<Rightarrow> 'w \<Rightarrow> 'w"
  date_now :: "'w \<Rightarrow> nat \<times> 'w"

section \<open>The incoming pipeline: \<open>MessageReceiver\<close>\<close>

text \<open>The fields of the receiver that the handlers read.\<close>

record receiver =
  rcv_addr :: addr
  rcv_deviceId :: nat

text \<open>
  Modelled from the spec: \<open>eventing.EventTarget.dispatchEvent\<close> is not among the
  source files. By the specification (section 9) it invokes the listeners of the
  event one after the other, each awaited, and captures a listener's error without
  propagating it. The listeners act on the world.
\<close>

definition dispatchEvent :: "'w env \<Rightarrow> event \<Rightarrow> (unit, ('w, 'z) state_scheme) prog" where
  "dispatchEvent env ev = call (DispatchEvent ev) (\<lambda>w. (Inr (), listeners env ev w))"

text \<open>
  Dispatching the \<open>KeyChangeEvent\<close> built from the key error \<open>e\<close>; the result is
  the value of \<open>e.accepted\<close> once the listeners have run.
\<close>

definition dispatchKeyChange :: "'w env \<Rightarrow> exn \<Rightarrow> envelope \<Rightarrow> (bool, ('w, 'z) state_scheme) prog" where
  "dispatchKeyChange env e envelope =
     call (DispatchEvent (KeyChangeEvent e envelope))
       (\<lambda>w. case keychange_listeners env e envelope w of (accepted, w') \<Rightarrow> (Inr accepted, w'))"

text \<open>\<open>await keyChangeEvent.accept()\<close>, followed by reading \<open>e.accepted\<close>.\<close>

definition acceptKeyChange :: "'w env \<Rightarrow> exn \<Rightarrow> envelope \<Rightarrow> (bool, ('w, 'z) state_scheme) prog" where
  "acceptKeyChange env e envelope =
     call (AcceptKeyChange e envelope) (keychange_accept env e envelope)"

definition handleDeliveryReceipt :: "'w env \<Rightarrow> envelope \<Rightarrow> (unit, ('w, 'z) state_scheme) prog" where
  "handleDeliveryReceipt env envelope = dispatchEvent env (ReceiptEvent envelope)"

definition decrypt :: "'w env \<Rightarrow> envelope \<Rightarrow> buffer \<Rightarrow> (buffer, ('w, 'z) state_scheme) prog" where
  "decrypt env envelope ciphertext =
     bnd (construct (new_ProtocolAddress env (source envelope) (sourceDevice envelope)))
       (\<lambda>_. bnd (if etype envelope = CIPHERTEXT then
                   call (DecryptWhisperMessage (source envelope) (sourceDevice envelope) ciphertext)
                     (cipher_decryptWhisperMessage env (source envelope) (sourceDevice envelope)
                        ciphertext)
                 else if etype envelope = PREKEY_BUNDLE then
                   call (DecryptPreKeyWhisperMessage (source envelope) (sourceDevice envelope)
                           ciphertext)
                     (cipher_decryptPreKeyWhisperMessage env (source envelope)
                        (sourceDevice envelope) ciphertext)
                 else throw (JsError (TypeError ''Unknown message type'')))
          (\<lambda>plainBuf. case unpad plainBuf of
               Inl e \<Rightarrow> throw (JsError e)
             | Inr data \<Rightarrow> ret data))"

text \<open>\<open>DATA_FLAGS.END_SESSION\<close> is 1.\<close>

definition END_SESSION :: "32 word" where
  "END_SESSION = 1"

definition handleEndSession :: "'w env \<Rightarrow> addr \<Rightarrow> nat option \<Rightarrow> (unit, ('w, 'z) state_scheme) prog" where
  "handleEndSession env a dev =
     bnd (case dev of
            None \<Rightarrow> call (GetDeviceIds a) (storage_getDeviceIds env a)
          | Some d \<Rightarrow> ret [d])
       (\<lambda>deviceIds.
          bnd (map_all_sync deviceIds (new_ProtocolAddress env a)
                 (\<lambda>d. call (CloseOpenSession a d) (cipher_closeOpenSession env a d)))
            (\<lambda>_. ret ()))"

definition make_exchange :: "'w env \<Rightarrow> data_message \<Rightarrow> envelope \<Rightarrow> nat \<Rightarrow> (exchange, ('w, 'z) state_scheme) prog" where
  "make_exchange env msg envelope ts =
     bnd (call (ExchangeDecode msg) (exchange_decode env msg))
       (\<lambda>_. ret \<lparr>ex_source = source envelope, ex_sourceDevice = sourceDevice envelope,
                  ex_timestamp = ts\<rparr>)"

definition handleSentMessage :: "'w env \<Rightarrow> sent_message \<Rightarrow> envelope \<Rightarrow> (unit, ('w, 'z) state_scheme) prog" where
  "handleSentMessage env snt envelope =
     (if flags (message snt) AND END_SESSION \<noteq> 0 then ret ()
      else bnd (make_exchange env (message snt) envelope (sent_timestamp snt))
        (\<lambda>ex. dispatchEvent env (SentEvent
           \<lparr>sd_source = source envelope, sd_sourceDevice = sourceDevice envelope,
            sd_timestamp = sent_timestamp snt, sd_destination = destination snt,
            sd_message = message snt, sd_exchange = ex,
            sd_expirationStartTimestamp = expirationStartTimestamp snt\<rparr>)))"

definition handleDataMessage :: "'w env \<Rightarrow> data_message \<Rightarrow> envelope \<Rightarrow> (unit, ('w, 'z) state_scheme) prog" where
  "handleDataMessage env msg envelope =
     bnd (if flags msg AND END_SESSION \<noteq> 0 then handleEndSession env (source envelope) None
          else ret ())
       (\<lambda>_. bnd (make_exchange env msg envelope (timestamp envelope))
          (\<lambda>ex. dispatchEvent env (MessageEvent
             \<lparr>md_timestamp = timestamp envelope, md_source = source envelope,
              md_sourceDevice = sourceDevice envelope, md_message = msg,
              md_exchange = ex, md_keyChange = keyChange envelope\<rparr>)))"

definition handleRead :: "'w env \<Rightarrow> read_entry list \<Rightarrow> envelope \<Rightarrow> (unit, ('w, 'z) state_scheme) prog" where
  "handleRead env rd envelope =
     for_each rd (\<lambda>x. dispatchEvent env (ReadEvent
        \<lparr>rd_event_timestamp = timestamp envelope, rd_timestamp = read_timestamp x,
         rd_sender = sender x, rd_source = source envelope,
         rd_sourceDevice = sourceDevice envelope\<rparr>))"

definition handleBlocked :: "(unit, 's) prog" where
  "handleBlocked = throw (JsError (Error ''UNSUPPORTRED''))"

definition handleSyncMessage :: "'w env \<Rightarrow> receiver \<Rightarrow> sync_message \<Rightarrow> envelope \<Rightarrow> (unit, ('w, 'z) state_scheme) prog" where
  "handleSyncMessage env rcv msg envelope =
     (if source envelope \<noteq> rcv_addr rcv then
        throw (JsError (ReferenceError ''Received sync message from another addr''))
      else if sourceDevice envelope = rcv_deviceId rcv then
        throw (JsError (ReferenceError ''Received sync message from our own device''))
      else case sync_sent msg of
        Some snt \<Rightarrow> handleSentMessage env snt envelope
      | None \<Rightarrow>
          if sync_read msg \<noteq> [] then handleRead env (sync_read msg) envelope
          else if contacts msg then throw (JsError (TypeError ''Deprecated contact sync message''))
          else if groups msg then throw (JsError (TypeError ''Deprecated group sync message''))
          else if blocked msg then handleBlocked
          else if request msg then
            throw (JsError (TypeError ''Deprecated group request sync message''))
          else ret ())"

text \<open>
  The two decrypting handlers read the ciphertext from the envelope
  (\<open>envelope.legacyMessage\<close>, \<open>envelope.content\<close>); \<open>handleEnvelope\<close> selects them
  only when that field is present, and passes it on here.
\<close>

definition handleLegacyMessage :: "'w env \<Rightarrow> envelope \<Rightarrow> buffer \<Rightarrow> (unit, ('w, 'z) state_scheme) prog" where
  "handleLegacyMessage env envelope ciphertext =
     bnd (decrypt env envelope ciphertext)
       (\<lambda>data. case decode_DataMessage env data of
            Inl e \<Rightarrow> throw e
          | Inr msg \<Rightarrow> handleDataMessage env msg envelope)"

definition handleContentMessage :: "'w env \<Rightarrow> receiver \<Rightarrow> envelope \<Rightarrow> buffer \<Rightarrow> (unit, ('w, 'z) state_scheme) prog" where
  "handleContentMessage env rcv envelope ciphertext =
     bnd (decrypt env envelope ciphertext)
       (\<lambda>data. case decode_Content env data of
            Inl e \<Rightarrow> throw e
          | Inr c \<Rightarrow>
             (case syncMessage c of
                Some sm \<Rightarrow> handleSyncMessage env rcv sm envelope
              | None \<Rightarrow>
                 (case dataMessage c of
                    Some dm \<Rightarrow> handleDataMessage env dm envelope
                  | None \<Rightarrow> throw (JsError (TypeError
                      ''Got content message with no dataMessage or syncMessage'')))))"

text \<open>The handler that \<open>handleEnvelope\<close> selects, in the order of its tests.\<close>

datatype handler = DeliveryReceipt | ContentMessage buffer | LegacyMessage buffer

definition select_handler :: "envelope \<Rightarrow> handler option" where
  "select_handler envelope =
     (if etype envelope = RECEIPT then Some DeliveryReceipt
      else case content envelope of
        Some c \<Rightarrow> Some (ContentMessage c)
      | None \<Rightarrow>
         (case legacyMessage envelope of
            Some l \<Rightarrow> Some (LegacyMessage l)
          | None \<Rightarrow> None))"

fun run_handler :: "handler \<Rightarrow> 'w env \<Rightarrow> receiver \<Rightarrow> envelope \<Rightarrow> (unit, ('w, 'z) state_scheme) prog" where
  "run_handler DeliveryReceipt env rcv envelope = handleDeliveryReceipt env envelope"
| "run_handler (ContentMessage c) env rcv envelope = handleContentMessage env rcv envelope c"
| "run_handler (LegacyMessage l) env rcv envelope = handleLegacyMessage env envelope l"

text \<open>
  The session-fault recovery of the \<open>SessionError\<close> branch of \<open>handleEnvelope\<close>:
  new prekeys first when the error is a \<open>PreKeyError\<close>, then
  \<open>this._sender.closeSession(fqAddr, {retransmit: envelope.timestamp})\<close>.
\<close>

definition session_recovery :: "'w env \<Rightarrow> exn \<Rightarrow> envelope \<Rightarrow> (unit, ('w, 'z) state_scheme) prog" where
  "session_recovery env e envelope =
     bnd (if is_PreKeyError e then
            bnd (call GenerateKeys (signal_generateKeys env))
              (\<lambda>ks. call (RegisterKeys ks) (signal_registerKeys env ks))
          else ret ())
       (\<lambda>_. call (CloseSession (source envelope) (sourceDevice envelope) (timestamp envelope))
               (sender_closeSession env (source envelope) (sourceDevice envelope)
                  (timestamp envelope)))"

text \<open>
  \<open>MessageReceiver.handleEnvelope(envelope, reentrant, forceAcceptKeyChange)\<close>. The
  only recursive call passes \<open>reentrant = true\<close> and no third argument, and is made
  only when \<open>reentrant\<close> is false.
\<close>

function handleEnvelope :: "'w env \<Rightarrow> receiver \<Rightarrow> envelope \<Rightarrow> bool \<Rightarrow> bool \<Rightarrow> (unit, ('w, 'z) state_scheme) prog" where
  "handleEnvelope env rcv envelope reentrant forceAcceptKeyChange =
     bnd (call (IsBlocked (source envelope)) (storage_isBlocked env (source envelope)))
       (\<lambda>is_blocked.
          if is_blocked then ret ()
          else case select_handler envelope of
            None \<Rightarrow> throw (JsError (Error
              ''Received message with no content and no legacyMessage''))
          | Some h \<Rightarrow>
              try_catch (run_handler h env rcv envelope)
                (\<lambda>e. if is_MessageCounterError e then ret ()
                     else if is_UntrustedIdentityKeyError e \<and> \<not> reentrant then
                       bnd (if forceAcceptKeyChange then acceptKeyChange env e envelope
                            else dispatchKeyChange env e envelope)
                         (\<lambda>accepted.
                            if accepted then
                              handleEnvelope env rcv (envelope\<lparr>keyChange := Some True\<rparr>) True False
                            else ret ())
                     else
                       bnd (if is_SessionError e then session_recovery env e envelope
                            else ret ())
                         (\<lambda>_. dispatchEvent env (ErrorEvent e envelope))))"
  by pat_completeness auto
termination
  by (relation "measure (\<lambda>(env, rcv, envelope, reentrant, force). if reentrant then 0 else 1)") auto

declare handleEnvelope.simps [simp del]

section \<open>The outgoing pipeline: \<open>OutgoingMessage\<close>\<close>

text \<open>
  The fields of an \<open>OutgoingMessage\<close> that never change after construction, and the
  state of a send: the world and the trace, with the two journals \<open>this.sent\<close> and
  \<open>this.errors\<close>.
\<close>

record outgoing =
  om_timestamp :: nat
  messageBuffer :: buffer

record 'w out_state = "'w state" +
  sent :: "sent_entry list"
  errors :: "error_entry list"

text \<open>
  A call of an \<open>async\<close> function whose promise is not awaited (\<open>this.emitError(...)\<close>,
  \<open>this.emitSent(addr)\<close> in \<open>doSendMessage\<close> and \<open>sendToAddr\<close>): it is run here to
  its end at the place of the call, and a rejection does not reach the caller.
\<close>

definition unawaited :: "('a, 's) prog \<Rightarrow> (unit, 's) prog" where
  "unawaited m = (\<lambda>s. case m s of (_, s') \<Rightarrow> (Inr (), s'))"

definition dateNow :: "'w env \<Rightarrow> (nat, ('w, 'z) state_scheme) prog" where
  "dateNow env = call DateNow (\<lambda>w. case date_now env w of (t, w') \<Rightarrow> (Inr t, w'))"

text \<open>
  \<open>OutgoingMessage.emit(event, ...)\<close>: the callbacks run in turn and an error of a
  callback is caught and logged.
\<close>

definition emit :: "'w env \<Rightarrow> out_event \<Rightarrow> (unit, ('w, 'z) state_scheme) prog" where
  "emit env ev = call (Emit ev) (\<lambda>w. (Inr (), out_listeners env ev w))"

text \<open>
  \<open>emitError(addr, reason, error)\<close>; \<open>error\<close> is \<open>None\<close> when it is falsy.
\<close>

definition emitError :: "'w env \<Rightarrow> outgoing \<Rightarrow> addr \<Rightarrow> string \<Rightarrow> exn option \<Rightarrow> (unit, ('w, 'z) out_state_scheme) prog" where
  "emitError env om a reason err =
     (let e = (case err of
                 None \<Rightarrow> OutgoingMessageError a (messageBuffer om) (om_timestamp om) None
               | Some x \<Rightarrow>
                   if is_ProtocolError x \<and> code x \<noteq> 404
                   then OutgoingMessageError a (messageBuffer om) (om_timestamp om) (Some x)
                   else x)
      in bnd (dateNow env)
           (\<lambda>t. let entry = \<lparr>error_timestamp = t, error = e, error_addr = a,
                               error_reason = reason\<rparr>
                in (\<lambda>s. emit env (ErrorEmitted entry) (s\<lparr>errors := errors s @ [entry]\<rparr>))))"

definition emitSent :: "'w env \<Rightarrow> addr \<Rightarrow> (unit, ('w, 'z) out_state_scheme) prog" where
  "emitSent env a =
     bnd (dateNow env)
       (\<lambda>t. let entry = \<lparr>sent_timestamp_of = t, sent_addr = a\<rparr>
            in (\<lambda>s. emit env (SentEmitted entry) (s\<lparr>sent := sent s @ [entry]\<rparr>)))"

text \<open>
  \<open>removeDeviceIdsForAddr(addr, deviceIdsToRemove)\<close>; iterating over \<open>undefined\<close>
  raises a \<open>TypeError\<close>.
\<close>

definition removeDeviceIdsForAddr :: "'w env \<Rightarrow> addr \<Rightarrow> nat list option \<Rightarrow> (unit, ('w, 'z) state_scheme) prog" where
  "removeDeviceIdsForAddr env a deviceIdsToRemove =
     (case deviceIdsToRemove of
        None \<Rightarrow> throw (JsError (TypeError ''deviceIdsToRemove is not iterable''))
      | Some ids \<Rightarrow>
          for_each ids (\<lambda>i. call (RemoveSession a i) (storage_removeSession env a i)))"

text \<open>
  The loop of \<open>getStaleDeviceIdsForAddr\<close> that collects the device ids without an open
  session.
\<close>

fun collect_stale :: "'w env \<Rightarrow> addr \<Rightarrow> nat list \<Rightarrow> (nat list, ('w, 'z) state_scheme) prog" where
  "collect_stale env a [] = ret []"
| "collect_stale env a (i # ids) =
     bnd (construct (new_SignalProtocolAddress env a i))
       (\<lambda>_. bnd (call (HasOpenSession a i) (cipher_hasOpenSession env a i))
          (\<lambda>has_open. bnd (collect_stale env a ids)
             (\<lambda>updateDevices. ret (if \<not> has_open then i # updateDevices else updateDevices))))"

definition getStaleDeviceIdsForAddr :: "'w env \<Rightarrow> addr \<Rightarrow> (nat list, ('w, 'z) state_scheme) prog" where
  "getStaleDeviceIdsForAddr env a =
     bnd (call (GetDeviceIds a) (storage_getDeviceIds env a))
       (\<lambda>deviceIds.
          bnd (if deviceIds = [] then
                 bnd (call GetStateAddr (storage_getState_addr env))
                   (\<lambda>ourAddr. if a \<noteq> ourAddr then ret (deviceIds @ [1]) else ret deviceIds)
               else ret deviceIds)
            (\<lambda>deviceIds. collect_stale env a deviceIds))"

text \<open>
  \<open>getKeysForAddr(addr, updateDevices, reentrant)\<close>, with its inner function
  \<open>handleResult\<close>. \<open>updateDevices\<close> is \<open>None\<close> when it is \<open>undefined\<close>. The only
  recursive call passes \<open>reentrant = true\<close> and is made only when \<open>reentrant\<close> is
  false.
\<close>

function getKeysForAddr :: "'w env \<Rightarrow> outgoing \<Rightarrow> addr \<Rightarrow> nat list option \<Rightarrow> bool \<Rightarrow> (unit, ('w, 'z) state_scheme) prog" where
  "getKeysForAddr env om a updateDevices reentrant =
     (let handleResult = (\<lambda>resp.
            bnd (map_all (devices resp)
                   (\<lambda>dev.
                      if (case updateDevices of None \<Rightarrow> True
                          | Some ds \<Rightarrow> deviceId dev \<in> set ds)
                      then
                        bnd (construct (new_SignalProtocolAddress env a (deviceId dev)))
                          (\<lambda>_. try_catch
                             (call (ProcessPreKey a dev (identityKey resp))
                                (builder_processPreKey env a dev (identityKey resp)))
                             (\<lambda>e. if message_of e = ''Identity key changed'' then
                                    if \<not> reentrant then
                                      bnd (emit env (KeyChangeEmitted a (identityKey resp)))
                                        (\<lambda>_. getKeysForAddr env om a updateDevices True)
                                    else throw (OutgoingIdentityKeyError a (messageBuffer om)
                                                  (om_timestamp om) (identityKey resp))
                                  else throw e))
                      else ret ()))
              (\<lambda>_. ret ()))
      in case updateDevices of
           None \<Rightarrow>
             bnd (call (GetKeysForAddr a None) (server_getKeysForAddr env a None)) handleResult
         | Some ds \<Rightarrow>
             for_each ds
               (\<lambda>dev. try_catch
                         (bnd (call (GetKeysForAddr a (Some dev))
                                 (server_getKeysForAddr env a (Some dev)))
                            handleResult)
                         (\<lambda>e. if is_ProtocolError e \<and> code e = 404 \<and> dev \<noteq> 1 then
                                removeDeviceIdsForAddr env a (Some [dev])
                              else throw e)))"
  by pat_completeness auto
termination
  by (relation "measure (\<lambda>(env, om, a, updateDevices, reentrant). if reentrant then 0 else 1)") auto

declare getKeysForAddr.simps [simp del]

text \<open>
  The two parts of \<open>getKeysForAddr\<close> by name: \<open>handleResult(response)\<close>, and the body
  of the loop over \<open>updateDevices\<close> for one device.
\<close>

definition handleResult :: "'w env \<Rightarrow> outgoing \<Rightarrow> addr \<Rightarrow> nat list option \<Rightarrow> bool \<Rightarrow> keys_response \<Rightarrow> (unit, ('w, 'z) state_scheme) prog" where
  "handleResult env om a updateDevices reentrant resp =
     bnd (map_all (devices resp)
            (\<lambda>dev.
               if (case updateDevices of None \<Rightarrow> True
                   | Some ds \<Rightarrow> deviceId dev \<in> set ds)
               then
                 bnd (construct (new_SignalProtocolAddress env a (deviceId dev)))
                   (\<lambda>_. try_catch
                      (call (ProcessPreKey a dev (identityKey resp))
                         (builder_processPreKey env a dev (identityKey resp)))
                      (\<lambda>e. if message_of e = ''Identity key changed'' then
                             if \<not> reentrant then
                               bnd (emit env (KeyChangeEmitted a (identityKey resp)))
                                 (\<lambda>_. getKeysForAddr env om a updateDevices True)
                             else throw (OutgoingIdentityKeyError a (messageBuffer om)
                                           (om_timestamp om) (identityKey resp))
                           else throw e))
               else ret ()))
       (\<lambda>_. ret ())"

definition fetch_device :: "'w env \<Rightarrow> outgoing \<Rightarrow> addr \<Rightarrow> nat list option \<Rightarrow> bool \<Rightarrow> nat \<Rightarrow> (unit, ('w, 'z) state_scheme) prog" where
  "fetch_device env om a updateDevices reentrant dev =
     try_catch
       (bnd (call (GetKeysForAddr a (Some dev)) (server_getKeysForAddr env a (Some dev)))
          (handleResult env om a updateDevices reentrant))
       (\<lambda>e. if is_ProtocolError e \<and> code e = 404 \<and> dev \<noteq> 1 then
              removeDeviceIdsForAddr env a (Some [dev])
            else throw e)"

definition transmitMessage :: "'w env \<Rightarrow> addr \<Rightarrow> device_message list \<Rightarrow> nat \<Rightarrow> (unit, ('w, 'z) state_scheme) prog" where
  "transmitMessage env a jsonData ts =
     try_catch (call (SendMessages a jsonData ts) (server_sendMessages env a jsonData ts))
       (\<lambda>e. if is_ProtocolError e \<and> (code e \<noteq> 409 \<and> code e \<noteq> 410) then
              if code e = 404 then throw (UnregisteredUserError a e)
              else throw (SendMessageError a jsonData e ts)
            else throw e)"

definition toJSON :: "'w env \<Rightarrow> nat \<Rightarrow> encrypted \<Rightarrow> device_message" where
  "toJSON env i encryptedMsg =
     \<lparr>msg_type = enc_type encryptedMsg, destinationDeviceId = i,
      destinationRegistrationId = enc_registrationId encryptedMsg,
      msg_content = base64 env (enc_body encryptedMsg)\<rparr>"

definition encryptToDevice :: "'w env \<Rightarrow> addr \<Rightarrow> nat \<Rightarrow> buffer \<Rightarrow> (device_message, ('w, 'z) state_scheme) prog" where
  "encryptToDevice env a i mBuf =
     bnd (call (Encrypt a i mBuf) (cipher_encrypt env a i mBuf))
       (\<lambda>encrypted. ret (toJSON env i encrypted))"

text \<open>
  The encryption step of \<open>doSendMessage\<close>:
  \<open>await Promise.all(deviceIds.map(id => {...; return this.encryptToDevice(...)}))\<close>,
  whose callback builds the address and the session cipher of the device first.
\<close>

definition encryptAll :: "'w env \<Rightarrow> addr \<Rightarrow> nat list \<Rightarrow> buffer \<Rightarrow> (device_message list, ('w, 'z) state_scheme) prog" where
  "encryptAll env a deviceIds paddedBuf =
     map_all_sync deviceIds (new_SignalProtocolAddress env a)
       (\<lambda>i. encryptToDevice env a i paddedBuf)"

text \<open>
  The 410 branch of \<open>doSendMessage\<close>:
  \<open>await Promise.all(e.response.staleDevices.map(x => ciphers[x].closeOpenSessionForDevice()))\<close>,
  where \<open>ciphers\<close> holds one session cipher for each of \<open>deviceIds\<close>. A missing list
  raises a \<open>TypeError\<close>, and so does, inside the map, a stale device with no cipher.
\<close>

definition closeStaleSessions :: "'w env \<Rightarrow> addr \<Rightarrow> nat list \<Rightarrow> nat list option \<Rightarrow> (unit, ('w, 'z) state_scheme) prog" where
  "closeStaleSessions env a deviceIds stale =
     (case stale of
        None \<Rightarrow> throw (JsError (TypeError ''Cannot read property map of undefined''))
      | Some sd \<Rightarrow>
          bnd (map_all_sync sd
                 (\<lambda>x. if x \<in> set deviceIds then None
                      else Some (JsError (TypeError
                        ''Cannot read property closeOpenSessionForDevice of undefined'')))
                 (\<lambda>x. call (CloseOpenSessionForDevice a x)
                         (cipher_closeOpenSessionForDevice env a x)))
            (\<lambda>_. ret ()))"

text \<open>
  The drift reconciliation of \<open>doSendMessage\<close> between the failed transmit and the
  reload: the cleanup for the code of \<open>e\<close>, then the key fetch for \<open>resetDevices\<close>.
\<close>

definition reconcile :: "'w env \<Rightarrow> outgoing \<Rightarrow> addr \<Rightarrow> nat list \<Rightarrow> exn \<Rightarrow> (unit, ('w, 'z) state_scheme) prog" where
  "reconcile env om a deviceIds e =
     bnd (if code e = 409 then removeDeviceIdsForAddr env a (extraDevices (response_of e))
          else closeStaleSessions env a deviceIds (staleDevices (response_of e)))
       (\<lambda>_. let resetDevices = (if code e = 410 then staleDevices (response_of e)
                                else missingDevices (response_of e))
            in getKeysForAddr env om a resetDevices False)"

text \<open>
  The first part of \<open>reloadDevicesAndSend\<close>, up to the call of \<open>doSendMessage\<close>: the
  device ids to send to, or \<open>None\<close> when it returns after the warning
  \<open>Unregistered address\<close>.
\<close>

definition reloadDevices :: "'w env \<Rightarrow> addr \<Rightarrow> (nat list option, ('w, 'z) out_state_scheme) prog" where
  "reloadDevices env a =
     bnd (call (GetDeviceIds a) (storage_getDeviceIds env a))
       (\<lambda>deviceIds.
          if deviceIds = [] then
            bnd (call GetStateAddr (storage_getState_addr env))
              (\<lambda>ourAddr. if a = ourAddr then bnd (emitSent env a) (\<lambda>_. ret (Some deviceIds))
                          else ret None)
          else ret (Some deviceIds))"

text \<open>
  \<open>doSendMessage(addr, deviceIds, recurse)\<close> and \<open>reloadDevicesAndSend(addr, recurse)\<close>
  call each other for as long as the server answers 409. The first argument bounds
  the depth of these calls; the result is \<open>None\<close> when the bound is reached.
\<close>

fun doSendMessage :: "nat \<Rightarrow> 'w env \<Rightarrow> outgoing \<Rightarrow> addr \<Rightarrow> nat list \<Rightarrow> bool \<Rightarrow> ('w, 'z) out_state_scheme \<Rightarrow> ((exn + unit) \<times> ('w, 'z) out_state_scheme) option"
  and reloadDevicesAndSend :: "nat \<Rightarrow> 'w env \<Rightarrow> outgoing \<Rightarrow> addr \<Rightarrow> bool \<Rightarrow> ('w, 'z) out_state_scheme \<Rightarrow> ((exn + unit) \<times> ('w, 'z) out_state_scheme) option" where
  "doSendMessage 0 env om a deviceIds recurse s = None"
| "doSendMessage (Suc n) env om a deviceIds recurse s =
     (case padMessage (messageBuffer om) of
        Inl e \<Rightarrow> Some (Inl (JsError e), s)
      | Inr paddedBuf \<Rightarrow>
         (case encryptAll env a deviceIds paddedBuf s of
            (Inl e, s1) \<Rightarrow>
              Some (unawaited (emitError env om a ''Failed to create message'' (Some e)) s1)
          | (Inr messages, s1) \<Rightarrow>
             (case transmitMessage env a messages (om_timestamp om) s1 of
                (Inr _, s2) \<Rightarrow> Some (unawaited (emitSent env a) s2)
              | (Inl e, s2) \<Rightarrow>
                  if is_ProtocolError e \<and> (code e = 410 \<or> code e = 409) then
                    if \<not> recurse then
                      Some (unawaited (emitError env om a
                        ''Hit retry limit attempting to reload device list'' (Some e)) s2)
                    else
                      (case reconcile env om a deviceIds e s2 of
                         (Inl e', s3) \<Rightarrow> Some (Inl e', s3)
                       | (Inr _, s3) \<Rightarrow>
                          (case reloadDevicesAndSend n env om a (code e = 409) s3 of
                             None \<Rightarrow> None
                           | Some (Inl e', s4) \<Rightarrow>
                               Some (unawaited (emitError env om a
                                 ''Failed to reload device keys'' (Some e')) s4)
                           | Some (Inr _, s4) \<Rightarrow> Some (unawaited (emitSent env a) s4)))
                  else
                    Some (unawaited (emitError env om a ''Failed to send message'' (Some e)) s2))))"
| "reloadDevicesAndSend n env om a recurse s =
     (case reloadDevices env a s of
        (Inl e, s1) \<Rightarrow> Some (Inl e, s1)
      | (Inr None, s1) \<Rightarrow> Some (Inr (), s1)
      | (Inr (Some deviceIds), s1) \<Rightarrow> doSendMessage n env om a deviceIds recurse s1)"

text \<open>\<open>sendToAddr(addr)\<close>; \<open>updateDevices\<close> stays \<open>undefined\<close> when the first step fails.\<close>

definition sendToAddr :: "nat \<Rightarrow> 'w env \<Rightarrow> outgoing \<Rightarrow> addr \<Rightarrow> ('w, 'z) out_state_scheme \<Rightarrow> ((exn + unit) \<times> ('w, 'z) out_state_scheme) option" where
  "sendToAddr n env om a s =
     (case try_catch (bnd (getStaleDeviceIdsForAddr env a) (\<lambda>ids. ret (Some ids)))
             (\<lambda>e. bnd (unawaited (emitError env om a
                          (''Failed to get device ids for address '' @ a) (Some e)))
                     (\<lambda>_. ret None)) s of
        (Inl e, s1) \<Rightarrow> Some (Inl e, s1)
      | (Inr updateDevices, s1) \<Rightarrow>
         (case try_catch (getKeysForAddr env om a updateDevices False)
                 (\<lambda>e. unawaited (emitError env om a
                         (''Failed to retrieve new device keys for address '' @ a) (Some e))) s1 of
            (Inl e, s2) \<Rightarrow> Some (Inl e, s2)
          | (Inr _, s2) \<Rightarrow>
             (case reloadDevicesAndSend n env om a True s2 of
                None \<Rightarrow> None
              | Some (Inl e, s3) \<Rightarrow>
                  Some (unawaited (emitError env om a
                    (''Failed to send to address '' @ a) (Some e)) s3)
              | Some (Inr _, s3) \<Rightarrow> Some (Inr (), s3))))"

section \<open>Observations on traces\<close>

text \<open>
  \<open>acts P m\<close>: whatever the state, the program \<open>m\<close> only appends to the trace,
  and every action it appends satisfies \<open>P\<close>.
\<close>

definition acts :: "(action \<Rightarrow> bool) \<Rightarrow> ('a, ('w, 'z) state_scheme) prog \<Rightarrow> bool" where
  "acts P m = (\<forall>s. \<exists>t. trace (snd (m s)) = trace s @ t \<and> list_all (\<lambda>x. P (fst x)) t)"

text \<open>
  The actions of a handler run on an envelope whose \<open>keyChange\<close> is \<open>kc\<close>: no
  call of \<open>storage.isBlocked\<close>, no key change accepted or dispatched, and every
  \<open>message\<close> event carries \<open>keyChange = kc\<close>.
\<close>

fun handler_action :: "bool option \<Rightarrow> action \<Rightarrow> bool" where
  "handler_action kc (IsBlocked _) = False"
| "handler_action kc (AcceptKeyChange _ _) = False"
| "handler_action kc (DispatchEvent (KeyChangeEvent _ _)) = False"
| "handler_action kc (DispatchEvent (MessageEvent md)) = (md_keyChange md = kc)"
| "handler_action kc _ = True"

fun is_keychange_dispatch :: "action \<Rightarrow> bool" where
  "is_keychange_dispatch (DispatchEvent (KeyChangeEvent _ _)) = True"
| "is_keychange_dispatch _ = False"

fun is_IsBlocked :: "action \<Rightarrow> bool" where
  "is_IsBlocked (IsBlocked _) = True"
| "is_IsBlocked _ = False"

text \<open>
  The number of \<open>keychange\<close> events dispatched in a trace, and the number of
  \<open>handleEnvelope\<close> invocations: each invocation starts with one call of
  \<open>storage.isBlocked\<close>, and nothing else calls it.
\<close>

definition keychange_dispatches :: "trace \<Rightarrow> nat" where
  "keychange_dispatches t = length (filter (\<lambda>x. is_keychange_dispatch (fst x)) t)"

definition envelope_handlings :: "trace \<Rightarrow> nat" where
  "envelope_handlings t = length (filter (\<lambda>x. is_IsBlocked (fst x)) t)"

text \<open>
  The number of transmit attempts (calls of \<open>server.sendMessages\<close>) in a trace, and
  the number of those that the server answered with a 409.
\<close>

fun is_SendMessages :: "action \<Rightarrow> bool" where
  "is_SendMessages (SendMessages _ _ _) = True"
| "is_SendMessages _ = False"

definition transmits :: "trace \<Rightarrow> nat" where
  "transmits t = length (filter (\<lambda>x. is_SendMessages (fst x)) t)"

fun is_drift409 :: "action \<times> exn option \<Rightarrow> bool" where
  "is_drift409 (SendMessages _ _ _, Some (ProtocolError c _)) = (c = 409)"
| "is_drift409 _ = False"

definition drift409 :: "trace \<Rightarrow> nat" where
  "drift409 t = length (filter is_drift409 t)"

text \<open>
  \<open>journal_grows a k s s'\<close>: from \<open>s\<close> to \<open>s'\<close> the two journals have only been
  appended to, every appended entry mentions the address \<open>a\<close>, and at least \<open>k\<close>
  entries have been appended. \<open>journals a m\<close>: the program \<open>m\<close> only does that.
  \<open>keeps_journal m\<close>: the program \<open>m\<close> leaves both journals as they are.
\<close>

definition journal_grows :: "addr \<Rightarrow> nat \<Rightarrow> ('w, 'z) out_state_scheme \<Rightarrow> ('w, 'z) out_state_scheme \<Rightarrow> bool" where
  "journal_grows a k s s' =
     (\<exists>xs ys. sent s' = sent s @ xs \<and> errors s' = errors s @ ys
        \<and> list_all (\<lambda>x. sent_addr x = a) xs \<and> list_all (\<lambda>y. error_addr y = a) ys
        \<and> k \<le> length xs + length ys)"

definition journals :: "addr \<Rightarrow> ('a, ('w, 'z) out_state_scheme) prog \<Rightarrow> bool" where
  "journals a m = (\<forall>s. journal_grows a 0 s (snd (m s)))"

definition keeps_journal :: "('a, ('w, 'z) out_state_scheme) prog \<Rightarrow> bool" where
  "keeps_journal m = (\<forall>s. sent (snd (m s)) = sent s \<and> errors (snd (m s)) = errors s)"

section \<open>Concrete collaborators\<close>

text \<open>
  Collaborators for running the pipelines on concrete inputs. The world is a counter.
  In \<open>quiet_env\<close> nothing is blocked, nothing is stored, every call succeeds,
  decryption returns the ciphertext, and listeners accept key changes.
\<close>

definition quiet_env :: "nat env" where
  "quiet_env =
     \<lparr>storage_isBlocked = (\<lambda>a w. (Inr False, w)),
      storage_getDeviceIds = (\<lambda>a w. (Inr [], w)),
      storage_getState_addr = (\<lambda>w. (Inr ''me'', w)),
      storage_removeSession = (\<lambda>a d w. (Inr (), w)),
      new_ProtocolAddress = (\<lambda>a d. None),
      new_SignalProtocolAddress = (\<lambda>a d. None),
      cipher_decryptWhisperMessage = (\<lambda>a d c w. (Inr c, w)),
      cipher_decryptPreKeyWhisperMessage = (\<lambda>a d c w. (Inr c, w)),
      cipher_closeOpenSession = (\<lambda>a d w. (Inr (), w)),
      cipher_hasOpenSession = (\<lambda>a d w. (Inr True, w)),
      cipher_encrypt = (\<lambda>a d b w. (Inr \<lparr>enc_type = 1, enc_registrationId = 0, enc_body = b\<rparr>, w)),
      cipher_closeOpenSessionForDevice = (\<lambda>a d w. (Inr (), w)),
      builder_processPreKey = (\<lambda>a d k w. (Inr (), w)),
      signal_generateKeys = (\<lambda>w. (Inr [], w)),
      signal_registerKeys = (\<lambda>ks w. (Inr (), w)),
      server_getKeysForAddr = (\<lambda>a d w. (Inr \<lparr>identityKey = [], devices = []\<rparr>, w)),
      server_sendMessages = (\<lambda>a ms ts w. (Inr (), w)),
      sender_closeSession = (\<lambda>a d ts w. (Inr (), w)),
      decode_Content = (\<lambda>b. Inr \<lparr>syncMessage = None,
                                   dataMessage = Some \<lparr>flags = 0, dm_body = b\<rparr>\<rparr>),
      decode_DataMessage = (\<lambda>b. Inr \<lparr>flags = 0, dm_body = b\<rparr>),
      exchange_decode = (\<lambda>m w. (Inr (), w)),
      base64 = (\<lambda>b. []),
      listeners = (\<lambda>ev w. w),
      keychange_listeners = (\<lambda>e envelope w. (True, w)),
      keychange_accept = (\<lambda>e envelope w. (Inr True, w)),
      out_listeners = (\<lambda>ev w. w),
      date_now = (\<lambda>w. (0, w))\<rparr>"

text \<open>The first decryption meets an untrusted identity key; later ones succeed.\<close>

definition flaky_key_env :: "nat env" where
  "flaky_key_env = quiet_env
     \<lparr>cipher_decryptWhisperMessage :=
        (\<lambda>a d c w. (if w = 0 then Inl (UntrustedIdentityKeyError a []) else Inr c, Suc w))\<rparr>"

definition alice_envelope :: envelope where
  "alice_envelope =
     \<lparr>etype = CIPHERTEXT, source = ''alice'', sourceDevice = 1, timestamp = 42,
      content = Some [0x68, 0x69, 0x80], legacyMessage = None, keyChange = None\<rparr>"

definition our_receiver :: receiver where
  "our_receiver = \<lparr>rcv_addr = ''me'', rcv_deviceId = 1\<rparr>"

definition start :: "nat state" where
  "start = \<lparr>world = 0, trace = []\<rparr>"

text \<open>Every decryption fails for want of a prekey.\<close>

definition prekey_env :: "nat env" where
  "prekey_env = quiet_env
     \<lparr>cipher_decryptWhisperMessage := (\<lambda>a d c w. (Inl (PreKeyError ''Invalid PreKey ID''), Suc w)),
      signal_generateKeys := (\<lambda>w. (Inr [7], w))\<rparr>"

text \<open>Every decryption meets a message counter that was used before.\<close>

definition duplicate_env :: "nat env" where
  "duplicate_env = quiet_env
     \<lparr>cipher_decryptWhisperMessage :=
        (\<lambda>a d c w. (Inl (MessageCounterError ''Key used already or never filled''), Suc w))\<rparr>"

text \<open>
  Every decryption fails for want of a session, and the sender cannot close the
  session either.
\<close>

definition reset_failing_env :: "nat env" where
  "reset_failing_env = quiet_env
     \<lparr>cipher_decryptWhisperMessage := (\<lambda>a d c w. (Inl (SessionError ''No session''), Suc w)),
      sender_closeSession := (\<lambda>a d ts w. (Inl (JsError (Error ''Unknown address'')), Suc w))\<rparr>"

text \<open>A two-byte message and a send that has journaled nothing yet.\<close>

definition hi_message :: outgoing where
  "hi_message = \<lparr>om_timestamp = 1000, messageBuffer = [0x68, 0x69]\<rparr>"

definition start_out :: "nat out_state" where
  "start_out = \<lparr>world = 0, trace = [], sent = [], errors = []\<rparr>"

text \<open>
  No session is open, and the prekey fetch returns no device (the store stays empty).
\<close>

definition unknown_env :: "nat env" where
  "unknown_env = quiet_env\<lparr>cipher_hasOpenSession := (\<lambda>a d w. (Inr False, w))\<rparr>"

text \<open>
  One stored device; the server answers the first two transmits with 409 (nothing
  extra, nothing missing) and accepts the third.
\<close>

definition no_drift :: response where
  "no_drift = \<lparr>extraDevices = Some [], missingDevices = Some [], staleDevices = None\<rparr>"

definition flapping_env :: "nat env" where
  "flapping_env = quiet_env
     \<lparr>storage_getDeviceIds := (\<lambda>a w. (Inr [1], w)),
      server_sendMessages :=
        (\<lambda>a ms ts w. (if w < 2 then Inl (ProtocolError 409 no_drift) else Inr (), Suc w))\<rparr>"

text \<open>Two stored devices; the server answers every transmit with 410 for device 2.\<close>

definition stale_two :: response where
  "stale_two = \<lparr>extraDevices = None, missingDevices = None, staleDevices = Some [2]\<rparr>"

definition stale_env :: "nat env" where
  "stale_env = quiet_env
     \<lparr>storage_getDeviceIds := (\<lambda>a w. (Inr [1, 2], w)),
      server_sendMessages := (\<lambda>a ms ts w. (Inl (ProtocolError 410 stale_two), Suc w))\<rparr>"

text \<open>
  Two stored devices; the prekey fetch for device 2 is answered with 404, the one for
  device 1 too.
\<close>

definition gone_env :: "nat env" where
  "gone_env = quiet_env
     \<lparr>server_getKeysForAddr := (\<lambda>a d w. (Inl (ProtocolError 404 no_drift), Suc w))\<rparr>"

section \<open>Observations on sends\<close>

text \<open>The external calls of a key fetch for the address \<open>a\<close>.\<close>

fun fetch_action :: "addr \<Rightarrow> action \<Rightarrow> bool" where
  "fetch_action a (GetKeysForAddr b _) = (b = a)"
| "fetch_action a (ProcessPreKey b _ _) = (b = a)"
| "fetch_action a (Emit (KeyChangeEmitted b _)) = (b = a)"
| "fetch_action a (RemoveSession b _) = (b = a)"
| "fetch_action a _ = False"

text \<open>
  A step from \<open>s\<close> to \<open>s'\<close> that transmits nothing and only appends entries about
  \<open>a\<close> to the journals.
\<close>

definition quiet_step :: "addr \<Rightarrow> ('w, 'z) out_state_scheme \<Rightarrow> ('w, 'z) out_state_scheme \<Rightarrow> bool" where
  "quiet_step a s s' =
     (journal_grows a 0 s s' \<and> (\<exists>t. trace s' = trace s @ t \<and> transmits t = 0 \<and> drift409 t = 0))"

text \<open>
  What a send has come to: its result, the number of transmits, the number of entries of
  the \<open>sent\<close> journal, and the reasons of the entries of the \<open>errors\<close> journal.
\<close>

definition outcome :: "((exn + unit) \<times> ('w, 'z) out_state_scheme) option \<Rightarrow> ((exn + unit) \<times> nat \<times> nat \<times> string list) option" where
  "outcome res =
     map_option (\<lambda>(r, s'). (r, transmits (trace s'), length (sent s'),
                            map error_reason (errors s'))) res"

text \<open>
  The state after sending to our own address when no device is stored for it.
\<close>

definition own_address_final :: "nat out_state" where
  "own_address_final =
     \<lparr>world = 0,
      trace =
        [(GetDeviceIds ''me'', None), (GetStateAddr, None),
         (GetDeviceIds ''me'', None), (GetStateAddr, None), (DateNow, None),
         (Emit (SentEmitted \<lparr>sent_timestamp_of = 0, sent_addr = ''me''\<rparr>), None),
         (SendMessages ''me'' [] 1000, None), (DateNow, None),
         (Emit (SentEmitted \<lparr>sent_timestamp_of = 0, sent_addr = ''me''\<rparr>), None)],
      sent =
        [\<lparr>sent_timestamp_of = 0, sent_addr = ''me''\<rparr>,
         \<lparr>sent_timestamp_of = 0, sent_addr = ''me''\<rparr>],
      errors = []\<rparr>"

text \<open>
  The send that journals nothing: the address is not our own, no device is stored for
  it, and the prekey fetch for device 1 brings none.
\<close>

definition unknown_final :: "nat out_state" where
  "unknown_final =
     \<lparr>world = 0,
      trace =
        [(GetDeviceIds ''bob'', None), (GetStateAddr, None),
         (HasOpenSession ''bob'' 1, None),
         (GetKeysForAddr ''bob'' (Some 1), None),
         (GetDeviceIds ''bob'', None), (GetStateAddr, None)],
      sent = [], errors = []\<rparr>"


section \<open>Properties of padding\<close>

lemma ceil160:
  "(if (m::nat) mod 160 \<noteq> 0 then m div 160 + 1 else m div 160) = (m + 159) div 160"
proof -
  define q r where "q = m div 160" and "r = m mod 160"
  have m: "m = q * 160 + r" and r: "r < 160"
    by (simp_all add: q_def r_def)
  have "(q * 160 + r + 159) div 160 = q + (r + 159) div 160"
    by (simp add: add.assoc)
  moreover have "(r + 159) div 160 = (if r = 0 then 0 else 1)"
  proof (cases "r = 0")
    case True
    then show ?thesis by simp
  next
    case False
    have "(r + 159) div 160 = 1"
      by (rule div_nat_eqI) (use False r in simp_all)
    with False show ?thesis by simp
  qed
  ultimately have "(m + 159) div 160 = (if r = 0 then q else q + 1)"
    by (simp add: m)
  then show ?thesis
    by (simp add: q_def r_def)
qed

lemma getPaddedMessageLength_ceil:
  "getPaddedMessageLength n = ((n + 1 + 159) div 160) * 160"
  by (simp only: getPaddedMessageLength_def Let_def ceil160)

lemma getPaddedMessageLength_gt: "n < getPaddedMessageLength n"
proof -
  have "n + 160 = (n + 160) div 160 * 160 + (n + 160) mod 160"
    by (simp only: div_mult_mod_eq)
  moreover have "(n + 160) mod 160 < 160"
    by (rule mod_less_divisor) simp
  ultimately have "n < (n + 160) div 160 * 160"
    by linarith
  then show ?thesis
    by (simp add: getPaddedMessageLength_ceil add.assoc)
qed

lemma drop_replicate_zeros: "drop n (replicate (n + Suc k) (0::byte)) = 0 # replicate k 0"
proof -
  have "drop n (replicate (n + Suc k) (0::byte)) = replicate (Suc k) 0"
    by (simp only: drop_replicate add_diff_cancel_left')
  then show ?thesis by simp
qed

lemma padMessage_shape:
  "padMessage mBuf =
     Inr (mBuf @ 0x80 # replicate (getPaddedMessageLength (length mBuf + 1) - length mBuf - 2) 0)"
proof -
  let ?n = "length mBuf"
  let ?m = "getPaddedMessageLength (?n + 1) - 1"
  have gt: "?n + 1 < getPaddedMessageLength (?n + 1)"
    by (rule getPaddedMessageLength_gt)
  define k where "k = getPaddedMessageLength (?n + 1) - ?n - 2"
  have k: "?m = ?n + Suc k"
    using gt by (simp add: k_def)
  have fits: "\<not> length (newBuffer ?m) < ?n"
    unfolding k by (simp add: newBuffer_def)
  have "drop ?n (newBuffer ?m) = 0 # replicate k 0"
    unfolding newBuffer_def k by (rule drop_replicate_zeros)
  then have "(mBuf @ drop ?n (newBuffer ?m))[?n := 0x80] = mBuf @ 0x80 # replicate k 0"
    by (simp add: list_update_append)
  then show ?thesis
    using fits by (simp add: padMessage_def buffer_set_def Let_def k_def)
qed

lemma unpad_loop_skip:
  "(\<And>j. i \<le> j \<Longrightarrow> j < i + k \<Longrightarrow> buf ! j = 0) \<Longrightarrow> unpad_loop buf (i + k) = unpad_loop buf i"
proof (induction k)
  case 0
  show ?case by simp
next
  case (Suc k)
  have "buf ! (i + k) = 0"
    by (rule Suc.prems) simp_all
  then have "unpad_loop buf (i + Suc k) = unpad_loop buf (i + k)"
    by simp
  also have "\<dots> = unpad_loop buf i"
    by (rule Suc.IH) (simp add: Suc.prems)
  finally show ?case .
qed

lemma unpad_terminated:
  "unpad (msg @ 0x80 # replicate k 0) = Inr msg"
proof -
  let ?buf = "msg @ 0x80 # replicate k (0::byte)"
  have "unpad ?buf = unpad_loop ?buf (Suc (length msg) + k)"
    by (simp add: unpad_def)
  also have "\<dots> = unpad_loop ?buf (Suc (length msg))"
    by (rule unpad_loop_skip) (simp add: nth_append nth_Cons')
  also have "\<dots> = Inr msg"
    by simp
  finally show ?thesis .
qed

lemma unpad_loop_no_terminator:
  "n \<le> length buf \<Longrightarrow> 0x80 \<notin> set (take n buf) \<Longrightarrow>
   unpad_loop buf n =
     Inl (Error (if \<forall>b\<in>set (take n buf). b = 0 then ''Invalid buffer'' else ''Invalid padding''))"
proof (induction n)
  case 0
  show ?case by simp
next
  case (Suc n)
  have t: "take (Suc n) buf = take n buf @ [buf ! n]"
    using Suc.prems(1) by (simp add: take_Suc_conv_app_nth)
  have ne: "buf ! n \<noteq> 0x80" and pre: "0x80 \<notin> set (take n buf)"
    using Suc.prems(2) unfolding t by auto
  show ?case
  proof (cases "buf ! n = 0")
    case True
    have "unpad_loop buf (Suc n) = unpad_loop buf n"
      using True by simp
    also have "\<dots> = Inl (Error (if \<forall>b\<in>set (take n buf). b = 0
                                  then ''Invalid buffer'' else ''Invalid padding''))"
      using Suc.prems(1) pre by (intro Suc.IH) simp_all
    finally show ?thesis
      unfolding t using True by simp
  next
    case False
    then show ?thesis
      unfolding t using ne by simp
  qed
qed

lemma unpad_violation:
  assumes "b \<noteq> 0" and "b \<noteq> 0x80"
  shows "unpad (pre @ b # replicate k 0) = Inl (Error ''Invalid padding'')"
proof -
  let ?buf = "pre @ b # replicate k (0::byte)"
  have "unpad ?buf = unpad_loop ?buf (Suc (length pre) + k)"
    by (simp add: unpad_def)
  also have "\<dots> = unpad_loop ?buf (Suc (length pre))"
    by (rule unpad_loop_skip) (simp add: nth_append nth_Cons')
  also have "\<dots> = Inl (Error ''Invalid padding'')"
    using assms by simp
  finally show ?thesis .
qed

text \<open>
  Claim C3, as the code has it. For a message buffer of length \<open>len\<close> the buffer
  handed to per-device encryption has length \<open>ceil((len + 2) / 160) * 160 - 1\<close>, one
  byte short of a multiple of 160 and strictly greater than \<open>len\<close>; it holds the
  original bytes at offsets \<open>0..len-1\<close>, the terminator \<open>0x80\<close> at offset
  \<open>len\<close> and zero at every later offset.
\<close>

theorem padMessage_layout:
  "\<exists>p. padMessage mBuf = Inr p
     \<and> length p = ((length mBuf + 2 + 159) div 160) * 160 - 1
     \<and> (length p + 1) mod 160 = 0
     \<and> length mBuf < length p
     \<and> take (length mBuf) p = mBuf
     \<and> p ! length mBuf = 0x80
     \<and> drop (Suc (length mBuf)) p = replicate (length p - Suc (length mBuf)) 0"
proof -
  let ?n = "length mBuf"
  let ?g = "getPaddedMessageLength (?n + 1)"
  let ?p = "mBuf @ 0x80 # replicate (?g - ?n - 2) 0"
  have gt: "?n + 1 < ?g"
    by (rule getPaddedMessageLength_gt)
  have g: "?g = ((?n + 2 + 159) div 160) * 160"
    by (simp add: getPaddedMessageLength_ceil)
  have len: "length ?p = ?g - 1"
    using gt by simp
  have "?g mod 160 = 0"
    by (simp only: g mod_mult_self2_is_0)
  moreover have "?g - 1 + 1 = ?g"
    using gt by simp
  ultimately have f2: "(length ?p + 1) mod 160 = 0"
    by (simp only: len)
  have f1: "length ?p = ((?n + 2 + 159) div 160) * 160 - 1"
    using len unfolding g .
  have f0: "padMessage mBuf = Inr ?p"
    by (rule padMessage_shape)
  have f3: "?n < length ?p" by simp
  have f4: "take ?n ?p = mBuf" by simp
  have f5: "?p ! ?n = 0x80" by simp
  have f6: "drop (Suc ?n) ?p = replicate (length ?p - Suc ?n) 0" by simp
  show ?thesis
    by (rule exI [of _ ?p]) (intro conjI f0 f1 f2 f3 f4 f5 f6)
qed

lemma padMessage_length:
  "map_sum id length (padMessage mBuf) = Inr (getPaddedMessageLength (length mBuf + 1) - 1)"
proof -
  have "length mBuf + 1 < getPaddedMessageLength (length mBuf + 1)"
    by (rule getPaddedMessageLength_gt)
  then show ?thesis
    by (simp add: padMessage_shape)
qed

text \<open>
  Claim C3 as stated (length \<open>ceil((len + 1) / 160) * 160\<close>, a multiple of 160) fails
  for the two-byte message \<open>hi\<close>: the padded buffer has 159 bytes, not 160.
\<close>

theorem padMessage_length_counterexample:
  "map_sum id length (padMessage [0x68, 0x69]) = Inr 159
   \<and> (159::nat) \<noteq> ((2 + 1 + 159) div 160) * 160
   \<and> (159::nat) mod 160 \<noteq> 0"
  by (simp add: padMessage_length getPaddedMessageLength_def)

text \<open>
  Claim C4. Unpadding inverts padding: \<open>MessageReceiver.unpad\<close> applied to the padded
  buffer that \<open>doSendMessage\<close> builds from \<open>msg\<close> returns exactly \<open>msg\<close>, and
  neither step raises.
\<close>

theorem unpad_padMessage:
  "(case padMessage msg of Inl e \<Rightarrow> Inl e | Inr paddedBuf \<Rightarrow> unpad paddedBuf) = Inr msg"
  by (simp add: padMessage_shape unpad_terminated)

text \<open>
  Claim C9. A buffer with no \<open>0x80\<close> byte anywhere (the empty buffer and all-zero
  buffers included) makes \<open>unpad\<close> raise: \<open>Invalid buffer\<close> when every byte is
  zero, \<open>Invalid padding\<close> otherwise. A byte that is neither zero nor \<open>0x80\<close>,
  met while scanning back over zeros, raises \<open>Invalid padding\<close>, a different error
  from \<open>Invalid buffer\<close>.
\<close>

theorem unpad_rejects:
  "(0x80 \<notin> set buf \<longrightarrow>
      unpad buf = Inl (Error (if \<forall>b\<in>set buf. b = 0 then ''Invalid buffer''
                              else ''Invalid padding'')))
   \<and> (b \<noteq> 0 \<and> b \<noteq> 0x80 \<longrightarrow>
      unpad (pre @ b # replicate k 0) = Inl (Error ''Invalid padding''))
   \<and> Error ''Invalid padding'' \<noteq> Error ''Invalid buffer''"
  using unpad_loop_no_terminator [of "length buf" buf] unpad_violation [of b pre k]
  by (simp add: unpad_def)

theorem unpad_rejects_witness:
  "0x80 \<notin> set [0, 0 :: byte] \<and> unpad [0, 0] = Inl (Error ''Invalid buffer'')
   \<and> unpad [] = Inl (Error ''Invalid buffer'')
   \<and> unpad [0, 7, 0] = Inl (Error ''Invalid padding'')
   \<and> (1::byte) \<noteq> 0 \<and> (1::byte) \<noteq> 0x80
   \<and> unpad ([0x80, 5] @ 1 # replicate 2 0) = Inl (Error ''Invalid padding'')"
  using unpad_rejects [of "[0, 0]" 1 "[0x80, 5]" 2] unpad_rejects [of "[]" 1 "[]" 0]
    unpad_rejects [of "[0, 7, 0]" 1 "[]" 0]
  by simp

section \<open>The program monad\<close>

lemma bnd_apply:
  "bnd m f s = (case m s of (Inl e, s') \<Rightarrow> (Inl e, s') | (Inr x, s') \<Rightarrow> f x s')"
  by (simp add: bnd_def)

lemma try_catch_apply:
  "try_catch m h s = (case m s of (Inl e, s') \<Rightarrow> h e s' | (Inr x, s') \<Rightarrow> (Inr x, s'))"
  by (simp add: try_catch_def)

lemma ret_apply: "ret x s = (Inr x, s)"
  by (simp add: ret_def)

lemma throw_apply: "throw e s = (Inl e, s)"
  by (simp add: throw_def)

lemma call_apply:
  "call a f s = (case f (world s) of
     (r, w) \<Rightarrow> (r, s\<lparr>world := w, trace := trace s @ [(a, raised r)]\<rparr>))"
  by (simp add: call_def)

lemma bnd_ret [simp]: "bnd (ret x) f = f x"
  by (simp add: bnd_def ret_def)

lemma bnd_throw [simp]: "bnd (throw e) f = throw e"
  by (simp add: bnd_def throw_def)

lemma try_catch_ret [simp]: "try_catch (ret x) h = ret x"
  by (simp add: try_catch_def ret_def)

lemma try_catch_throw [simp]: "try_catch (throw e) h = h e"
  by (simp add: try_catch_def throw_def)

lemma bnd_Inr: "m s = (Inr x, s') \<Longrightarrow> bnd m f s = f x s'"
  by (simp add: bnd_def)

lemma bnd_Inl: "m s = (Inl e, s') \<Longrightarrow> bnd m f s = (Inl e, s')"
  by (simp add: bnd_def)

lemma try_catch_Inr: "m s = (Inr x, s') \<Longrightarrow> try_catch m h s = (Inr x, s')"
  by (simp add: try_catch_def)

lemma try_catch_Inl: "m s = (Inl e, s') \<Longrightarrow> try_catch m h s = h e s'"
  by (simp add: try_catch_def)

lemma call_result:
  "f (world s) = (r, w) \<Longrightarrow>
   call a f s = (r, s\<lparr>world := w, trace := trace s @ [(a, raised r)]\<rparr>)"
  by (simp add: call_def)

subsection \<open>What a program appends to the trace\<close>

lemma actsD:
  "acts P m \<Longrightarrow> m s = (r, s') \<Longrightarrow> \<exists>t. trace s' = trace s @ t \<and> list_all (\<lambda>x. P (fst x)) t"
  unfolding acts_def by (metis snd_conv)

lemma acts_ret [intro!]: "acts P (ret x)"
  by (simp add: acts_def ret_def)

lemma acts_throw [intro!]: "acts P (throw e)"
  by (simp add: acts_def throw_def)

lemma acts_call [intro]: "P a \<Longrightarrow> acts P (call a f)"
  by (simp add: acts_def call_def split: prod.splits)

lemma acts_bnd [intro!]:
  assumes "acts P m" and "\<And>x. acts P (f x)"
  shows "acts P (bnd m f)"
  unfolding acts_def
proof
  fix s
  obtain r s1 where m: "m s = (r, s1)" by (cases "m s")
  from actsD [OF assms(1) m] obtain t1 where
    t1: "trace s1 = trace s @ t1" "list_all (\<lambda>x. P (fst x)) t1" by blast
  show "\<exists>t. trace (snd (bnd m f s)) = trace s @ t \<and> list_all (\<lambda>x. P (fst x)) t"
  proof (cases r)
    case (Inl e)
    then show ?thesis using m t1 by (simp add: bnd_def)
  next
    case (Inr x)
    obtain r2 s2 where f: "f x s1 = (r2, s2)" by (cases "f x s1")
    from actsD [OF assms(2) f] obtain t2 where
      t2: "trace s2 = trace s1 @ t2" "list_all (\<lambda>x. P (fst x)) t2" by blast
    have "trace (snd (bnd m f s)) = trace s @ (t1 @ t2)"
      using m Inr f t1 t2 by (simp add: bnd_def)
    moreover have "list_all (\<lambda>x. P (fst x)) (t1 @ t2)"
      using t1 t2 by simp
    ultimately show ?thesis by blast
  qed
qed

lemma acts_try_catch [intro!]:
  assumes "acts P m" and "\<And>e. acts P (h e)"
  shows "acts P (try_catch m h)"
  unfolding acts_def
proof
  fix s
  obtain r s1 where m: "m s = (r, s1)" by (cases "m s")
  from actsD [OF assms(1) m] obtain t1 where
    t1: "trace s1 = trace s @ t1" "list_all (\<lambda>x. P (fst x)) t1" by blast
  show "\<exists>t. trace (snd (try_catch m h s)) = trace s @ t \<and> list_all (\<lambda>x. P (fst x)) t"
  proof (cases r)
    case (Inr x)
    then show ?thesis using m t1 by (simp add: try_catch_def)
  next
    case (Inl e)
    obtain r2 s2 where f: "h e s1 = (r2, s2)" by (cases "h e s1")
    from actsD [OF assms(2) f] obtain t2 where
      t2: "trace s2 = trace s1 @ t2" "list_all (\<lambda>x. P (fst x)) t2" by blast
    have "trace (snd (try_catch m h s)) = trace s @ (t1 @ t2)"
      using m Inl f t1 t2 by (simp add: try_catch_def)
    moreover have "list_all (\<lambda>x. P (fst x)) (t1 @ t2)"
      using t1 t2 by simp
    ultimately show ?thesis by blast
  qed
qed

lemma acts_if [intro!]: "(c \<Longrightarrow> acts P m) \<Longrightarrow> (\<not> c \<Longrightarrow> acts P n) \<Longrightarrow> acts P (if c then m else n)"
  by simp

lemma acts_for_each [intro!]: "(\<And>x. acts P (f x)) \<Longrightarrow> acts P (for_each xs f)"
  by (induction xs) auto

lemma map_all_Cons_state:
  "job x s = (r, s1) \<Longrightarrow> map_all xs job s1 = (rs, s2) \<Longrightarrow> snd (map_all (x # xs) job s) = s2"
  by simp

lemma acts_map_all [intro!]:
  assumes "\<And>x. acts P (f x)"
  shows "acts P (map_all xs f)"
proof (induction xs)
  case Nil
  show ?case by auto
next
  case (Cons x xs)
  show ?case
    unfolding acts_def
  proof
    fix s
    obtain r s1 where m: "f x s = (r, s1)" by (cases "f x s")
    obtain rs s2 where n: "map_all xs f s1 = (rs, s2)" by (cases "map_all xs f s1")
    from actsD [OF assms m] obtain t1 where
      t1: "trace s1 = trace s @ t1" "list_all (\<lambda>x. P (fst x)) t1" by blast
    from actsD [OF Cons.IH n] obtain t2 where
      t2: "trace s2 = trace s1 @ t2" "list_all (\<lambda>x. P (fst x)) t2" by blast
    have "trace (snd (map_all (x # xs) f s)) = trace s @ (t1 @ t2)"
      unfolding map_all_Cons_state [OF m n] using t1 t2 by simp
    moreover have "list_all (\<lambda>x. P (fst x)) (t1 @ t2)"
      using t1 t2 by simp
    ultimately show "\<exists>t. trace (snd (map_all (x # xs) f s)) = trace s @ t
        \<and> list_all (\<lambda>x. P (fst x)) t"
      by blast
  qed
qed

lemma acts_construct [intro!]: "acts P (construct r)"
  unfolding construct_def by (cases r) auto

lemma map_all_sync_state: "snd (map_all_sync xs chk job s) = snd (map_all (fst (started chk xs)) job s)"
  unfolding map_all_sync_def by (simp split: prod.splits option.splits)

lemma acts_map_all_sync [intro!]:
  assumes "\<And>x. acts P (f x)"
  shows "acts P (map_all_sync xs chk f)"
  using acts_map_all [of P f "fst (started chk xs)", OF assms]
  unfolding acts_def map_all_sync_state .

section \<open>Properties of the incoming pipeline\<close>

lemma acts_dispatch_other:
  "handler_action kc (DispatchEvent ev) \<Longrightarrow> acts (handler_action kc) (dispatchEvent env ev)"
  unfolding dispatchEvent_def by (rule acts_call)

lemma acts_decrypt: "acts (handler_action kc) (decrypt env envelope c)"
  unfolding decrypt_def by (auto split: sum.splits)

lemma acts_handleDataMessage:
  "keyChange envelope = kc \<Longrightarrow> acts (handler_action kc) (handleDataMessage env msg envelope)"
  unfolding handleDataMessage_def handleEndSession_def make_exchange_def
  by (auto intro!: acts_dispatch_other)

lemma acts_handleSyncMessage:
  "acts (handler_action kc) (handleSyncMessage env rcv msg envelope)"
  unfolding handleSyncMessage_def handleSentMessage_def handleRead_def handleBlocked_def
    make_exchange_def
  by (auto intro!: acts_dispatch_other split: option.splits)

lemma acts_run_handler:
  "keyChange envelope = kc \<Longrightarrow> acts (handler_action kc) (run_handler h env rcv envelope)"
  by (cases h)
     (auto simp: handleDeliveryReceipt_def handleContentMessage_def handleLegacyMessage_def
           intro!: acts_dispatch_other acts_decrypt acts_handleDataMessage acts_handleSyncMessage
           split: sum.splits option.splits)

lemma handler_action_counts:
  assumes "list_all (\<lambda>x. handler_action kc (fst x)) t"
  shows "keychange_dispatches t = 0" and "envelope_handlings t = 0"
    and "(DispatchEvent (MessageEvent md), b) \<in> set t \<Longrightarrow> md_keyChange md = kc"
proof -
  have "\<And>x. x \<in> set t \<Longrightarrow> handler_action kc (fst x)"
    using assms by (simp add: list_all_iff)
  then have a: "\<And>x. x \<in> set t \<Longrightarrow> \<not> is_keychange_dispatch (fst x) \<and> \<not> is_IsBlocked (fst x)"
    and b: "(DispatchEvent (MessageEvent md), b) \<in> set t \<Longrightarrow> md_keyChange md = kc"
    by (force elim: handler_action.elims)+
  show "keychange_dispatches t = 0" "envelope_handlings t = 0"
    using a by (simp_all add: keychange_dispatches_def envelope_handlings_def filter_empty_conv)
  show "(DispatchEvent (MessageEvent md), b) \<in> set t \<Longrightarrow> md_keyChange md = kc"
    by (rule b)
qed

lemma acts_session_recovery: "acts (handler_action kc) (session_recovery env e envelope)"
  unfolding session_recovery_def by (auto intro: acts_call)

lemma handleEnvelope_reentrant_trace:
  assumes "keyChange envelope = kc"
    and "handleEnvelope env rcv envelope True f s = (r, s')"
  shows "\<exists>b t. trace s' = trace s @ (IsBlocked (source envelope), b) # t
           \<and> list_all (\<lambda>x. handler_action kc (fst x)) t"
proof -
  let ?rest = "\<lambda>is_blocked.
          if is_blocked then ret ()
          else case select_handler envelope of
            None \<Rightarrow> throw (JsError (Error
              ''Received message with no content and no legacyMessage''))
          | Some h \<Rightarrow>
              try_catch (run_handler h env rcv envelope)
                (\<lambda>e. if is_MessageCounterError e then ret ()
                     else
                       bnd (if is_SessionError e then session_recovery env e envelope
                            else ret ())
                         (\<lambda>_. dispatchEvent env (ErrorEvent e envelope)))"
  have eq: "handleEnvelope env rcv envelope True f =
      bnd (call (IsBlocked (source envelope)) (storage_isBlocked env (source envelope))) ?rest"
    by (subst handleEnvelope.simps) (simp cong: if_cong option.case_cong)
  have rest: "acts (handler_action kc) (?rest x)" for x
    using assms(1)
    by (auto intro!: acts_run_handler acts_session_recovery acts_dispatch_other
             split: option.splits)
  obtain r1 w1 where o: "storage_isBlocked env (source envelope) (world s) = (r1, w1)"
    by (cases "storage_isBlocked env (source envelope) (world s)")
  let ?s1 = "s\<lparr>world := w1, trace := trace s @ [(IsBlocked (source envelope), raised r1)]\<rparr>"
  have c: "call (IsBlocked (source envelope)) (storage_isBlocked env (source envelope)) s = (r1, ?s1)"
    by (simp add: call_def o)
  show ?thesis
  proof (cases r1)
    case (Inl e)
    then have "handleEnvelope env rcv envelope True f s = (Inl e, ?s1)"
      unfolding eq using c by (simp add: bnd_apply)
    with assms(2) have "trace s' = trace s @ (IsBlocked (source envelope), raised r1) # []"
      by auto
    then show ?thesis by force
  next
    case (Inr x)
    then have "handleEnvelope env rcv envelope True f s = ?rest x ?s1"
      unfolding eq using c by (simp add: bnd_apply)
    with assms(2) have "?rest x ?s1 = (r, s')" by simp
    from actsD [OF rest this] obtain t where
      "trace s' = trace ?s1 @ t" "list_all (\<lambda>x. handler_action kc (fst x)) t" by blast
    then have "trace s' = trace s @ (IsBlocked (source envelope), raised r1) # t
       \<and> list_all (\<lambda>x. handler_action kc (fst x)) t"
      by simp
    then show ?thesis by blast
  qed
qed

lemma handleEnvelope_caught:
  assumes "storage_isBlocked env (source envelope) (world s0) = (Inr False, w1)"
    and "select_handler envelope = Some h"
    and "run_handler h env rcv envelope
           (s0\<lparr>world := w1, trace := trace s0 @ [(IsBlocked (source envelope), None)]\<rparr>) = (Inl e, s2)"
  shows "handleEnvelope env rcv envelope reentrant force s0 =
     (if is_MessageCounterError e then ret ()
      else if is_UntrustedIdentityKeyError e \<and> \<not> reentrant then
        bnd (if force then acceptKeyChange env e envelope
             else dispatchKeyChange env e envelope)
          (\<lambda>accepted.
             if accepted then
               handleEnvelope env rcv (envelope\<lparr>keyChange := Some True\<rparr>) True False
             else ret ())
      else
        bnd (if is_SessionError e then session_recovery env e envelope
             else ret ())
          (\<lambda>_. dispatchEvent env (ErrorEvent e envelope))) s2"
proof -
  have c: "call (IsBlocked (source envelope)) (storage_isBlocked env (source envelope)) s0
      = (Inr False, s0\<lparr>world := w1, trace := trace s0 @ [(IsBlocked (source envelope), None)]\<rparr>)"
    by (simp add: call_def assms(1) raised_def)
  note b = bnd_Inr [where m = "call (IsBlocked (source envelope)) (storage_isBlocked env (source envelope))"
      and s = s0, OF c]
  note t = try_catch_Inl [where m = "run_handler h env rcv envelope", OF assms(3)]
  show ?thesis
    by (subst handleEnvelope.simps) (simp add: b assms(2) t)
qed

lemma keychange_dispatches_append [simp]:
  "keychange_dispatches (t1 @ t2) = keychange_dispatches t1 + keychange_dispatches t2"
  by (simp add: keychange_dispatches_def)

lemma envelope_handlings_append [simp]:
  "envelope_handlings (t1 @ t2) = envelope_handlings t1 + envelope_handlings t2"
  by (simp add: envelope_handlings_def)

lemma keychange_dispatches_Cons [simp]:
  "keychange_dispatches (x # t) = (if is_keychange_dispatch (fst x) then 1 else 0) + keychange_dispatches t"
  by (simp add: keychange_dispatches_def)

lemma envelope_handlings_Cons [simp]:
  "envelope_handlings (x # t) = (if is_IsBlocked (fst x) then 1 else 0) + envelope_handlings t"
  by (simp add: envelope_handlings_def)

lemma keychange_dispatches_Nil [simp]: "keychange_dispatches [] = 0"
  by (simp add: keychange_dispatches_def)

lemma envelope_handlings_Nil [simp]: "envelope_handlings [] = 0"
  by (simp add: envelope_handlings_def)

lemma untrusted_not_other:
  "is_UntrustedIdentityKeyError e \<Longrightarrow> \<not> is_MessageCounterError e \<and> \<not> is_SessionError e"
  by (cases e) simp_all

lemma select_handler_keyChange [simp]:
  "select_handler (envelope\<lparr>keyChange := k\<rparr>) = select_handler envelope"
  by (simp add: select_handler_def split: option.splits)

text \<open>
  Claim C7, as the code has it. Let the handler of a first (non-reentrant)
  \<open>handleEnvelope\<close> attempt, made without \<open>forceAcceptKeyChange\<close>, raise an
  \<open>UntrustedIdentityKeyError\<close> \<open>e\<close> (as it does when decryption raises it). Then
  one \<open>keychange\<close> event is dispatched, and \<open>handleEnvelope\<close> is what follows:
  nothing more when the listeners do not accept, and otherwise one run of
  \<open>handleEnvelope\<close> on the same envelope with \<open>keyChange = true\<close> and
  \<open>reentrant = true\<close>. Over the whole call exactly one \<open>keychange\<close> event is
  dispatched and the envelope is handled once (not accepted) or twice (accepted);
  every \<open>message\<close> event of the second run carries \<open>keyChange = true\<close>; and when
  the second run meets an \<open>UntrustedIdentityKeyError\<close> again, the call ends by
  dispatching an \<open>error\<close> event with that error and the envelope.
\<close>

theorem handleEnvelope_untrusted:
  assumes blocked: "storage_isBlocked env (source envelope) (world s0) = (Inr False, w1)"
    and sel: "select_handler envelope = Some h"
    and run: "run_handler h env rcv envelope
           (s0\<lparr>world := w1, trace := trace s0 @ [(IsBlocked (source envelope), None)]\<rparr>) = (Inl e, s2)"
    and untrusted: "is_UntrustedIdentityKeyError e"
    and listen: "keychange_listeners env e envelope (world s2) = (accepted, w3)"
    and s3: "s3 = s2\<lparr>world := w3,
                     trace := trace s2 @ [(DispatchEvent (KeyChangeEvent e envelope), None)]\<rparr>"
    and envelope': "envelope' = envelope\<lparr>keyChange := Some True\<rparr>"
  shows "handleEnvelope env rcv envelope False False s0 =
           (if accepted then handleEnvelope env rcv envelope' True False s3 else (Inr (), s3))
    \<and> (\<exists>t. trace (snd (handleEnvelope env rcv envelope False False s0)) = trace s0 @ t
           \<and> keychange_dispatches t = 1
           \<and> envelope_handlings t = (if accepted then 2 else 1))
    \<and> (accepted \<longrightarrow>
         (\<exists>t. trace (snd (handleEnvelope env rcv envelope False False s0)) = trace s3 @ t
            \<and> (\<forall>md b. (DispatchEvent (MessageEvent md), b) \<in> set t \<longrightarrow>
                   md_keyChange md = Some True)))
    \<and> (accepted \<and> storage_isBlocked env (source envelope) w3 = (Inr False, w4)
         \<and> run_handler h env rcv envelope'
              (s3\<lparr>world := w4, trace := trace s3 @ [(IsBlocked (source envelope), None)]\<rparr>)
            = (Inl e', s5)
         \<and> is_UntrustedIdentityKeyError e' \<longrightarrow>
         handleEnvelope env rcv envelope False False s0 =
           (Inr (), s5\<lparr>world := listeners env (ErrorEvent e' envelope') (world s5),
                        trace := trace s5 @ [(DispatchEvent (ErrorEvent e' envelope'), None)]\<rparr>))"
proof -
  let ?s1 = "s0\<lparr>world := w1, trace := trace s0 @ [(IsBlocked (source envelope), None)]\<rparr>"
  have nm: "\<not> is_MessageCounterError e"
    using untrusted by (simp add: untrusted_not_other)
  have d: "dispatchKeyChange env e envelope s2 = (Inr accepted, s3)"
    by (simp add: dispatchKeyChange_def call_def listen s3 raised_def)
  have A: "handleEnvelope env rcv envelope False False s0 =
           (if accepted then handleEnvelope env rcv envelope' True False s3 else (Inr (), s3))"
    unfolding handleEnvelope_caught [OF blocked sel run]
    using nm untrusted d by (simp add: bnd_apply ret_apply envelope')
  obtain t1 where t1: "trace s2 = trace ?s1 @ t1" "list_all (\<lambda>x. handler_action (keyChange envelope) (fst x)) t1"
    using actsD [OF acts_run_handler [OF refl] run] by blast
  have tr3: "trace s3 = trace s0 @ ((IsBlocked (source envelope), None) # t1
                @ [(DispatchEvent (KeyChangeEvent e envelope), None)])"
    using t1 by (simp add: s3)
  have c1: "keychange_dispatches t1 = 0" "envelope_handlings t1 = 0"
    using handler_action_counts [OF t1(2)] by simp_all
  obtain r' s' where res: "handleEnvelope env rcv envelope' True False s3 = (r', s')"
    by (cases "handleEnvelope env rcv envelope' True False s3")
  have kc': "keyChange envelope' = Some True" and src': "source envelope' = source envelope"
    by (simp_all add: envelope')
  obtain b t2 where t2: "trace s' = trace s3 @ (IsBlocked (source envelope), b) # t2"
      "list_all (\<lambda>x. handler_action (Some True) (fst x)) t2"
    using handleEnvelope_reentrant_trace [OF kc' res] unfolding src' by blast
  have c2: "keychange_dispatches t2 = 0" "envelope_handlings t2 = 0"
    using handler_action_counts [OF t2(2)] by simp_all
  have B: "\<exists>t. trace (snd (handleEnvelope env rcv envelope False False s0)) = trace s0 @ t
           \<and> keychange_dispatches t = 1
           \<and> envelope_handlings t = (if accepted then 2 else 1)"
  proof (cases accepted)
    case True
    have "trace (snd (handleEnvelope env rcv envelope False False s0)) =
        trace s0 @ (((IsBlocked (source envelope), None) # t1
                @ [(DispatchEvent (KeyChangeEvent e envelope), None)])
                @ (IsBlocked (source envelope), b) # t2)"
      using True by (simp add: A res t2 tr3)
    moreover have "keychange_dispatches (((IsBlocked (source envelope), None) # t1
                @ [(DispatchEvent (KeyChangeEvent e envelope), None)])
                @ (IsBlocked (source envelope), b) # t2) = 1"
      using c1 c2 by simp
    moreover have "envelope_handlings (((IsBlocked (source envelope), None) # t1
                @ [(DispatchEvent (KeyChangeEvent e envelope), None)])
                @ (IsBlocked (source envelope), b) # t2) = 2"
      using c1 c2 by simp
    ultimately show ?thesis using True by metis
  next
    case False
    have "trace (snd (handleEnvelope env rcv envelope False False s0)) =
        trace s0 @ ((IsBlocked (source envelope), None) # t1
                @ [(DispatchEvent (KeyChangeEvent e envelope), None)])"
      using False by (simp add: A tr3)
    moreover have "keychange_dispatches ((IsBlocked (source envelope), None) # t1
                @ [(DispatchEvent (KeyChangeEvent e envelope), None)]) = 1"
      using c1 by simp
    moreover have "envelope_handlings ((IsBlocked (source envelope), None) # t1
                @ [(DispatchEvent (KeyChangeEvent e envelope), None)]) = 1"
      using c1 by simp
    ultimately show ?thesis using False by metis
  qed
  have C: "\<exists>t. trace (snd (handleEnvelope env rcv envelope False False s0)) = trace s3 @ t
            \<and> (\<forall>md b. (DispatchEvent (MessageEvent md), b) \<in> set t \<longrightarrow>
                   md_keyChange md = Some True)" if accepted
  proof -
    have "trace (snd (handleEnvelope env rcv envelope False False s0))
        = trace s3 @ ((IsBlocked (source envelope), b) # t2)"
      using that by (simp add: A res t2)
    moreover have "md_keyChange md = Some True"
      if "(DispatchEvent (MessageEvent md), b') \<in> set ((IsBlocked (source envelope), b) # t2)"
      for md b'
      using that handler_action_counts(3) [OF t2(2)] by auto
    ultimately show ?thesis by blast
  qed
  have D: "handleEnvelope env rcv envelope False False s0 =
           (Inr (), s5\<lparr>world := listeners env (ErrorEvent e' envelope') (world s5),
                        trace := trace s5 @ [(DispatchEvent (ErrorEvent e' envelope'), None)]\<rparr>)"
    if acc: accepted
      and b2: "storage_isBlocked env (source envelope) w3 = (Inr False, w4)"
      and r2: "run_handler h env rcv envelope'
              (s3\<lparr>world := w4, trace := trace s3 @ [(IsBlocked (source envelope), None)]\<rparr>)
            = (Inl e', s5)"
      and u2: "is_UntrustedIdentityKeyError e'"
  proof -
    have b2': "storage_isBlocked env (source envelope') (world s3) = (Inr False, w4)"
      using b2 by (simp add: s3 src')
    have sel': "select_handler envelope' = Some h"
      using sel by (simp add: envelope')
    have r2': "run_handler h env rcv envelope'
              (s3\<lparr>world := w4, trace := trace s3 @ [(IsBlocked (source envelope'), None)]\<rparr>)
            = (Inl e', s5)"
      using r2 by (simp add: src')
    have "handleEnvelope env rcv envelope' True False s3 =
        (Inr (), s5\<lparr>world := listeners env (ErrorEvent e' envelope') (world s5),
                        trace := trace s5 @ [(DispatchEvent (ErrorEvent e' envelope'), None)]\<rparr>)"
      unfolding handleEnvelope_caught [OF b2' sel' r2']
      using untrusted_not_other [OF u2]
      by (simp add: dispatchEvent_def call_def raised_def)
    then show ?thesis using acc by (simp add: A)
  qed
  show ?thesis
    using A B C D by blast
qed

section \<open>Runs on concrete inputs\<close>

lemmas run_simps = bnd_apply try_catch_apply ret_apply throw_apply call_apply raised_def
  dispatchEvent_def dispatchKeyChange_def acceptKeyChange_def handleDeliveryReceipt_def
  decrypt_def END_SESSION_def handleEndSession_def make_exchange_def handleSentMessage_def
  handleDataMessage_def handleRead_def handleBlocked_def handleSyncMessage_def
  handleLegacyMessage_def handleContentMessage_def select_handler_def session_recovery_def
  unpad_def construct_def map_all_sync_def

lemma flaky_first:
  "run_handler (ContentMessage [0x68, 0x69, 0x80]) flaky_key_env our_receiver alice_envelope
     (start\<lparr>world := 0, trace := trace start @ [(IsBlocked (source alice_envelope), None)]\<rparr>)
   = (Inl (UntrustedIdentityKeyError ''alice'' []),
      \<lparr>world = 1, trace = [(IsBlocked ''alice'', None),
         (DecryptWhisperMessage ''alice'' 1 [0x68, 0x69, 0x80],
          Some (UntrustedIdentityKeyError ''alice'' []))]\<rparr>)"
  by (simp add: run_simps flaky_key_env_def quiet_env_def alice_envelope_def start_def)

theorem handleEnvelope_untrusted_witness:
  "keychange_dispatches
     (trace (snd (handleEnvelope flaky_key_env our_receiver alice_envelope False False start))) = 1
   \<and> envelope_handlings
     (trace (snd (handleEnvelope flaky_key_env our_receiver alice_envelope False False start))) = 2"
proof -
  have h1: "storage_isBlocked flaky_key_env (source alice_envelope) (world start) = (Inr False, 0)"
    by (simp add: flaky_key_env_def quiet_env_def start_def)
  have h2: "select_handler alice_envelope = Some (ContentMessage [0x68, 0x69, 0x80])"
    by (simp add: select_handler_def alice_envelope_def)
  have h4: "is_UntrustedIdentityKeyError (UntrustedIdentityKeyError ''alice'' [])"
    by simp
  have h5: "keychange_listeners flaky_key_env (UntrustedIdentityKeyError ''alice'' []) alice_envelope
         (world \<lparr>world = 1::nat, trace = [(IsBlocked ''alice'', None),
         (DecryptWhisperMessage ''alice'' 1 [0x68, 0x69, 0x80],
          Some (UntrustedIdentityKeyError ''alice'' []))]\<rparr>) = (True, 1)"
    by (simp add: flaky_key_env_def quiet_env_def)
  note T = handleEnvelope_untrusted [OF h1 h2 flaky_first h4 h5 refl refl]
  from T have "\<exists>t. trace (snd (handleEnvelope flaky_key_env our_receiver alice_envelope False False start))
        = trace start @ t \<and> keychange_dispatches t = 1 \<and> envelope_handlings t = (if True then 2 else 1)"
    by blast
  then show ?thesis
    by (auto simp: start_def)
qed

text \<open>
  Claim C7 as stated fails when \<open>handleEnvelope\<close> is called with
  \<open>forceAcceptKeyChange\<close>: the first decryption raises an
  \<open>UntrustedIdentityKeyError\<close>, the key change is accepted at once, the envelope is
  handled again and a \<open>message\<close> event is dispatched, but no \<open>keychange\<close> event.
\<close>

theorem handleEnvelope_forced_counterexample:
  "handleEnvelope flaky_key_env our_receiver alice_envelope False True start =
     (Inr (),
      \<lparr>world = 2,
       trace =
         [(IsBlocked ''alice'', None),
          (DecryptWhisperMessage ''alice'' 1 [0x68, 0x69, 0x80],
             Some (UntrustedIdentityKeyError ''alice'' [])),
          (AcceptKeyChange (UntrustedIdentityKeyError ''alice'' []) alice_envelope, None),
          (IsBlocked ''alice'', None),
          (DecryptWhisperMessage ''alice'' 1 [0x68, 0x69, 0x80], None),
          (ExchangeDecode \<lparr>flags = 0, dm_body = [0x68, 0x69]\<rparr>, None),
          (DispatchEvent (MessageEvent
             \<lparr>md_timestamp = 42, md_source = ''alice'', md_sourceDevice = 1,
              md_message = \<lparr>flags = 0, dm_body = [0x68, 0x69]\<rparr>,
              md_exchange = \<lparr>ex_source = ''alice'', ex_sourceDevice = 1, ex_timestamp = 42\<rparr>,
              md_keyChange = Some True\<rparr>), None)]\<rparr>)
   \<and> keychange_dispatches
        (trace (snd (handleEnvelope flaky_key_env our_receiver alice_envelope False True start))) = 0"
proof -
  have "handleEnvelope flaky_key_env our_receiver alice_envelope False True start =
     (Inr (),
      \<lparr>world = 2,
       trace =
         [(IsBlocked ''alice'', None),
          (DecryptWhisperMessage ''alice'' 1 [0x68, 0x69, 0x80],
             Some (UntrustedIdentityKeyError ''alice'' [])),
          (AcceptKeyChange (UntrustedIdentityKeyError ''alice'' []) alice_envelope, None),
          (IsBlocked ''alice'', None),
          (DecryptWhisperMessage ''alice'' 1 [0x68, 0x69, 0x80], None),
          (ExchangeDecode \<lparr>flags = 0, dm_body = [0x68, 0x69]\<rparr>, None),
          (DispatchEvent (MessageEvent
             \<lparr>md_timestamp = 42, md_source = ''alice'', md_sourceDevice = 1,
              md_message = \<lparr>flags = 0, dm_body = [0x68, 0x69]\<rparr>,
              md_exchange = \<lparr>ex_source = ''alice'', ex_sourceDevice = 1, ex_timestamp = 42\<rparr>,
              md_keyChange = Some True\<rparr>), None)]\<rparr>)"
    apply (subst handleEnvelope.simps)
    apply (subst handleEnvelope.simps)
    apply (simp add: run_simps flaky_key_env_def quiet_env_def alice_envelope_def start_def
        our_receiver_def)
    done
  then show ?thesis
    by simp
qed

text \<open>
  Claim C10, amended. Let the handler raise \<open>e\<close>, a \<open>SessionError\<close> (as it does when
  decryption raises it), whatever \<open>reentrant\<close> and \<open>forceAcceptKeyChange\<close>.
  If \<open>e\<close> is a \<open>MessageCounterError\<close>, \<open>handleEnvelope\<close> returns at once: no
  recovery and no event. Otherwise it runs the recovery: \<open>generateKeys\<close> and
  \<open>registerKeys\<close> first when \<open>e\<close> is a \<open>PreKeyError\<close>, then \<open>closeSession\<close> for the
  source device with the envelope's timestamp as \<open>retransmit\<close>. When every recovery
  call returns, the \<open>error\<close> event carrying \<open>e\<close> and the envelope is dispatched
  next and \<open>handleEnvelope\<close> returns. When a recovery call raises \<open>x\<close>, the calls
  after it are not made, no \<open>error\<close> event is dispatched, and \<open>handleEnvelope\<close>
  raises \<open>x\<close>.
\<close>

theorem handleEnvelope_session_error:
  assumes blocked: "storage_isBlocked env (source envelope) (world s0) = (Inr False, w1)"
    and sel: "select_handler envelope = Some h"
    and run: "run_handler h env rcv envelope
           (s0\<lparr>world := w1, trace := trace s0 @ [(IsBlocked (source envelope), None)]\<rparr>) = (Inl e, s2)"
    and kind: "is_SessionError e"
  shows "(is_MessageCounterError e \<longrightarrow>
         handleEnvelope env rcv envelope reentrant force s0 = (Inr (), s2))
    \<and> (is_PreKeyError e
         \<and> signal_generateKeys env (world s2) = (Inr ks, w3)
         \<and> signal_registerKeys env ks w3 = (Inr (), w4)
         \<and> sender_closeSession env (source envelope) (sourceDevice envelope)
              (timestamp envelope) w4 = (Inr (), w5) \<longrightarrow>
         handleEnvelope env rcv envelope reentrant force s0 =
           (Inr (), s2\<lparr>world := listeners env (ErrorEvent e envelope) w5,
                        trace := trace s2 @
                          [(GenerateKeys, None), (RegisterKeys ks, None),
                           (CloseSession (source envelope) (sourceDevice envelope)
                              (timestamp envelope), None),
                           (DispatchEvent (ErrorEvent e envelope), None)]\<rparr>))
    \<and> (\<not> is_MessageCounterError e \<and> \<not> is_PreKeyError e
         \<and> sender_closeSession env (source envelope) (sourceDevice envelope)
              (timestamp envelope) (world s2) = (Inr (), w5) \<longrightarrow>
         handleEnvelope env rcv envelope reentrant force s0 =
           (Inr (), s2\<lparr>world := listeners env (ErrorEvent e envelope) w5,
                        trace := trace s2 @
                          [(CloseSession (source envelope) (sourceDevice envelope)
                              (timestamp envelope), None),
                           (DispatchEvent (ErrorEvent e envelope), None)]\<rparr>))
    \<and> (is_PreKeyError e
         \<and> signal_generateKeys env (world s2) = (Inl x, w3) \<longrightarrow>
         handleEnvelope env rcv envelope reentrant force s0 =
           (Inl x, s2\<lparr>world := w3, trace := trace s2 @ [(GenerateKeys, Some x)]\<rparr>))
    \<and> (is_PreKeyError e
         \<and> signal_generateKeys env (world s2) = (Inr ks, w3)
         \<and> signal_registerKeys env ks w3 = (Inl x, w4) \<longrightarrow>
         handleEnvelope env rcv envelope reentrant force s0 =
           (Inl x, s2\<lparr>world := w4,
                        trace := trace s2 @
                          [(GenerateKeys, None), (RegisterKeys ks, Some x)]\<rparr>))
    \<and> (is_PreKeyError e
         \<and> signal_generateKeys env (world s2) = (Inr ks, w3)
         \<and> signal_registerKeys env ks w3 = (Inr (), w4)
         \<and> sender_closeSession env (source envelope) (sourceDevice envelope)
              (timestamp envelope) w4 = (Inl x, w5) \<longrightarrow>
         handleEnvelope env rcv envelope reentrant force s0 =
           (Inl x, s2\<lparr>world := w5,
                        trace := trace s2 @
                          [(GenerateKeys, None), (RegisterKeys ks, None),
                           (CloseSession (source envelope) (sourceDevice envelope)
                              (timestamp envelope), Some x)]\<rparr>))
    \<and> (\<not> is_MessageCounterError e \<and> \<not> is_PreKeyError e
         \<and> sender_closeSession env (source envelope) (sourceDevice envelope)
              (timestamp envelope) (world s2) = (Inl x, w5) \<longrightarrow>
         handleEnvelope env rcv envelope reentrant force s0 =
           (Inl x, s2\<lparr>world := w5,
                        trace := trace s2 @
                          [(CloseSession (source envelope) (sourceDevice envelope)
                              (timestamp envelope), Some x)]\<rparr>))"
proof -
  have u: "\<not> is_UntrustedIdentityKeyError e"
    using kind by (cases e) auto
  have p: "is_PreKeyError e \<Longrightarrow> \<not> is_MessageCounterError e"
    by (cases e) auto
  note A = handleEnvelope_caught [OF blocked sel run, of reentrant force]
  show ?thesis
    unfolding A using u p kind
    by (auto simp: session_recovery_def dispatchEvent_def bnd_apply call_apply ret_apply raised_def)
qed

theorem handleEnvelope_session_error_witness:
  "handleEnvelope prekey_env our_receiver alice_envelope False False start =
     (Inr (),
      \<lparr>world = 1,
       trace =
         [(IsBlocked ''alice'', None),
          (DecryptWhisperMessage ''alice'' 1 [0x68, 0x69, 0x80],
             Some (PreKeyError ''Invalid PreKey ID'')),
          (GenerateKeys, None),
          (RegisterKeys [7], None),
          (CloseSession ''alice'' 1 42, None),
          (DispatchEvent (ErrorEvent (PreKeyError ''Invalid PreKey ID'') alice_envelope), None)]\<rparr>)"
proof -
  let ?e = "PreKeyError ''Invalid PreKey ID''"
  let ?s2 = "\<lparr>world = 1::nat, trace = [(IsBlocked ''alice'', None),
         (DecryptWhisperMessage ''alice'' 1 [0x68, 0x69, 0x80], Some ?e)]\<rparr>"
  have h1: "storage_isBlocked prekey_env (source alice_envelope) (world start) = (Inr False, 0)"
    by (simp add: prekey_env_def quiet_env_def start_def)
  have h2: "select_handler alice_envelope = Some (ContentMessage [0x68, 0x69, 0x80])"
    by (simp add: select_handler_def alice_envelope_def)
  have h3: "run_handler (ContentMessage [0x68, 0x69, 0x80]) prekey_env our_receiver alice_envelope
     (start\<lparr>world := 0, trace := trace start @ [(IsBlocked (source alice_envelope), None)]\<rparr>)
   = (Inl ?e, ?s2)"
    by (simp add: run_simps prekey_env_def quiet_env_def alice_envelope_def start_def)
  have h4: "is_SessionError ?e"
    by simp
  have g: "is_PreKeyError ?e
         \<and> signal_generateKeys prekey_env (world ?s2) = (Inr [7], 1)
         \<and> signal_registerKeys prekey_env [7] 1 = (Inr (), 1)
         \<and> sender_closeSession prekey_env (source alice_envelope) (sourceDevice alice_envelope)
              (timestamp alice_envelope) 1 = (Inr (), 1)"
    by (simp add: prekey_env_def quiet_env_def)
  note T = handleEnvelope_session_error [OF h1 h2 h3 h4, of False False "[7]" 1 1 1]
  from T g have "handleEnvelope prekey_env our_receiver alice_envelope False False start =
           (Inr (), ?s2\<lparr>world := listeners prekey_env (ErrorEvent ?e alice_envelope) 1,
                        trace := trace ?s2 @
                          [(GenerateKeys, None), (RegisterKeys [7], None),
                           (CloseSession (source alice_envelope) (sourceDevice alice_envelope)
                              (timestamp alice_envelope), None),
                           (DispatchEvent (ErrorEvent ?e alice_envelope), None)]\<rparr>)"
    by blast
  then show ?thesis
    by (simp add: prekey_env_def quiet_env_def alice_envelope_def)
qed

text \<open>
  Claim C10 as stated fails in two ways. A \<open>MessageCounterError\<close> is a
  \<open>SessionError\<close>, and when decryption raises it the envelope is dropped: no
  recovery, no \<open>error\<close> event. And when decryption raises a \<open>SessionError\<close> and
  \<open>closeSession\<close> fails, its exception leaves \<open>handleEnvelope\<close> and no \<open>error\<close>
  event is dispatched.
\<close>

theorem handleEnvelope_duplicate_counterexample:
  "is_SessionError (MessageCounterError ''Key used already or never filled'')
   \<and> handleEnvelope duplicate_env our_receiver alice_envelope False False start =
     (Inr (),
      \<lparr>world = 1,
       trace =
         [(IsBlocked ''alice'', None),
          (DecryptWhisperMessage ''alice'' 1 [0x68, 0x69, 0x80],
             Some (MessageCounterError ''Key used already or never filled''))]\<rparr>)
   \<and> handleEnvelope reset_failing_env our_receiver alice_envelope False False start =
     (Inl (JsError (Error ''Unknown address'')),
      \<lparr>world = 2,
       trace =
         [(IsBlocked ''alice'', None),
          (DecryptWhisperMessage ''alice'' 1 [0x68, 0x69, 0x80],
             Some (SessionError ''No session'')),
          (CloseSession ''alice'' 1 42, Some (JsError (Error ''Unknown address'')))]\<rparr>)"
  by (simp add: handleEnvelope.simps run_simps duplicate_env_def reset_failing_env_def
      quiet_env_def alice_envelope_def start_def)
section \<open>Properties of the outgoing pipeline\<close>

lemma unawaited_apply: "unawaited m s = (Inr (), snd (m s))"
  by (simp add: unawaited_def split: prod.splits)

lemma acts_unawaited [intro!]: "acts P m \<Longrightarrow> acts P (unawaited m)"
  by (simp add: acts_def unawaited_apply)

subsection \<open>Programs that leave the journals alone\<close>

lemma keeps_journalD: "keeps_journal m \<Longrightarrow> m s = (r, s') \<Longrightarrow> sent s' = sent s \<and> errors s' = errors s"
  unfolding keeps_journal_def by (metis snd_conv)

lemma keeps_ret [intro!]: "keeps_journal (ret x)"
  by (simp add: keeps_journal_def ret_def)

lemma keeps_throw [intro!]: "keeps_journal (throw e)"
  by (simp add: keeps_journal_def throw_def)

lemma keeps_call [intro!]: "keeps_journal (call a f)"
  by (simp add: keeps_journal_def call_def split: prod.splits)

lemma keeps_bnd [intro!]:
  assumes "keeps_journal m" and "\<And>x. keeps_journal (f x)"
  shows "keeps_journal (bnd m f)"
  unfolding keeps_journal_def
proof
  fix s
  obtain r s1 where m: "m s = (r, s1)" by (cases "m s")
  note k1 = keeps_journalD [OF assms(1) m]
  show "sent (snd (bnd m f s)) = sent s \<and> errors (snd (bnd m f s)) = errors s"
  proof (cases r)
    case (Inl e)
    then show ?thesis using m k1 by (simp add: bnd_def)
  next
    case (Inr x)
    obtain r2 s2 where f: "f x s1 = (r2, s2)" by (cases "f x s1")
    from keeps_journalD [OF assms(2) f] k1 show ?thesis
      using m Inr f by (simp add: bnd_def)
  qed
qed

lemma keeps_try_catch [intro!]:
  assumes "keeps_journal m" and "\<And>e. keeps_journal (h e)"
  shows "keeps_journal (try_catch m h)"
  unfolding keeps_journal_def
proof
  fix s
  obtain r s1 where m: "m s = (r, s1)" by (cases "m s")
  note k1 = keeps_journalD [OF assms(1) m]
  show "sent (snd (try_catch m h s)) = sent s \<and> errors (snd (try_catch m h s)) = errors s"
  proof (cases r)
    case (Inr x)
    then show ?thesis using m k1 by (simp add: try_catch_def)
  next
    case (Inl e)
    obtain r2 s2 where f: "h e s1 = (r2, s2)" by (cases "h e s1")
    from keeps_journalD [OF assms(2) f] k1 show ?thesis
      using m Inl f by (simp add: try_catch_def)
  qed
qed

lemma keeps_if [intro!]:
  "(c \<Longrightarrow> keeps_journal m) \<Longrightarrow> (\<not> c \<Longrightarrow> keeps_journal n) \<Longrightarrow> keeps_journal (if c then m else n)"
  by simp

lemma keeps_for_each [intro!]: "(\<And>x. keeps_journal (f x)) \<Longrightarrow> keeps_journal (for_each xs f)"
  by (induction xs) auto

lemma keeps_map_all [intro!]:
  assumes "\<And>x. keeps_journal (f x)"
  shows "keeps_journal (map_all xs f)"
proof (induction xs)
  case Nil
  show ?case by auto
next
  case (Cons x xs)
  show ?case
    unfolding keeps_journal_def
  proof
    fix s
    obtain r s1 where m: "f x s = (r, s1)" by (cases "f x s")
    obtain rs s2 where n: "map_all xs f s1 = (rs, s2)" by (cases "map_all xs f s1")
    from keeps_journalD [OF assms m] keeps_journalD [OF Cons.IH n]
    show "sent (snd (map_all (x # xs) f s)) = sent s
        \<and> errors (snd (map_all (x # xs) f s)) = errors s"
      unfolding map_all_Cons_state [OF m n] by simp
  qed
qed

lemma keeps_construct [intro!]: "keeps_journal (construct r)"
  unfolding construct_def by (cases r) auto

lemma keeps_map_all_sync [intro!]:
  assumes "\<And>x. keeps_journal (f x)"
  shows "keeps_journal (map_all_sync xs chk f)"
  using keeps_map_all [of f "fst (started chk xs)", OF assms]
  unfolding keeps_journal_def map_all_sync_state .

subsection \<open>The parts of \<open>getKeysForAddr\<close>\<close>

lemma getKeysForAddr_unfold:
  "getKeysForAddr env om a updateDevices reentrant =
     (case updateDevices of
        None \<Rightarrow>
          bnd (call (GetKeysForAddr a None) (server_getKeysForAddr env a None))
            (handleResult env om a updateDevices reentrant)
      | Some ds \<Rightarrow> for_each ds (fetch_device env om a updateDevices reentrant))"
proof -
  show ?thesis
  proof (cases updateDevices)
    case None
    show ?thesis
      unfolding None
      apply (subst getKeysForAddr.simps)
      apply (simp only: Let_def option.case)
      apply (rule arg_cong [where f = "bnd _"])
      apply (rule ext)
      apply (simp only: handleResult_def option.case)
      done
  next
    case (Some ds)
    show ?thesis
      unfolding Some
      apply (subst getKeysForAddr.simps)
      apply (simp only: Let_def option.case)
      apply (rule arg_cong [where f = "for_each _"])
      apply (rule ext)
      apply (simp only: fetch_device_def)
      apply (rule arg_cong [where f = "\<lambda>h. try_catch (bnd _ h) _"])
      apply (rule ext)
      apply (simp only: handleResult_def option.case)
      done
  qed
qed

lemma acts_weaken: "acts P m \<Longrightarrow> (\<And>x. P x \<Longrightarrow> Q x) \<Longrightarrow> acts Q m"
  unfolding acts_def list_all_iff by metis

lemma acts_removeDeviceIdsForAddr:
  "(\<And>i. P (RemoveSession a i)) \<Longrightarrow> acts P (removeDeviceIdsForAddr env a ids)"
  unfolding removeDeviceIdsForAddr_def by (auto split: option.splits intro: acts_call)

lemma acts_handleResult_reentrant:
  assumes "\<And>x. fetch_action a x \<Longrightarrow> P x"
  shows "acts P (handleResult env om a upd True resp)"
  unfolding handleResult_def
  by (auto intro!: acts_call assms simp: emit_def)

lemma acts_getKeysForAddr_reentrant:
  assumes "\<And>x. fetch_action a x \<Longrightarrow> P x"
  shows "acts P (getKeysForAddr env om a upd True)"
  unfolding getKeysForAddr_unfold fetch_device_def
  by (auto intro!: acts_call acts_handleResult_reentrant acts_removeDeviceIdsForAddr assms
           split: option.splits)

lemma acts_handleResult:
  assumes "\<And>x. fetch_action a x \<Longrightarrow> P x"
  shows "acts P (handleResult env om a upd reentrant resp)"
  unfolding handleResult_def
  by (auto intro!: acts_call acts_getKeysForAddr_reentrant assms simp: emit_def)

lemma acts_fetch_device:
  assumes "\<And>x. fetch_action a x \<Longrightarrow> P x"
  shows "acts P (fetch_device env om a upd reentrant dev)"
  unfolding fetch_device_def
  by (auto intro!: acts_call acts_handleResult acts_removeDeviceIdsForAddr assms)

lemma acts_getKeysForAddr:
  assumes "\<And>x. fetch_action a x \<Longrightarrow> P x"
  shows "acts P (getKeysForAddr env om a upd reentrant)"
  unfolding getKeysForAddr_unfold
  by (auto intro!: acts_call acts_handleResult acts_fetch_device assms split: option.splits)

lemma keeps_removeDeviceIdsForAddr: "keeps_journal (removeDeviceIdsForAddr env a ids)"
  unfolding removeDeviceIdsForAddr_def by (auto split: option.splits)

lemma keeps_handleResult_reentrant: "keeps_journal (handleResult env om a upd True resp)"
  unfolding handleResult_def by (auto simp: emit_def)

lemma keeps_getKeysForAddr_reentrant: "keeps_journal (getKeysForAddr env om a upd True)"
  unfolding getKeysForAddr_unfold fetch_device_def
  by (auto intro!: keeps_removeDeviceIdsForAddr keeps_handleResult_reentrant split: option.splits)

lemma keeps_handleResult: "keeps_journal (handleResult env om a upd reentrant resp)"
  unfolding handleResult_def by (auto intro!: keeps_getKeysForAddr_reentrant simp: emit_def)

lemma keeps_getKeysForAddr: "keeps_journal (getKeysForAddr env om a upd reentrant)"
  unfolding getKeysForAddr_unfold fetch_device_def
  by (auto intro!: keeps_removeDeviceIdsForAddr keeps_handleResult split: option.splits)

subsection \<open>Growth of the journals\<close>

lemma journal_grows_refl: "journal_grows a 0 s s"
  by (simp add: journal_grows_def)

lemma journal_grows_keep:
  "sent s' = sent s \<and> errors s' = errors s \<Longrightarrow> journal_grows a 0 s s'"
  by (simp add: journal_grows_def)

lemma journal_grows_trans:
  assumes "journal_grows a j s s1" and "journal_grows a k s1 s2"
  shows "journal_grows a (j + k) s s2"
proof -
  from assms(1) obtain xs ys where 1: "sent s1 = sent s @ xs" "errors s1 = errors s @ ys"
    "list_all (\<lambda>x. sent_addr x = a) xs" "list_all (\<lambda>y. error_addr y = a) ys"
    "j \<le> length xs + length ys"
    unfolding journal_grows_def by blast
  from assms(2) obtain xs' ys' where 2: "sent s2 = sent s1 @ xs'" "errors s2 = errors s1 @ ys'"
    "list_all (\<lambda>x. sent_addr x = a) xs'" "list_all (\<lambda>y. error_addr y = a) ys'"
    "k \<le> length xs' + length ys'"
    unfolding journal_grows_def by blast
  have "sent s2 = sent s @ (xs @ xs')" "errors s2 = errors s @ (ys @ ys')"
    "list_all (\<lambda>x. sent_addr x = a) (xs @ xs')" "list_all (\<lambda>y. error_addr y = a) (ys @ ys')"
    "j + k \<le> length (xs @ xs') + length (ys @ ys')"
    using 1 2 by simp_all
  then show ?thesis
    unfolding journal_grows_def by blast
qed

lemma journal_grows_weaken: "journal_grows a k s s' \<Longrightarrow> j \<le> k \<Longrightarrow> journal_grows a j s s'"
  unfolding journal_grows_def by (meson le_trans)

lemma journal_grows_trans0:
  "journal_grows a 0 s s1 \<Longrightarrow> journal_grows a k s1 s2 \<Longrightarrow> journal_grows a k s s2"
  using journal_grows_trans [of a 0 s s1 k s2] by simp

lemma journal_grows_trans0':
  "journal_grows a k s s1 \<Longrightarrow> journal_grows a 0 s1 s2 \<Longrightarrow> journal_grows a k s s2"
  using journal_grows_trans [of a k s s1 0 s2] by simp

lemma keeps_grows: "keeps_journal m \<Longrightarrow> m s = (r, s') \<Longrightarrow> journal_grows a 0 s s'"
  by (rule journal_grows_keep) (rule keeps_journalD)

lemma emitSent_result:
  "\<exists>s'. emitSent env a s = (Inr (), s') \<and> journal_grows a 1 s s'
      \<and> (\<exists>x y. trace s' = trace s @ [(DateNow, None), (Emit x, y)])"
  by (simp add: emitSent_def dateNow_def emit_def bnd_apply call_apply Let_def raised_def
        journal_grows_def split: prod.splits)

lemma emitError_result:
  "\<exists>s'. emitError env om a reason err s = (Inr (), s') \<and> journal_grows a 1 s s'
      \<and> (\<exists>x y. trace s' = trace s @ [(DateNow, None), (Emit x, y)])"
  by (simp add: emitError_def dateNow_def emit_def bnd_apply call_apply Let_def raised_def
        journal_grows_def split: prod.splits)

lemma unawaited_emitSent:
  "\<exists>s'. unawaited (emitSent env a) s = (Inr (), s') \<and> journal_grows a 1 s s'
      \<and> (\<exists>x y. trace s' = trace s @ [(DateNow, None), (Emit x, y)])"
  using emitSent_result [of env a s] by (auto simp: unawaited_apply)

lemma unawaited_emitError:
  "\<exists>s'. unawaited (emitError env om a reason err) s = (Inr (), s') \<and> journal_grows a 1 s s'
      \<and> (\<exists>x y. trace s' = trace s @ [(DateNow, None), (Emit x, y)])"
  using emitError_result [of env om a reason err s] by (auto simp: unawaited_apply)

lemma keeps_transmitMessage: "keeps_journal (transmitMessage env a ms ts)"
  unfolding transmitMessage_def by auto

lemma keeps_encrypt: "keeps_journal (encryptAll env a ids p)"
  unfolding encryptAll_def encryptToDevice_def by auto

lemma keeps_reconcile: "keeps_journal (reconcile env om a ids e)"
  unfolding reconcile_def closeStaleSessions_def Let_def
  by (auto intro!: keeps_removeDeviceIdsForAddr keeps_getKeysForAddr split: option.splits)

lemma keeps_collect_stale: "keeps_journal (collect_stale env a ids)"
  by (induction ids) auto

lemma keeps_getStaleDeviceIdsForAddr: "keeps_journal (getStaleDeviceIdsForAddr env a)"
  unfolding getStaleDeviceIdsForAddr_def by (auto intro!: keeps_collect_stale)

lemma reloadDevices_result:
  assumes "reloadDevices env a s = (r, s1)"
  shows "journal_grows a 0 s s1"
    and "r = Inr None \<Longrightarrow> sent s1 = sent s \<and> errors s1 = errors s
           \<and> trace s1 = trace s @ [(GetDeviceIds a, None), (GetStateAddr, None)]
           \<and> (\<exists>w1 ourAddr. storage_getDeviceIds env a (world s) = (Inr [], w1)
                 \<and> storage_getState_addr env w1 = (Inr ourAddr, world s1) \<and> ourAddr \<noteq> a)"
proof -
  obtain r1 w1 where g: "storage_getDeviceIds env a (world s) = (r1, w1)"
    by (cases "storage_getDeviceIds env a (world s)")
  obtain r2 w2 where o: "storage_getState_addr env w1 = (r2, w2)"
    by (cases "storage_getState_addr env w1")
  let ?s2 = "s\<lparr>world := w2, trace := trace s @ [(GetDeviceIds a, None), (GetStateAddr, None)]\<rparr>"
  obtain s3 where e: "emitSent env a ?s2 = (Inr (), s3)" "journal_grows a 1 ?s2 s3"
    using emitSent_result [of env a ?s2] by blast
  have k: "journal_grows a 0 s ?s2"
    by (simp add: journal_grows_def)
  have "journal_grows a 0 s s1 \<and> (r = Inr None \<longrightarrow> sent s1 = sent s \<and> errors s1 = errors s
           \<and> trace s1 = trace s @ [(GetDeviceIds a, None), (GetStateAddr, None)]
           \<and> (\<exists>w1 ourAddr. storage_getDeviceIds env a (world s) = (Inr [], w1)
                 \<and> storage_getState_addr env w1 = (Inr ourAddr, world s1) \<and> ourAddr \<noteq> a))"
    using assms g o e journal_grows_weaken [OF journal_grows_trans0 [OF k e(2)], of 0]
    by (auto simp: reloadDevices_def bnd_apply call_apply ret_apply raised_def journal_grows_def
             split: sum.splits if_splits)
  then show "journal_grows a 0 s s1"
    and "r = Inr None \<Longrightarrow> sent s1 = sent s \<and> errors s1 = errors s
           \<and> trace s1 = trace s @ [(GetDeviceIds a, None), (GetStateAddr, None)]
           \<and> (\<exists>w1 ourAddr. storage_getDeviceIds env a (world s) = (Inr [], w1)
                 \<and> storage_getState_addr env w1 = (Inr ourAddr, world s1) \<and> ourAddr \<noteq> a)"
    by simp_all
qed

subsection \<open>The paths through \<open>doSendMessage\<close>\<close>

lemma doSendMessage_cases [consumes 1, case_names encrypt_failed sent retry_limit
    reconcile_failed reload_failed reloaded send_failed]:
  assumes run: "doSendMessage (Suc n) env om a ids rc s = Some (r, s')"
  obtains
    (encrypt_failed) p e s1 where
      "padMessage (messageBuffer om) = Inr p"
      "encryptAll env a ids p s = (Inl e, s1)"
      "unawaited (emitError env om a ''Failed to create message'' (Some e)) s1 = (r, s')"
  | (sent) p ms s1 s2 where
      "padMessage (messageBuffer om) = Inr p"
      "encryptAll env a ids p s = (Inr ms, s1)"
      "transmitMessage env a ms (om_timestamp om) s1 = (Inr (), s2)"
      "unawaited (emitSent env a) s2 = (r, s')"
  | (retry_limit) p ms s1 e s2 where
      "padMessage (messageBuffer om) = Inr p"
      "encryptAll env a ids p s = (Inr ms, s1)"
      "transmitMessage env a ms (om_timestamp om) s1 = (Inl e, s2)"
      "is_ProtocolError e" "code e = 410 \<or> code e = 409" "\<not> rc"
      "unawaited (emitError env om a ''Hit retry limit attempting to reload device list''
         (Some e)) s2 = (r, s')"
  | (reconcile_failed) p ms s1 e s2 e' where
      "padMessage (messageBuffer om) = Inr p"
      "encryptAll env a ids p s = (Inr ms, s1)"
      "transmitMessage env a ms (om_timestamp om) s1 = (Inl e, s2)"
      "is_ProtocolError e" "code e = 410 \<or> code e = 409" "rc"
      "reconcile env om a ids e s2 = (Inl e', s')" "r = Inl e'"
  | (reload_failed) p ms s1 e s2 s3 e' s4 where
      "padMessage (messageBuffer om) = Inr p"
      "encryptAll env a ids p s = (Inr ms, s1)"
      "transmitMessage env a ms (om_timestamp om) s1 = (Inl e, s2)"
      "is_ProtocolError e" "code e = 410 \<or> code e = 409" "rc"
      "reconcile env om a ids e s2 = (Inr (), s3)"
      "reloadDevicesAndSend n env om a (code e = 409) s3 = Some (Inl e', s4)"
      "unawaited (emitError env om a ''Failed to reload device keys'' (Some e')) s4 = (r, s')"
  | (reloaded) p ms s1 e s2 s3 s4 where
      "padMessage (messageBuffer om) = Inr p"
      "encryptAll env a ids p s = (Inr ms, s1)"
      "transmitMessage env a ms (om_timestamp om) s1 = (Inl e, s2)"
      "is_ProtocolError e" "code e = 410 \<or> code e = 409" "rc"
      "reconcile env om a ids e s2 = (Inr (), s3)"
      "reloadDevicesAndSend n env om a (code e = 409) s3 = Some (Inr (), s4)"
      "unawaited (emitSent env a) s4 = (r, s')"
  | (send_failed) p ms s1 e s2 where
      "padMessage (messageBuffer om) = Inr p"
      "encryptAll env a ids p s = (Inr ms, s1)"
      "transmitMessage env a ms (om_timestamp om) s1 = (Inl e, s2)"
      "\<not> (is_ProtocolError e \<and> (code e = 410 \<or> code e = 409))"
      "unawaited (emitError env om a ''Failed to send message'' (Some e)) s2 = (r, s')"
proof -
  obtain p where p: "padMessage (messageBuffer om) = Inr p"
    using padMessage_shape by blast
  obtain r1 s1 where enc: "encryptAll env a ids p s = (r1, s1)"
    by (cases "encryptAll env a ids p s")
  show thesis
  proof (cases r1)
    case (Inl e)
    then show thesis
      using run p enc encrypt_failed by simp
  next
    case (Inr ms)
    obtain r2 s2 where tx: "transmitMessage env a ms (om_timestamp om) s1 = (r2, s2)"
      by (cases "transmitMessage env a ms (om_timestamp om) s1")
    show thesis
    proof (cases r2)
      case ok: (Inr u)
      then show thesis
        using run p enc Inr tx sent by simp
    next
      case (Inl e)
      note stem = p enc [unfolded Inr] tx [unfolded Inl]
      have body: "(if is_ProtocolError e \<and> (code e = 410 \<or> code e = 409) then
                    if \<not> rc then
                      Some (unawaited (emitError env om a
                        ''Hit retry limit attempting to reload device list'' (Some e)) s2)
                    else
                      (case reconcile env om a ids e s2 of
                         (Inl e', s3) \<Rightarrow> Some (Inl e', s3)
                       | (Inr _, s3) \<Rightarrow>
                          (case reloadDevicesAndSend n env om a (code e = 409) s3 of
                             None \<Rightarrow> None
                           | Some (Inl e', s4) \<Rightarrow>
                               Some (unawaited (emitError env om a
                                 ''Failed to reload device keys'' (Some e')) s4)
                           | Some (Inr _, s4) \<Rightarrow> Some (unawaited (emitSent env a) s4)))
                  else
                    Some (unawaited (emitError env om a ''Failed to send message'' (Some e)) s2))
                 = Some (r, s')"
        using run p enc Inr tx Inl by simp
      show thesis
      proof (cases "is_ProtocolError e \<and> (code e = 410 \<or> code e = 409)")
        case False
        from body have "unawaited (emitError env om a ''Failed to send message'' (Some e)) s2 = (r, s')"
          by (simp only: False if_False option.inject)
        then show thesis
          by (rule send_failed [OF stem False])
      next
        case drift: True
        then have d: "is_ProtocolError e" "code e = 410 \<or> code e = 409"
          by simp_all
        show thesis
        proof (cases rc)
          case False
          from body have "unawaited (emitError env om a
              ''Hit retry limit attempting to reload device list'' (Some e)) s2 = (r, s')"
            using d False by simp
          then show thesis
            by (rule retry_limit [OF stem d False])
        next
          case True
          from body have body': "(case reconcile env om a ids e s2 of
                         (Inl e', s3) \<Rightarrow> Some (Inl e', s3)
                       | (Inr _, s3) \<Rightarrow>
                          (case reloadDevicesAndSend n env om a (code e = 409) s3 of
                             None \<Rightarrow> None
                           | Some (Inl e', s4) \<Rightarrow>
                               Some (unawaited (emitError env om a
                                 ''Failed to reload device keys'' (Some e')) s4)
                           | Some (Inr _, s4) \<Rightarrow> Some (unawaited (emitSent env a) s4)))
                 = Some (r, s')"
            using d True by simp
          obtain r3 s3 where rec: "reconcile env om a ids e s2 = (r3, s3)"
            by (cases "reconcile env om a ids e s2")
          show thesis
          proof (cases r3)
            case bad: (Inl e')
            then have "reconcile env om a ids e s2 = (Inl e', s')" "r = Inl e'"
              using body' rec by simp_all
            then show thesis
              by (rule reconcile_failed [OF stem d True])
          next
            case good: (Inr u)
            then have rec': "reconcile env om a ids e s2 = (Inr (), s3)"
              using rec by simp
            show thesis
            proof (cases "reloadDevicesAndSend n env om a (code e = 409) s3")
              case None
              then show thesis
                using body' rec' by simp
            next
              case (Some q)
              obtain r4 s4 where q: "q = (r4, s4)" by (cases q)
              show thesis
              proof (cases r4)
                case failed: (Inl e')
                then have "reloadDevicesAndSend n env om a (code e = 409) s3 = Some (Inl e', s4)"
                  "unawaited (emitError env om a ''Failed to reload device keys'' (Some e')) s4 = (r, s')"
                  using body' rec' Some q by simp_all
                then show thesis
                  by (rule reload_failed [OF stem d True rec'])
              next
                case fine: (Inr u')
                then have "reloadDevicesAndSend n env om a (code e = 409) s3 = Some (Inr (), s4)"
                  "unawaited (emitSent env a) s4 = (r, s')"
                  using body' rec' Some q by simp_all
                then show thesis
                  by (rule reloaded [OF stem d True rec'])
              qed
            qed
          qed
        qed
      qed
    qed
  qed
qed

lemma reloadDevicesAndSend_split:
  assumes "reloadDevicesAndSend n env om a rc s = Some (r, s')"
  obtains
    (failed) e where "reloadDevices env a s = (Inl e, s')" "r = Inl e"
  | (skipped) "reloadDevices env a s = (Inr None, s')" "r = Inr ()"
  | (send) ids s1 where "reloadDevices env a s = (Inr (Some ids), s1)"
      "doSendMessage n env om a ids rc s1 = Some (r, s')"
proof -
  obtain q s1 where q: "reloadDevices env a s = (q, s1)"
    by (cases "reloadDevices env a s")
  show thesis
  proof (cases q)
    case (Inl e)
    then show thesis using assms q failed by simp
  next
    case (Inr o1)
    show thesis
    proof (cases o1)
      case None
      then show thesis using assms q Inr skipped by simp
    next
      case (Some ids)
      then show thesis using assms q Inr send by simp
    qed
  qed
qed

lemma doSendMessage_journal:
  fixes s s' :: "('w, 'z) out_state_scheme"
  shows "doSendMessage n env om a ids rc s = Some (r, s') \<Longrightarrow>
   journal_grows a (case r of Inl _ \<Rightarrow> 0 | Inr _ \<Rightarrow> 1) s s'"
proof (induction n arbitrary: ids rc s r s')
  case 0
  then show ?case by simp
next
  case (Suc n)
  have reload: "journal_grows a 0 s3 s4"
    if "reloadDevicesAndSend n env om a rc' s3 = Some (r4, s4)"
    for rc' r4 and s3 s4 :: "('w, 'z) out_state_scheme"
    using that
  proof (cases rule: reloadDevicesAndSend_split)
    case (failed e)
    then show ?thesis by (simp add: reloadDevices_result(1))
  next
    case skipped
    then show ?thesis by (simp add: reloadDevices_result(1))
  next
    case (send ids1 s1)
    have "journal_grows a 0 s1 s4"
      using Suc.IH [OF send(2)] by (rule journal_grows_weaken) simp
    with reloadDevices_result(1) [OF send(1)] show ?thesis
      by (rule journal_grows_trans0)
  qed
  have sentE: "r = Inr () \<and> journal_grows a 1 s s'"
    if "journal_grows a 0 s s2" "unawaited (emitSent env a) s2 = (r, s')"
    for s2 :: "('w, 'z) out_state_scheme"
    using that unawaited_emitSent [of env a s2] journal_grows_trans0 by fastforce
  have errE: "r = Inr () \<and> journal_grows a 1 s s'"
    if "journal_grows a 0 s s2" "unawaited (emitError env om a reason err) s2 = (r, s')"
    for reason err and s2 :: "('w, 'z) out_state_scheme"
    using that unawaited_emitError [of env om a reason err s2] journal_grows_trans0 by fastforce
  from Suc.prems show ?case
  proof (cases rule: doSendMessage_cases)
    case (encrypt_failed p e s1)
    have "journal_grows a 0 s s1"
      using keeps_grows [OF keeps_encrypt encrypt_failed(2)] .
    from errE [OF this encrypt_failed(3)] show ?thesis by simp
  next
    case (sent p ms s1 s2)
    have "journal_grows a 0 s s2"
      using keeps_grows [OF keeps_encrypt sent(2)] keeps_grows [OF keeps_transmitMessage sent(3)]
      by (rule journal_grows_trans0)
    from sentE [OF this sent(4)] show ?thesis by simp
  next
    case (retry_limit p ms s1 e s2)
    have "journal_grows a 0 s s2"
      using keeps_grows [OF keeps_encrypt retry_limit(2)]
        keeps_grows [OF keeps_transmitMessage retry_limit(3)]
      by (rule journal_grows_trans0)
    from errE [OF this retry_limit(7)] show ?thesis by simp
  next
    case (reconcile_failed p ms s1 e s2 e')
    have "journal_grows a 0 s s2"
      using keeps_grows [OF keeps_encrypt reconcile_failed(2)]
        keeps_grows [OF keeps_transmitMessage reconcile_failed(3)]
      by (rule journal_grows_trans0)
    then have "journal_grows a 0 s s'"
      using keeps_grows [OF keeps_reconcile reconcile_failed(7)]
      by (rule journal_grows_trans0)
    then show ?thesis using reconcile_failed(8) by simp
  next
    case (reload_failed p ms s1 e s2 s3 e' s4)
    have "journal_grows a 0 s s2"
      using keeps_grows [OF keeps_encrypt reload_failed(2)]
        keeps_grows [OF keeps_transmitMessage reload_failed(3)]
      by (rule journal_grows_trans0)
    then have "journal_grows a 0 s s3"
      using keeps_grows [OF keeps_reconcile reload_failed(7)]
      by (rule journal_grows_trans0)
    then have "journal_grows a 0 s s4"
      using reload [OF reload_failed(8)] by (rule journal_grows_trans0)
    from errE [OF this reload_failed(9)] show ?thesis by simp
  next
    case (reloaded p ms s1 e s2 s3 s4)
    have "journal_grows a 0 s s2"
      using keeps_grows [OF keeps_encrypt reloaded(2)]
        keeps_grows [OF keeps_transmitMessage reloaded(3)]
      by (rule journal_grows_trans0)
    then have "journal_grows a 0 s s3"
      using keeps_grows [OF keeps_reconcile reloaded(7)]
      by (rule journal_grows_trans0)
    then have "journal_grows a 0 s s4"
      using reload [OF reloaded(8)] by (rule journal_grows_trans0)
    from sentE [OF this reloaded(9)] show ?thesis by simp
  next
    case (send_failed p ms s1 e s2)
    have "journal_grows a 0 s s2"
      using keeps_grows [OF keeps_encrypt send_failed(2)]
        keeps_grows [OF keeps_transmitMessage send_failed(3)]
      by (rule journal_grows_trans0)
    from errE [OF this send_failed(5)] show ?thesis by simp
  qed
qed

lemma acts_collect_stale: "(\<And>i. P (HasOpenSession a i)) \<Longrightarrow> acts P (collect_stale env a ids)"
  by (induction ids) (auto intro: acts_call)

lemma acts_getStaleDeviceIdsForAddr:
  assumes "\<And>i. P (HasOpenSession a i)" and "P (GetDeviceIds a)" and "P GetStateAddr"
  shows "acts P (getStaleDeviceIdsForAddr env a)"
  unfolding getStaleDeviceIdsForAddr_def
  by (auto intro!: acts_call acts_collect_stale assms)

lemma acts_emitError:
  assumes "P DateNow" and "\<And>x. P (Emit x)"
  shows "acts P (emitError env om a reason err)"
  unfolding acts_def
proof
  fix s :: "('a, 'b) out_state_scheme"
  obtain s' x y where "emitError env om a reason err s = (Inr (), s')"
    "trace s' = trace s @ [(DateNow, None), (Emit x, y)]"
    using emitError_result [of env om a reason err s] by blast
  then show "\<exists>t. trace (snd (emitError env om a reason err s)) = trace s @ t
      \<and> list_all (\<lambda>x. P (fst x)) t"
    using assms by simp
qed

lemma acts_emitSent:
  assumes "P DateNow" and "\<And>x. P (Emit x)"
  shows "acts P (emitSent env a)"
  unfolding acts_def
proof
  fix s :: "('a, 'b) out_state_scheme"
  obtain s' x y where "emitSent env a s = (Inr (), s')"
    "trace s' = trace s @ [(DateNow, None), (Emit x, y)]"
    using emitSent_result [of env a s] by blast
  then show "\<exists>t. trace (snd (emitSent env a s)) = trace s @ t
      \<and> list_all (\<lambda>x. P (fst x)) t"
    using assms by simp
qed

lemma transmits_append [simp]: "transmits (t1 @ t2) = transmits t1 + transmits t2"
  by (simp add: transmits_def)

lemma drift409_append [simp]: "drift409 (t1 @ t2) = drift409 t1 + drift409 t2"
  by (simp add: drift409_def)

lemma transmits_Nil [simp]: "transmits [] = 0"
  by (simp add: transmits_def)

lemma drift409_Nil [simp]: "drift409 [] = 0"
  by (simp add: drift409_def)

lemma transmits_Cons [simp]:
  "transmits (x # t) = (if is_SendMessages (fst x) then 1 else 0) + transmits t"
  by (simp add: transmits_def)

lemma drift409_Cons [simp]: "drift409 (x # t) = (if is_drift409 x then 1 else 0) + drift409 t"
  by (simp add: drift409_def)

lemma is_drift409_SendMessages: "is_drift409 x \<Longrightarrow> is_SendMessages (fst x)"
  by (cases x rule: is_drift409.cases) simp_all

lemma quiet_counts:
  assumes "list_all (\<lambda>x. \<not> is_SendMessages (fst x)) t"
  shows "transmits t = 0" and "drift409 t = 0"
proof -
  have a: "\<And>x. x \<in> set t \<Longrightarrow> \<not> is_SendMessages (fst x)"
    using assms by (simp add: list_all_iff)
  then have b: "\<And>x. x \<in> set t \<Longrightarrow> \<not> is_drift409 x"
    using is_drift409_SendMessages by blast
  show "transmits t = 0"
    using a by (simp add: transmits_def filter_empty_conv)
  show "drift409 t = 0"
    using b by (simp add: drift409_def filter_empty_conv)
qed

lemma quiet_step_trans: "quiet_step a s s1 \<Longrightarrow> quiet_step a s1 s2 \<Longrightarrow> quiet_step a s s2"
  unfolding quiet_step_def
  by (metis (no_types, lifting) add_0 append.assoc drift409_append journal_grows_trans0
      transmits_append)

lemma quiet_stepI:
  assumes "keeps_journal m" and "acts (\<lambda>x. \<not> is_SendMessages x) m" and "m s = (r, s')"
  shows "quiet_step a s s'"
proof -
  obtain t where "trace s' = trace s @ t" "list_all (\<lambda>x. \<not> is_SendMessages (fst x)) t"
    using actsD [OF assms(2,3)] by blast
  then show ?thesis
    using keeps_grows [OF assms(1,3)] quiet_counts [of t] unfolding quiet_step_def by blast
qed

lemma quiet_emitError:
  "\<exists>s'. unawaited (emitError env om a reason err) s = (Inr (), s') \<and> quiet_step a s s'
     \<and> journal_grows a 1 s s'"
proof -
  obtain s' x y where e: "unawaited (emitError env om a reason err) s = (Inr (), s')"
    "journal_grows a 1 s s'" "trace s' = trace s @ [(DateNow, None), (Emit x, y)]"
    using unawaited_emitError [of env om a reason err s] by blast
  have "transmits [(DateNow, None), (Emit x, y)] = 0" "drift409 [(DateNow, None), (Emit x, y)] = 0"
    by simp_all
  then have "quiet_step a s s'"
    unfolding quiet_step_def using e(3) journal_grows_weaken [OF e(2), of 0] by blast
  then show ?thesis using e by blast
qed

lemma quiet_emitSent:
  "\<exists>s'. unawaited (emitSent env a) s = (Inr (), s') \<and> quiet_step a s s'
     \<and> journal_grows a 1 s s'"
proof -
  obtain s' x y where e: "unawaited (emitSent env a) s = (Inr (), s')"
    "journal_grows a 1 s s'" "trace s' = trace s @ [(DateNow, None), (Emit x, y)]"
    using unawaited_emitSent [of env a s] by blast
  have "transmits [(DateNow, None), (Emit x, y)] = 0" "drift409 [(DateNow, None), (Emit x, y)] = 0"
    by simp_all
  then have "quiet_step a s s'"
    unfolding quiet_step_def using e(3) journal_grows_weaken [OF e(2), of 0] by blast
  then show ?thesis using e by blast
qed

lemma first_step:
  fixes s s1 :: "('w, 'z) out_state_scheme"
  assumes "try_catch (bnd (getStaleDeviceIdsForAddr env a) (\<lambda>ids. ret (Some ids)))
       (\<lambda>e. bnd (unawaited (emitError env om a reason (Some e))) (\<lambda>_. ret None)) s = (q, s1)"
  shows "(\<exists>u. q = Inr u) \<and> quiet_step a s s1"
proof -
  obtain g s0 where g: "getStaleDeviceIdsForAddr env a s = (g, s0)"
    by (cases "getStaleDeviceIdsForAddr env a s")
  have q0: "quiet_step a s s0"
    by (rule quiet_stepI [OF keeps_getStaleDeviceIdsForAddr _ g])
       (rule acts_getStaleDeviceIdsForAddr, simp_all)
  show ?thesis
  proof (cases g)
    case (Inr ids)
    then have "q = Inr (Some ids)" "s1 = s0"
      using assms g by (simp_all add: try_catch_apply bnd_apply ret_apply)
    then show ?thesis using q0 by simp
  next
    case (Inl e)
    obtain s0' where e: "unawaited (emitError env om a reason (Some e)) s0 = (Inr (), s0')"
      "quiet_step a s0 s0'"
      using quiet_emitError [of env om a reason "Some e" s0] by blast
    then have "q = Inr None" "s1 = s0'"
      using assms g Inl by (simp_all add: try_catch_apply bnd_apply ret_apply)
    then show ?thesis using quiet_step_trans [OF q0 e(2)] by simp
  qed
qed

lemma second_step:
  fixes s s1 :: "('w, 'z) out_state_scheme"
  assumes "try_catch (getKeysForAddr env om a updateDevices False)
       (\<lambda>e. unawaited (emitError env om a reason (Some e))) s = (q, s1)"
  shows "q = Inr () \<and> quiet_step a s s1"
proof -
  obtain g s0 where g: "getKeysForAddr env om a updateDevices False s = (g, s0)"
    by (cases "getKeysForAddr env om a updateDevices False s")
  have "acts (\<lambda>x. \<not> is_SendMessages x) (getKeysForAddr env om a updateDevices False)"
    by (rule acts_getKeysForAddr) (erule fetch_action.elims; simp)
  then have q0: "quiet_step a s s0"
    by (rule quiet_stepI [OF keeps_getKeysForAddr _ g])
  show ?thesis
  proof (cases g)
    case (Inr u)
    then have "q = Inr ()" "s1 = s0"
      using assms g by (simp_all add: try_catch_apply)
    then show ?thesis using q0 by simp
  next
    case (Inl e)
    obtain s0' where e: "unawaited (emitError env om a reason (Some e)) s0 = (Inr (), s0')"
      "quiet_step a s0 s0'"
      using quiet_emitError [of env om a reason "Some e" s0] by blast
    then have "q = Inr ()" "s1 = s0'"
      using assms g Inl by (simp_all add: try_catch_apply)
    then show ?thesis using quiet_step_trans [OF q0 e(2)] by simp
  qed
qed

lemma reloadDevicesAndSend_journal:
  fixes s s' :: "('w, 'z) out_state_scheme"
  assumes "reloadDevicesAndSend n env om a rc s = Some (r, s')"
  shows "journal_grows a 0 s s'"
    and "r = Inr () \<Longrightarrow> journal_grows a 1 s s'
           \<or> (sent s' = sent s \<and> errors s' = errors s
               \<and> trace s' = trace s @ [(GetDeviceIds a, None), (GetStateAddr, None)]
               \<and> (\<exists>w1 ourAddr. storage_getDeviceIds env a (world s) = (Inr [], w1)
                     \<and> storage_getState_addr env w1 = (Inr ourAddr, world s') \<and> ourAddr \<noteq> a))"
proof -
  have "journal_grows a 0 s s' \<and> (r = Inr () \<longrightarrow> journal_grows a 1 s s'
           \<or> (sent s' = sent s \<and> errors s' = errors s
               \<and> trace s' = trace s @ [(GetDeviceIds a, None), (GetStateAddr, None)]
               \<and> (\<exists>w1 ourAddr. storage_getDeviceIds env a (world s) = (Inr [], w1)
                     \<and> storage_getState_addr env w1 = (Inr ourAddr, world s') \<and> ourAddr \<noteq> a)))"
    using assms
  proof (cases rule: reloadDevicesAndSend_split)
    case (failed e)
    then show ?thesis by (simp add: reloadDevices_result(1))
  next
    case skipped
    then show ?thesis
      using reloadDevices_result [OF skipped(1)] by simp
  next
    case (send ids s1)
    note g = doSendMessage_journal [OF send(2)]
    have "journal_grows a 0 s1 s'"
      using g by (rule journal_grows_weaken) simp
    then have 0: "journal_grows a 0 s s'"
      using reloadDevices_result(1) [OF send(1)] journal_grows_trans0 by blast
    have "journal_grows a 1 s s'" if "r = Inr ()"
      using g that reloadDevices_result(1) [OF send(1)] journal_grows_trans0 by fastforce
    with 0 show ?thesis by blast
  qed
  then show "journal_grows a 0 s s'"
    and "r = Inr () \<Longrightarrow> journal_grows a 1 s s'
           \<or> (sent s' = sent s \<and> errors s' = errors s
               \<and> trace s' = trace s @ [(GetDeviceIds a, None), (GetStateAddr, None)]
               \<and> (\<exists>w1 ourAddr. storage_getDeviceIds env a (world s) = (Inr [], w1)
                     \<and> storage_getState_addr env w1 = (Inr ourAddr, world s') \<and> ourAddr \<noteq> a))"
    by blast+
qed

text \<open>
  Claim C1, as the code has it. Every \<open>sendToAddr(addr)\<close> that returns returns
  normally (no exception escapes), and it has only appended to the two journals, every
  appended entry mentioning \<open>addr\<close>. It has appended at least one entry, unless the
  call ended in the branch of \<open>reloadDevicesAndSend\<close> that finds no stored device for
  an address that is not our own and returns after a warning: then the last two external
  calls are \<open>storage.getDeviceIds(addr)\<close>, answered with the empty list, and
  \<open>storage.getState('addr')\<close>, answered with an address other than \<open>addr\<close>.
\<close>

theorem sendToAddr_journals:
  fixes s s' :: "('w, 'z) out_state_scheme"
  assumes run: "sendToAddr n env om a s = Some (r, s')"
  shows "r = Inr ()
    \<and> (\<exists>xs ys. sent s' = sent s @ xs \<and> errors s' = errors s @ ys
          \<and> list_all (\<lambda>x. sent_addr x = a) xs \<and> list_all (\<lambda>y. error_addr y = a) ys
          \<and> (xs = [] \<and> ys = [] \<longrightarrow>
               (\<exists>t w w1 ourAddr.
                  trace s' = trace s @ t @ [(GetDeviceIds a, None), (GetStateAddr, None)]
                  \<and> storage_getDeviceIds env a w = (Inr [], w1)
                  \<and> storage_getState_addr env w1 = (Inr ourAddr, world s')
                  \<and> ourAddr \<noteq> a)))"
proof -
  let ?step1 = "try_catch (bnd (getStaleDeviceIdsForAddr env a) (\<lambda>ids. ret (Some ids)))
       (\<lambda>e. bnd (unawaited (emitError env om a
                    (''Failed to get device ids for address '' @ a) (Some e)))
               (\<lambda>_. ret None))"
  obtain q1 s1 where 1: "?step1 s = (q1, s1)"
    by (cases "?step1 s")
  from first_step [OF 1] obtain updateDevices where q1: "q1 = Inr updateDevices"
    and qs1: "quiet_step a s s1" by blast
  let ?step2 = "try_catch (getKeysForAddr env om a updateDevices False)
       (\<lambda>e. unawaited (emitError env om a
               (''Failed to retrieve new device keys for address '' @ a) (Some e)))"
  obtain q2 s2 where 2: "?step2 s1 = (q2, s2)"
    by (cases "?step2 s1")
  from second_step [OF 2] have q2: "q2 = Inr ()" and qs2: "quiet_step a s1 s2" by blast+
  have qs: "quiet_step a s s2"
    using qs1 qs2 by (rule quiet_step_trans)
  then obtain t where g2: "journal_grows a 0 s s2" and t: "trace s2 = trace s @ t"
    unfolding quiet_step_def by blast
  have 3: "(case reloadDevicesAndSend n env om a True s2 of
                None \<Rightarrow> None
              | Some (Inl e, s3) \<Rightarrow>
                  Some (unawaited (emitError env om a
                    (''Failed to send to address '' @ a) (Some e)) s3)
              | Some (Inr _, s3) \<Rightarrow> Some (Inr (), s3)) = Some (r, s')"
    using run unfolding sendToAddr_def 1 q1 by (simp only: 2 q2 prod.case sum.case)
  then obtain r3 s3 where rel: "reloadDevicesAndSend n env om a True s2 = Some (r3, s3)"
    by (cases "reloadDevicesAndSend n env om a True s2") auto
  have main: "r = Inr () \<and> (journal_grows a 1 s s'
      \<or> (journal_grows a 0 s s' \<and> sent s' = sent s2 \<and> errors s' = errors s2
           \<and> trace s' = trace s2 @ [(GetDeviceIds a, None), (GetStateAddr, None)]
           \<and> (\<exists>w1 ourAddr. storage_getDeviceIds env a (world s2) = (Inr [], w1)
                 \<and> storage_getState_addr env w1 = (Inr ourAddr, world s') \<and> ourAddr \<noteq> a)))"
  proof (cases r3)
    case (Inl e)
    obtain s4 where e: "unawaited (emitError env om a
        (''Failed to send to address '' @ a) (Some e)) s3 = (Inr (), s4)"
        "journal_grows a 1 s3 s4"
      using unawaited_emitError [of env om a _ "Some e" s3] by blast
    have "r = Inr ()" "s' = s4"
      using 3 rel Inl e by simp_all
    moreover have "journal_grows a 1 s s4"
      using g2 reloadDevicesAndSend_journal(1) [OF rel] e(2) journal_grows_trans0 by blast
    ultimately show ?thesis by simp
  next
    case (Inr u)
    then have r: "r = Inr ()" "s' = s3"
      using 3 rel by simp_all
    from reloadDevicesAndSend_journal [OF rel] Inr
    have "journal_grows a 0 s2 s3" and "journal_grows a 1 s2 s3
           \<or> (sent s3 = sent s2 \<and> errors s3 = errors s2
               \<and> trace s3 = trace s2 @ [(GetDeviceIds a, None), (GetStateAddr, None)]
               \<and> (\<exists>w1 ourAddr. storage_getDeviceIds env a (world s2) = (Inr [], w1)
                     \<and> storage_getState_addr env w1 = (Inr ourAddr, world s3) \<and> ourAddr \<noteq> a))"
      by simp_all
    then show ?thesis
      using r g2 journal_grows_trans0 by blast
  qed
  then have r: "r = Inr ()" by simp
  from main have g: "journal_grows a 0 s s'"
    using journal_grows_weaken by blast
  then obtain xs ys where xy: "sent s' = sent s @ xs" "errors s' = errors s @ ys"
    "list_all (\<lambda>x. sent_addr x = a) xs" "list_all (\<lambda>y. error_addr y = a) ys"
    unfolding journal_grows_def by blast
  have "\<exists>t w w1 ourAddr.
          trace s' = trace s @ t @ [(GetDeviceIds a, None), (GetStateAddr, None)]
          \<and> storage_getDeviceIds env a w = (Inr [], w1)
          \<and> storage_getState_addr env w1 = (Inr ourAddr, world s')
          \<and> ourAddr \<noteq> a"
    if "xs = []" "ys = []"
  proof -
    have "\<not> journal_grows a 1 s s'"
      using xy that unfolding journal_grows_def by auto
    with main obtain w1 ourAddr where
      tr: "trace s' = trace s2 @ [(GetDeviceIds a, None), (GetStateAddr, None)]"
      and st: "storage_getDeviceIds env a (world s2) = (Inr [], w1)"
        "storage_getState_addr env w1 = (Inr ourAddr, world s')" "ourAddr \<noteq> a"
      by blast
    from tr t have "trace s' = trace s @ t @ [(GetDeviceIds a, None), (GetStateAddr, None)]"
      by simp
    with st show ?thesis by blast
  qed
  with r xy show ?thesis by blast
qed

lemma quiet_span:
  assumes "acts (\<lambda>x. \<not> is_SendMessages x) m" and "m s = (r, s')"
  obtains t where "trace s' = trace s @ t" "transmits t = 0" "drift409 t = 0"
proof -
  obtain t where "trace s' = trace s @ t" "list_all (\<lambda>x. \<not> is_SendMessages (fst x)) t"
    using actsD [OF assms] by blast
  then show thesis
    using quiet_counts [of t] that by blast
qed

lemma acts_encrypt:
  "(\<And>i. P (Encrypt a i p)) \<Longrightarrow> acts P (encryptAll env a ids p)"
  unfolding encryptAll_def encryptToDevice_def by (auto intro: acts_call)

lemma acts_closeStaleSessions:
  "(\<And>i. P (CloseOpenSessionForDevice a i)) \<Longrightarrow> acts P (closeStaleSessions env a ids stale)"
  unfolding closeStaleSessions_def by (auto intro: acts_call split: option.splits)

lemma acts_reconcile: "acts (\<lambda>x. \<not> is_SendMessages x) (reconcile env om a ids e)"
  unfolding reconcile_def Let_def
  by (intro acts_bnd acts_if acts_removeDeviceIdsForAddr acts_closeStaleSessions
        acts_getKeysForAddr [where a = a])
     (auto elim: fetch_action.elims)

lemma acts_reloadDevices: "acts (\<lambda>x. \<not> is_SendMessages x) (reloadDevices env a)"
  unfolding reloadDevices_def
  by (intro acts_bnd acts_if acts_call acts_ret acts_emitSent) simp_all

lemma transmitMessage_trace:
  assumes "transmitMessage env a ms ts s = (r, s')"
  obtains x where "trace s' = trace s @ [(SendMessages a ms ts, x)]"
    and "\<And>e. r = Inl e \<Longrightarrow> is_ProtocolError e \<Longrightarrow> x = Some e"
proof -
  obtain q w where o: "server_sendMessages env a ms ts (world s) = (q, w)"
    by (cases "server_sendMessages env a ms ts (world s)")
  have t: "trace s' = trace s @ [(SendMessages a ms ts, raised q)]"
    using assms o
    by (auto simp: transmitMessage_def try_catch_apply call_apply throw_apply
             split: sum.splits if_splits)
  have "raised q = Some e" if "r = Inl e" "is_ProtocolError e" for e
    using assms o that
    by (auto simp: transmitMessage_def try_catch_apply call_apply throw_apply raised_def
             split: sum.splits if_splits)
  with t show thesis using that by blast
qed

lemma drift_entry:
  assumes "is_ProtocolError e"
  shows "is_drift409 (SendMessages a ms ts, Some e) = (code e = 409)"
  using assms by (cases e) simp_all

lemma reloadDevicesAndSend_transmits_step:
  fixes s s' :: "('w, 'z) out_state_scheme"
  assumes IH: "\<And>ids rc r and s s' :: ('w, 'z) out_state_scheme.
      doSendMessage n env om a ids rc s = Some (r, s') \<Longrightarrow>
      \<exists>t. trace s' = trace s @ t \<and> transmits t \<le> (if rc then drift409 t + 2 else 1)"
    and run: "reloadDevicesAndSend n env om a rc s = Some (r, s')"
  shows "\<exists>t. trace s' = trace s @ t \<and> transmits t \<le> (if rc then drift409 t + 2 else 1)"
  using run
proof (cases rule: reloadDevicesAndSend_split)
  case (failed e)
  obtain t where "trace s' = trace s @ t" "transmits t = 0"
    using quiet_span [OF acts_reloadDevices failed(1)] by blast
  then have "trace s' = trace s @ t \<and> transmits t \<le> (if rc then drift409 t + 2 else 1)"
    by simp
  then show ?thesis by (rule exI)
next
  case skipped
  obtain t where "trace s' = trace s @ t" "transmits t = 0"
    using quiet_span [OF acts_reloadDevices skipped(1)] by blast
  then have "trace s' = trace s @ t \<and> transmits t \<le> (if rc then drift409 t + 2 else 1)"
    by simp
  then show ?thesis by (rule exI)
next
  case (send ids s1)
  obtain t0 where t0: "trace s1 = trace s @ t0" "transmits t0 = 0" "drift409 t0 = 0"
    using quiet_span [OF acts_reloadDevices send(1)] by blast
  obtain t1 where t1: "trace s' = trace s1 @ t1"
    "transmits t1 \<le> (if rc then drift409 t1 + 2 else 1)"
    using IH [OF send(2)] by blast
  have "trace s' = trace s @ (t0 @ t1)
    \<and> transmits (t0 @ t1) \<le> (if rc then drift409 (t0 @ t1) + 2 else 1)"
    using t0 t1 by (auto split: if_splits)
  then show ?thesis by (rule exI)
qed

lemma doSendMessage_transmits:
  fixes s s' :: "('w, 'z) out_state_scheme"
  shows "doSendMessage n env om a ids rc s = Some (r, s') \<Longrightarrow>
   \<exists>t. trace s' = trace s @ t \<and> transmits t \<le> (if rc then drift409 t + 2 else 1)"
proof (induction n arbitrary: ids rc s r s')
  case 0
  then show ?case by simp
next
  case (Suc n)
  have reload: "\<exists>t. trace s4 = trace s3 @ t
      \<and> transmits t \<le> (if rc' then drift409 t + 2 else 1)"
    if rel: "reloadDevicesAndSend n env om a rc' s3 = Some (r4, s4)"
    for rc' r4 and s3 s4 :: "('w, 'z) out_state_scheme"
  proof (rule reloadDevicesAndSend_transmits_step [OF _ rel])
    fix ids1 rc1 r1 and sa sb :: "('w, 'z) out_state_scheme"
    assume "doSendMessage n env om a ids1 rc1 sa = Some (r1, sb)"
    then show "\<exists>t. trace sb = trace sa @ t
        \<and> transmits t \<le> (if rc1 then drift409 t + 2 else 1)"
      by (rule Suc.IH)
  qed
  have emitE: "\<exists>t. trace s' = trace s2 @ t \<and> transmits t = 0 \<and> drift409 t = 0"
    if "unawaited (emitError env om a reason err) s2 = (r, s')"
    for reason err and s2 :: "('w, 'z) out_state_scheme"
    using that quiet_emitError [of env om a reason err s2] unfolding quiet_step_def by auto
  have emitS: "\<exists>t. trace s' = trace s2 @ t \<and> transmits t = 0 \<and> drift409 t = 0"
    if "unawaited (emitSent env a) s2 = (r, s')"
    for s2 :: "('w, 'z) out_state_scheme"
    using that quiet_emitSent [of env a s2] unfolding quiet_step_def by auto
  from Suc.prems show ?case
  proof (cases rule: doSendMessage_cases)
    case (encrypt_failed p e s1)
    obtain te where te: "trace s1 = trace s @ te" "transmits te = 0" "drift409 te = 0"
      using quiet_span [OF acts_encrypt encrypt_failed(2)] by auto
    obtain tm where tm: "trace s' = trace s1 @ tm" "transmits tm = 0" "drift409 tm = 0"
      using emitE [OF encrypt_failed(3)] by blast
    have "trace s' = trace s @ (te @ tm)
      \<and> transmits (te @ tm) \<le> (if rc then drift409 (te @ tm) + 2 else 1)"
      using te tm by simp
    then show ?thesis by (rule exI)
  next
    case (sent p ms s1 s2)
    obtain te where te: "trace s1 = trace s @ te" "transmits te = 0" "drift409 te = 0"
      using quiet_span [OF acts_encrypt sent(2)] by auto
    obtain x where x: "trace s2 = trace s1 @ [(SendMessages a ms (om_timestamp om), x)]"
      using transmitMessage_trace [OF sent(3)] by blast
    obtain tm where tm: "trace s' = trace s2 @ tm" "transmits tm = 0" "drift409 tm = 0"
      using emitS [OF sent(4)] by blast
    let ?t = "te @ [(SendMessages a ms (om_timestamp om), x)] @ tm"
    have "trace s' = trace s @ ?t \<and> transmits ?t \<le> (if rc then drift409 ?t + 2 else 1)"
      using te x tm by simp
    then show ?thesis by (rule exI)
  next
    case (retry_limit p ms s1 e s2)
    obtain te where te: "trace s1 = trace s @ te" "transmits te = 0" "drift409 te = 0"
      using quiet_span [OF acts_encrypt retry_limit(2)] by auto
    obtain x where x: "trace s2 = trace s1 @ [(SendMessages a ms (om_timestamp om), x)]"
      using transmitMessage_trace [OF retry_limit(3)] by blast
    obtain tm where tm: "trace s' = trace s2 @ tm" "transmits tm = 0" "drift409 tm = 0"
      using emitE [OF retry_limit(7)] by blast
    let ?t = "te @ [(SendMessages a ms (om_timestamp om), x)] @ tm"
    have "trace s' = trace s @ ?t \<and> transmits ?t \<le> (if rc then drift409 ?t + 2 else 1)"
      using te x tm by simp
    then show ?thesis by (rule exI)
  next
    case (reconcile_failed p ms s1 e s2 e')
    obtain te where te: "trace s1 = trace s @ te" "transmits te = 0" "drift409 te = 0"
      using quiet_span [OF acts_encrypt reconcile_failed(2)] by auto
    obtain x where x: "trace s2 = trace s1 @ [(SendMessages a ms (om_timestamp om), x)]"
      using transmitMessage_trace [OF reconcile_failed(3)] by blast
    obtain tr where tr: "trace s' = trace s2 @ tr" "transmits tr = 0" "drift409 tr = 0"
      using quiet_span [OF acts_reconcile reconcile_failed(7)] by blast
    let ?t = "te @ [(SendMessages a ms (om_timestamp om), x)] @ tr"
    have "trace s' = trace s @ ?t \<and> transmits ?t \<le> (if rc then drift409 ?t + 2 else 1)"
      using te x tr by simp
    then show ?thesis by (rule exI)
  next
    case (reload_failed p ms s1 e s2 s3 e' s4)
    obtain te where te: "trace s1 = trace s @ te" "transmits te = 0" "drift409 te = 0"
      using quiet_span [OF acts_encrypt reload_failed(2)] by auto
    obtain x where x: "trace s2 = trace s1 @ [(SendMessages a ms (om_timestamp om), x)]"
      "x = Some e"
      using transmitMessage_trace [OF reload_failed(3)] reload_failed(4) by blast
    obtain tr where tr: "trace s3 = trace s2 @ tr" "transmits tr = 0" "drift409 tr = 0"
      using quiet_span [OF acts_reconcile reload_failed(7)] by blast
    obtain tl where tl: "trace s4 = trace s3 @ tl"
      "transmits tl \<le> (if code e = 409 then drift409 tl + 2 else 1)"
      using reload [OF reload_failed(8)] by blast
    obtain tm where tm: "trace s' = trace s4 @ tm" "transmits tm = 0" "drift409 tm = 0"
      using emitE [OF reload_failed(9)] by blast
    let ?t = "te @ [(SendMessages a ms (om_timestamp om), x)] @ tr @ tl @ tm"
    have 1: "trace s' = trace s @ ?t"
      using te x tr tl tm by simp
    have 2: "transmits ?t = 1 + transmits tl"
      using te x tr tl tm by simp
    have 3: "drift409 ?t = (if code e = 409 then 1 else 0) + drift409 tl"
      using te x tr tl tm drift_entry [OF reload_failed(4)] by simp
    have "transmits ?t \<le> drift409 ?t + 2"
      unfolding 2 3 using tl(2) by (simp split: if_splits)
    then have "trace s' = trace s @ ?t \<and> transmits ?t \<le> (if rc then drift409 ?t + 2 else 1)"
      using 1 reload_failed(6) by simp
    then show ?thesis by (rule exI)
  next
    case (reloaded p ms s1 e s2 s3 s4)
    obtain te where te: "trace s1 = trace s @ te" "transmits te = 0" "drift409 te = 0"
      using quiet_span [OF acts_encrypt reloaded(2)] by auto
    obtain x where x: "trace s2 = trace s1 @ [(SendMessages a ms (om_timestamp om), x)]"
      "x = Some e"
      using transmitMessage_trace [OF reloaded(3)] reloaded(4) by blast
    obtain tr where tr: "trace s3 = trace s2 @ tr" "transmits tr = 0" "drift409 tr = 0"
      using quiet_span [OF acts_reconcile reloaded(7)] by blast
    obtain tl where tl: "trace s4 = trace s3 @ tl"
      "transmits tl \<le> (if code e = 409 then drift409 tl + 2 else 1)"
      using reload [OF reloaded(8)] by blast
    obtain tm where tm: "trace s' = trace s4 @ tm" "transmits tm = 0" "drift409 tm = 0"
      using emitS [OF reloaded(9)] by blast
    let ?t = "te @ [(SendMessages a ms (om_timestamp om), x)] @ tr @ tl @ tm"
    have 1: "trace s' = trace s @ ?t"
      using te x tr tl tm by simp
    have 2: "transmits ?t = 1 + transmits tl"
      using te x tr tl tm by simp
    have 3: "drift409 ?t = (if code e = 409 then 1 else 0) + drift409 tl"
      using te x tr tl tm drift_entry [OF reloaded(4)] by simp
    have "transmits ?t \<le> drift409 ?t + 2"
      unfolding 2 3 using tl(2) by (simp split: if_splits)
    then have "trace s' = trace s @ ?t \<and> transmits ?t \<le> (if rc then drift409 ?t + 2 else 1)"
      using 1 reloaded(6) by simp
    then show ?thesis by (rule exI)
  next
    case (send_failed p ms s1 e s2)
    obtain te where te: "trace s1 = trace s @ te" "transmits te = 0" "drift409 te = 0"
      using quiet_span [OF acts_encrypt send_failed(2)] by auto
    obtain x where x: "trace s2 = trace s1 @ [(SendMessages a ms (om_timestamp om), x)]"
      using transmitMessage_trace [OF send_failed(3)] by blast
    obtain tm where tm: "trace s' = trace s2 @ tm" "transmits tm = 0" "drift409 tm = 0"
      using emitE [OF send_failed(5)] by blast
    let ?t = "te @ [(SendMessages a ms (om_timestamp om), x)] @ tm"
    have "trace s' = trace s @ ?t \<and> transmits ?t \<le> (if rc then drift409 ?t + 2 else 1)"
      using te x tm by simp
    then show ?thesis by (rule exI)
  qed
qed

lemma reloadDevicesAndSend_transmits:
  fixes s s' :: "('w, 'z) out_state_scheme"
  assumes "reloadDevicesAndSend n env om a rc s = Some (r, s')"
  shows "\<exists>t. trace s' = trace s @ t \<and> transmits t \<le> (if rc then drift409 t + 2 else 1)"
proof (rule reloadDevicesAndSend_transmits_step [OF _ assms])
  fix ids1 rc1 r1 and sa sb :: "('w, 'z) out_state_scheme"
  assume "doSendMessage n env om a ids1 rc1 sa = Some (r1, sb)"
  then show "\<exists>t. trace sb = trace sa @ t
      \<and> transmits t \<le> (if rc1 then drift409 t + 2 else 1)"
    by (rule doSendMessage_transmits)
qed

text \<open>
  Claim C2, as the code has it. In every \<open>sendToAddr\<close> that returns, the number of
  transmits is at most two more than the number of 409 answers: the retry after a 409 is
  run with \<open>recurse = (e.code === 409) = true\<close>, the retry after a 410 with
  \<open>recurse = false\<close>. And a \<open>doSendMessage\<close> run with \<open>recurse = false\<close> transmits
  at most once: a drift answer to it is the terminal retry-limit error.
\<close>

theorem sendToAddr_transmits:
  fixes s s' :: "('w, 'z) out_state_scheme"
  assumes run: "sendToAddr n env om a s = Some (r, s')"
  shows "(\<exists>t. trace s' = trace s @ t \<and> transmits t \<le> drift409 t + 2)
    \<and> (\<forall>k ids r1. \<forall>s1 s2 :: ('w, 'z) out_state_scheme.
          doSendMessage k env om a ids False s1 = Some (r1, s2) \<longrightarrow>
          (\<exists>t. trace s2 = trace s1 @ t \<and> transmits t \<le> 1))"
proof -
  let ?step1 = "try_catch (bnd (getStaleDeviceIdsForAddr env a) (\<lambda>ids. ret (Some ids)))
       (\<lambda>e. bnd (unawaited (emitError env om a
                    (''Failed to get device ids for address '' @ a) (Some e)))
               (\<lambda>_. ret None))"
  obtain q1 s1 where 1: "?step1 s = (q1, s1)"
    by (cases "?step1 s")
  from first_step [OF 1] obtain updateDevices where q1: "q1 = Inr updateDevices"
    and qs1: "quiet_step a s s1" by blast
  let ?step2 = "try_catch (getKeysForAddr env om a updateDevices False)
       (\<lambda>e. unawaited (emitError env om a
               (''Failed to retrieve new device keys for address '' @ a) (Some e)))"
  obtain q2 s2 where 2: "?step2 s1 = (q2, s2)"
    by (cases "?step2 s1")
  from second_step [OF 2] have q2: "q2 = Inr ()" and qs2: "quiet_step a s1 s2" by blast+
  obtain t12 where t12: "trace s2 = trace s @ t12" "transmits t12 = 0" "drift409 t12 = 0"
    using quiet_step_trans [OF qs1 qs2] unfolding quiet_step_def by blast
  have 3: "(case reloadDevicesAndSend n env om a True s2 of
                None \<Rightarrow> None
              | Some (Inl e, s3) \<Rightarrow>
                  Some (unawaited (emitError env om a
                    (''Failed to send to address '' @ a) (Some e)) s3)
              | Some (Inr _, s3) \<Rightarrow> Some (Inr (), s3)) = Some (r, s')"
    using run unfolding sendToAddr_def 1 q1 by (simp only: 2 q2 prod.case sum.case)
  then obtain r3 s3 where rel: "reloadDevicesAndSend n env om a True s2 = Some (r3, s3)"
    by (cases "reloadDevicesAndSend n env om a True s2") auto
  obtain t3 where t3: "trace s3 = trace s2 @ t3" "transmits t3 \<le> drift409 t3 + 2"
    using reloadDevicesAndSend_transmits [OF rel] by auto
  obtain t4 where t4: "trace s' = trace s3 @ t4" "transmits t4 = 0" "drift409 t4 = 0"
  proof (cases r3)
    case (Inl e)
    obtain s4 where e: "unawaited (emitError env om a
        (''Failed to send to address '' @ a) (Some e)) s3 = (Inr (), s4)"
        "quiet_step a s3 s4"
      using quiet_emitError [of env om a _ "Some e" s3] by blast
    have "s' = s4"
      using 3 rel Inl e by simp
    then show ?thesis using e(2) that unfolding quiet_step_def by blast
  next
    case (Inr u)
    then have "s' = s3"
      using 3 rel by simp
    then show ?thesis using that [of "[]"] by simp
  qed
  have "trace s' = trace s @ (t12 @ t3 @ t4)
      \<and> transmits (t12 @ t3 @ t4) \<le> drift409 (t12 @ t3 @ t4) + 2"
    using t12 t3 t4 by simp
  then have A: "\<exists>t. trace s' = trace s @ t \<and> transmits t \<le> drift409 t + 2"
    by (rule exI)
  have B: "\<exists>t. trace s2 = trace s1 @ t \<and> transmits t \<le> 1"
    if "doSendMessage k env om a ids False s1 = Some (r1, s2)"
    for k ids r1 and s1 s2 :: "('w, 'z) out_state_scheme"
    using doSendMessage_transmits [OF that] by simp
  from A B show ?thesis by blast
qed

lemma flapping_run:
  "map_option (\<lambda>(r, s'). (r, transmits (trace s'), drift409 (trace s')))
     (sendToAddr 3 flapping_env hi_message ''bob'' start_out) = Some (Inr (), 3, 2)"
  by code_simp

theorem sendToAddr_transmits_witness:
  "\<exists>s' t. sendToAddr 3 flapping_env hi_message ''bob'' start_out = Some (Inr (), s')
     \<and> trace s' = trace start_out @ t \<and> transmits t = 3 \<and> drift409 t = 2
     \<and> transmits t \<le> drift409 t + 2"
proof -
  from flapping_run obtain p where
    p: "sendToAddr 3 flapping_env hi_message ''bob'' start_out = Some p"
    and v: "(\<lambda>(r, s'). (r, transmits (trace s'), drift409 (trace s'))) p = (Inr (), 3, 2)"
    by blast
  obtain r s' where rs: "p = (r, s')"
    by (cases p)
  from v rs have r: "r = Inr ()" and cnt: "transmits (trace s') = 3" "drift409 (trace s') = 2"
    by simp_all
  from p rs r have
    run: "sendToAddr 3 flapping_env hi_message ''bob'' start_out = Some (Inr (), s')"
    by simp
  from sendToAddr_transmits [OF run] obtain t where
    t: "trace s' = trace start_out @ t" "transmits t \<le> drift409 t + 2"
    by blast
  from t(1) have "trace s' = t"
    by (simp add: start_out_def)
  with cnt t run show ?thesis
    by blast
qed

text \<open>
  Claim C2 as stated (at most two transmits) fails when the server answers 409 twice:
  the third transmit is made, and accepted.
\<close>

theorem sendToAddr_flapping_counterexample:
  "outcome (sendToAddr 3 flapping_env hi_message ''bob'' start_out) = Some (Inr (), 3, 3, [])"
  by code_simp

text \<open>
  Claim C6 at our own address with no stored device: \<open>sendToAddr\<close> journals
  \<open>sent\<close>, then goes on into \<open>doSendMessage\<close> with the empty device list, transmits
  the empty list of messages and journals \<open>sent\<close> a second time. For another address
  with no stored device, \<open>getStaleDeviceIdsForAddr\<close> does look at device 1 and returns
  the fetch list \<open>[1]\<close>.
\<close>

theorem sendToAddr_own_address:
  "sendToAddr 1 quiet_env hi_message ''me'' start_out =
     Some (Inr (),
       \<lparr>world = 0,
        trace =
          [(GetDeviceIds ''me'', None), (GetStateAddr, None),
           (GetDeviceIds ''me'', None), (GetStateAddr, None), (DateNow, None),
           (Emit (SentEmitted \<lparr>sent_timestamp_of = 0, sent_addr = ''me''\<rparr>), None),
           (SendMessages ''me'' [] 1000, None), (DateNow, None),
           (Emit (SentEmitted \<lparr>sent_timestamp_of = 0, sent_addr = ''me''\<rparr>), None)],
        sent =
          [\<lparr>sent_timestamp_of = 0, sent_addr = ''me''\<rparr>,
           \<lparr>sent_timestamp_of = 0, sent_addr = ''me''\<rparr>],
        errors = []\<rparr>)
   \<and> getStaleDeviceIdsForAddr unknown_env ''bob'' start_out =
     (Inr [1],
       \<lparr>world = 0,
        trace = [(GetDeviceIds ''bob'', None), (GetStateAddr, None),
                 (HasOpenSession ''bob'' 1, None)],
        sent = [], errors = []\<rparr>)"
  by code_simp

lemma own_address_run:
  "sendToAddr 1 quiet_env hi_message ''me'' start_out = Some (Inr (), own_address_final)"
  by code_simp

text \<open>
  Claim C1 as stated (exactly one journal entry) fails for an address that is not our
  own, has no stored device, and for which the prekey fetch brings no device:
  \<open>sendToAddr\<close> returns with both journals empty.
\<close>

theorem sendToAddr_unregistered_counterexample:
  "sendToAddr 1 unknown_env hi_message ''bob'' start_out =
     Some (Inr (),
       \<lparr>world = 0,
        trace =
          [(GetDeviceIds ''bob'', None), (GetStateAddr, None),
           (HasOpenSession ''bob'' 1, None),
           (GetKeysForAddr ''bob'' (Some 1), None),
           (GetDeviceIds ''bob'', None), (GetStateAddr, None)],
        sent = [], errors = []\<rparr>)"
  by code_simp

lemma unknown_run:
  "sendToAddr 1 unknown_env hi_message ''bob'' start_out = Some (Inr (), unknown_final)"
  by code_simp

theorem sendToAddr_journals_witness:
  "sendToAddr 1 unknown_env hi_message ''bob'' start_out = Some (Inr (), unknown_final)
   \<and> (\<exists>xs ys. sent unknown_final = sent start_out @ xs
         \<and> errors unknown_final = errors start_out @ ys
         \<and> list_all (\<lambda>x. sent_addr x = ''bob'') xs
         \<and> list_all (\<lambda>y. error_addr y = ''bob'') ys
         \<and> (xs = [] \<and> ys = [] \<longrightarrow>
               (\<exists>t w w1 ourAddr.
                  trace unknown_final = trace start_out @ t
                       @ [(GetDeviceIds ''bob'', None), (GetStateAddr, None)]
                  \<and> storage_getDeviceIds unknown_env ''bob'' w = (Inr [], w1)
                  \<and> storage_getState_addr unknown_env w1 = (Inr ourAddr, world unknown_final)
                  \<and> ourAddr \<noteq> ''bob'')))
   \<and> sendToAddr 1 quiet_env hi_message ''me'' start_out = Some (Inr (), own_address_final)
   \<and> (\<exists>xs ys. sent own_address_final = sent start_out @ xs
         \<and> errors own_address_final = errors start_out @ ys
         \<and> list_all (\<lambda>x. sent_addr x = ''me'') xs
         \<and> list_all (\<lambda>y. error_addr y = ''me'') ys
         \<and> (xs = [] \<and> ys = [] \<longrightarrow>
               (\<exists>t w w1 ourAddr.
                  trace own_address_final = trace start_out @ t
                       @ [(GetDeviceIds ''me'', None), (GetStateAddr, None)]
                  \<and> storage_getDeviceIds quiet_env ''me'' w = (Inr [], w1)
                  \<and> storage_getState_addr quiet_env w1 = (Inr ourAddr, world own_address_final)
                  \<and> ourAddr \<noteq> ''me'')))"
  using sendToAddr_journals [OF unknown_run] sendToAddr_journals [OF own_address_run]
    unknown_run own_address_run
  by blast

subsection \<open>The 404 answers of the key fetch\<close>

lemma bnd_assoc: "bnd (bnd m f) g = bnd m (\<lambda>x. bnd (f x) g)"
  by (rule ext) (simp add: bnd_apply split: prod.splits sum.splits)

lemma for_each_append:
  "for_each (xs @ ys) f = bnd (for_each xs f) (\<lambda>_. for_each ys f)"
  by (induction xs) (simp_all add: bnd_assoc)

text \<open>
  Claim C8. In the loop of \<open>getKeysForAddr\<close> over an explicit \<open>updateDevices\<close> list,
  let the server answer the fetch for the device \<open>dev\<close> with a 404. If \<open>dev\<close> is not
  1, the loop goes on as \<open>storage.removeSession\<close> for that device followed by the rest
  of the loop (and, when the removal returns, as the rest of the loop after the removal);
  if \<open>dev\<close> is 1, the 404 is raised out of \<open>getKeysForAddr\<close> and nothing more is
  fetched. This is so for the first device of the list, and for a device at any later
  place once the loop over the devices \<open>pre\<close> before it has come to it.
\<close>

theorem getKeysForAddr_404:
  assumes fetch: "server_getKeysForAddr env a (Some dev) (world s) = (Inl (ProtocolError 404 resp), w1)"
    and s1: "s1 = s\<lparr>world := w1,
                    trace := trace s @ [(GetKeysForAddr a (Some dev), Some (ProtocolError 404 resp))]\<rparr>"
  shows "(dev \<noteq> 1 \<longrightarrow>
           getKeysForAddr env om a (Some (dev # ds)) reentrant s =
             bnd (call (RemoveSession a dev) (storage_removeSession env a dev))
               (\<lambda>_. for_each ds (fetch_device env om a (Some (dev # ds)) reentrant)) s1)
    \<and> (dev \<noteq> 1 \<and> storage_removeSession env a dev w1 = (Inr (), w2) \<longrightarrow>
           getKeysForAddr env om a (Some (dev # ds)) reentrant s =
             for_each ds (fetch_device env om a (Some (dev # ds)) reentrant)
               (s1\<lparr>world := w2, trace := trace s1 @ [(RemoveSession a dev, None)]\<rparr>))
    \<and> (dev = 1 \<longrightarrow>
           getKeysForAddr env om a (Some (dev # ds)) reentrant s =
             (Inl (ProtocolError 404 resp), s1))
    \<and> (for_each pre (fetch_device env om a (Some (pre @ dev # ds)) reentrant) s0 = (Inr (), s)
         \<and> dev \<noteq> 1 \<longrightarrow>
           getKeysForAddr env om a (Some (pre @ dev # ds)) reentrant s0 =
             bnd (call (RemoveSession a dev) (storage_removeSession env a dev))
               (\<lambda>_. for_each ds (fetch_device env om a (Some (pre @ dev # ds)) reentrant)) s1)
    \<and> (for_each pre (fetch_device env om a (Some (pre @ dev # ds)) reentrant) s0 = (Inr (), s)
         \<and> dev \<noteq> 1 \<and> storage_removeSession env a dev w1 = (Inr (), w2) \<longrightarrow>
           getKeysForAddr env om a (Some (pre @ dev # ds)) reentrant s0 =
             for_each ds (fetch_device env om a (Some (pre @ dev # ds)) reentrant)
               (s1\<lparr>world := w2, trace := trace s1 @ [(RemoveSession a dev, None)]\<rparr>))
    \<and> (for_each pre (fetch_device env om a (Some (pre @ dev # ds)) reentrant) s0 = (Inr (), s)
         \<and> dev = 1 \<longrightarrow>
           getKeysForAddr env om a (Some (pre @ dev # ds)) reentrant s0 =
             (Inl (ProtocolError 404 resp), s1))"
proof -
  have c: "call (GetKeysForAddr a (Some dev)) (server_getKeysForAddr env a (Some dev)) s
      = (Inl (ProtocolError 404 resp), s1)"
    by (simp add: call_def fetch s1 raised_def)
  have f: "fetch_device env om a upd reentrant dev s =
      (if dev \<noteq> 1 then removeDeviceIdsForAddr env a (Some [dev])
       else throw (ProtocolError 404 resp)) s1" for upd
    by (simp add: fetch_device_def try_catch_apply bnd_apply c)
  have r: "removeDeviceIdsForAddr env a (Some [dev]) =
      bnd (call (RemoveSession a dev) (storage_removeSession env a dev)) (\<lambda>_. ret ())"
    by (simp add: removeDeviceIdsForAddr_def)
  have A: "for_each (dev # ds) (fetch_device env om a upd reentrant) s =
             bnd (call (RemoveSession a dev) (storage_removeSession env a dev))
               (\<lambda>_. for_each ds (fetch_device env om a upd reentrant)) s1"
    if "dev \<noteq> 1" for upd
    using that f [of upd]
    by (simp add: bnd_apply r ret_apply split: prod.splits sum.splits)
  have B: "for_each (dev # ds) (fetch_device env om a upd reentrant) s =
             for_each ds (fetch_device env om a upd reentrant)
               (s1\<lparr>world := w2, trace := trace s1 @ [(RemoveSession a dev, None)]\<rparr>)"
    if "dev \<noteq> 1" "storage_removeSession env a dev w1 = (Inr (), w2)" for upd
    unfolding A [OF that(1)] using that(2)
    by (simp add: bnd_apply call_apply s1 raised_def)
  have C: "for_each (dev # ds) (fetch_device env om a upd reentrant) s
      = (Inl (ProtocolError 404 resp), s1)"
    if "dev = 1" for upd
    using that f [of upd] by (simp add: bnd_apply throw_apply)
  have g: "getKeysForAddr env om a (Some (dev # ds)) reentrant s =
      for_each (dev # ds) (fetch_device env om a (Some (dev # ds)) reentrant) s"
    by (simp add: getKeysForAddr_unfold)
  have h: "getKeysForAddr env om a (Some (pre @ dev # ds)) reentrant s0 =
      for_each (dev # ds) (fetch_device env om a (Some (pre @ dev # ds)) reentrant) s"
    if "for_each pre (fetch_device env om a (Some (pre @ dev # ds)) reentrant) s0 = (Inr (), s)"
    using that by (simp add: getKeysForAddr_unfold for_each_append bnd_apply)
  have A0: "getKeysForAddr env om a (Some (dev # ds)) reentrant s =
             bnd (call (RemoveSession a dev) (storage_removeSession env a dev))
               (\<lambda>_. for_each ds (fetch_device env om a (Some (dev # ds)) reentrant)) s1"
    if "dev \<noteq> 1"
    unfolding g using that by (rule A)
  have B0: "getKeysForAddr env om a (Some (dev # ds)) reentrant s =
             for_each ds (fetch_device env om a (Some (dev # ds)) reentrant)
               (s1\<lparr>world := w2, trace := trace s1 @ [(RemoveSession a dev, None)]\<rparr>)"
    if "dev \<noteq> 1" "storage_removeSession env a dev w1 = (Inr (), w2)"
    unfolding g using that by (rule B)
  have C0: "getKeysForAddr env om a (Some (dev # ds)) reentrant s
      = (Inl (ProtocolError 404 resp), s1)"
    if "dev = 1"
    unfolding g using that by (rule C)
  have A1: "getKeysForAddr env om a (Some (pre @ dev # ds)) reentrant s0 =
             bnd (call (RemoveSession a dev) (storage_removeSession env a dev))
               (\<lambda>_. for_each ds (fetch_device env om a (Some (pre @ dev # ds)) reentrant)) s1"
    if "for_each pre (fetch_device env om a (Some (pre @ dev # ds)) reentrant) s0 = (Inr (), s)"
      "dev \<noteq> 1"
    unfolding h [OF that(1)] using that(2) by (rule A)
  have B1: "getKeysForAddr env om a (Some (pre @ dev # ds)) reentrant s0 =
             for_each ds (fetch_device env om a (Some (pre @ dev # ds)) reentrant)
               (s1\<lparr>world := w2, trace := trace s1 @ [(RemoveSession a dev, None)]\<rparr>)"
    if "for_each pre (fetch_device env om a (Some (pre @ dev # ds)) reentrant) s0 = (Inr (), s)"
      "dev \<noteq> 1" "storage_removeSession env a dev w1 = (Inr (), w2)"
    unfolding h [OF that(1)] using that(2,3) by (rule B)
  have C1: "getKeysForAddr env om a (Some (pre @ dev # ds)) reentrant s0
      = (Inl (ProtocolError 404 resp), s1)"
    if "for_each pre (fetch_device env om a (Some (pre @ dev # ds)) reentrant) s0 = (Inr (), s)"
      "dev = 1"
    unfolding h [OF that(1)] using that(2) by (rule C)
  show ?thesis
    apply (intro conjI impI)
    subgoal by (rule A0)
    subgoal by (elim conjE) (rule B0)
    subgoal by (rule C0)
    subgoal by (elim conjE) (rule A1)
    subgoal by (elim conjE) (rule B1)
    subgoal by (elim conjE) (rule C1)
    done
qed

theorem getKeysForAddr_404_witness:
  "getKeysForAddr gone_env hi_message ''bob'' (Some [2, 1, 3]) False start_out =
     (Inl (ProtocolError 404 no_drift),
      \<lparr>world = 2,
       trace =
         [(GetKeysForAddr ''bob'' (Some 2), Some (ProtocolError 404 no_drift)),
          (RemoveSession ''bob'' 2, None),
          (GetKeysForAddr ''bob'' (Some 1), Some (ProtocolError 404 no_drift))],
       sent = [], errors = []\<rparr>)"
proof -
  let ?s1 = "start_out\<lparr>world := 1,
                    trace := trace start_out @
                      [(GetKeysForAddr ''bob'' (Some 2), Some (ProtocolError 404 no_drift))]\<rparr>"
  let ?s2 = "?s1\<lparr>world := 1, trace := trace ?s1 @ [(RemoveSession ''bob'' 2, None)]\<rparr>"
  let ?s3 = "?s2\<lparr>world := 2,
                    trace := trace ?s2 @
                      [(GetKeysForAddr ''bob'' (Some 1), Some (ProtocolError 404 no_drift))]\<rparr>"
  let ?F = "fetch_device gone_env hi_message ''bob'' (Some ([2] @ 1 # [3])) False"
  have h1: "server_getKeysForAddr gone_env ''bob'' (Some 2) (world start_out)
      = (Inl (ProtocolError 404 no_drift), 1)"
    by (simp add: gone_env_def quiet_env_def start_out_def)
  have h2: "(2::nat) \<noteq> 1 \<and> storage_removeSession gone_env ''bob'' 2 1 = (Inr (), 1)"
    by (simp add: gone_env_def quiet_env_def)
  have first: "getKeysForAddr gone_env hi_message ''bob'' (Some [2, 1, 3]) False start_out =
      for_each [1, 3] (fetch_device gone_env hi_message ''bob'' (Some [2, 1, 3]) False) ?s2"
    using getKeysForAddr_404 [OF h1 refl, of hi_message "[1, 3]" False 1 "[]" start_out] h2
    by blast
  have h3: "server_getKeysForAddr gone_env ''bob'' (Some 1) (world ?s2)
      = (Inl (ProtocolError 404 no_drift), 2)"
    by (simp add: gone_env_def quiet_env_def start_out_def)
  have h4: "for_each [2] ?F start_out = (Inr (), ?s2)"
    by code_simp
  have second: "getKeysForAddr gone_env hi_message ''bob'' (Some ([2] @ 1 # [3])) False start_out
      = (Inl (ProtocolError 404 no_drift), ?s3)"
    using getKeysForAddr_404 [OF h3 refl, of hi_message "[3]" False 1 "[2]" start_out] h4
    by blast
  show ?thesis
    using second by (simp add: start_out_def)
qed

end
